(* ===== verification/CB_Prelude.thy ===== *)
theory CB_Prelude
  imports Main "HOL-Library.AList" "HOL-Library.Sublist"
begin

text \<open>
  Shared vocabulary of the development: the Python exceptions the sources raise or catch,
  results and state-passing actions that may raise, dictionaries with Python's insertion
  order, JSON values with Python's subscripting and truth rules, and the generic lemmas the
  component theories share.
\<close>

section \<open>Hint collections\<close>

named_theorems act_simps \<open>unfolding rules of the action combinators\<close>
named_theorems res_elims \<open>inversion rules for results\<close>

section \<open>Lists\<close>

lemma find_append: "find P (xs @ ys) = (case find P xs of None \<Rightarrow> find P ys | Some x \<Rightarrow> Some x)"
  by (induction xs) auto

lemma find_SomeD: "find P xs = Some x \<Longrightarrow> x \<in> set xs \<and> P x"
  by (induction xs) (auto split: if_splits)

lemma length_remove1_le: "length (remove1 x xs) \<le> length xs"
  by (induction xs) auto

text \<open>\<open>s.add(x)\<close> on a set that is kept as the list of its elements in order of insertion.\<close>

definition set_add :: "'a \<Rightarrow> 'a list \<Rightarrow> 'a list" where
  "set_add x xs = (if x \<in> set xs then xs else xs @ [x])"

section \<open>Exceptions and results\<close>

text \<open>
  One constructor per exception class the sources name or the modelled statements raise.
  \<open>CancelledError\<close> is a \<open>BaseException\<close>: \<open>except Exception\<close> does not catch it.
\<close>

datatype py_exn =
    KeyError | IndexError | TypeError | ValueError | AttributeError | AssertionError
  | UnboundLocalError | FileNotFoundError | CancelledError
  | ManagerError | ExternalUpdateError | ArbitrageError
  | TransactionNotFound | ContractLogicError | OtherError string

definition is_Exception :: "py_exn \<Rightarrow> bool" where
  "is_Exception e \<longleftrightarrow> e \<noteq> CancelledError"

type_synonym 'a res = "py_exn + 'a"

definition res_bind :: "'a res \<Rightarrow> ('a \<Rightarrow> 'b res) \<Rightarrow> 'b res" where
  "res_bind m f = (case m of Inl e \<Rightarrow> Inl e | Inr x \<Rightarrow> f x)"

lemma res_bind_simps [simp]:
  "res_bind (Inl e) f = Inl e"
  "res_bind (Inr x) f = f x"
  by (simp_all add: res_bind_def)

lemma res_bind_Inr_iff:
  "res_bind m f = Inr y \<longleftrightarrow> (\<exists>x. m = Inr x \<and> f x = Inr y)"
  by (cases m) auto

lemma res_bind_InrE [res_elims]:
  assumes "res_bind m f = Inr y"
  obtains x where "m = Inr x" and "f x = Inr y"
  using assms by (auto simp: res_bind_Inr_iff)

text \<open>A list comprehension whose element expression may raise stops at the first exception.\<close>

fun res_map :: "('a \<Rightarrow> 'b res) \<Rightarrow> 'a list \<Rightarrow> 'b list res" where
  "res_map f [] = Inr []"
| "res_map f (x # xs) = res_bind (f x) (\<lambda>y. res_bind (res_map f xs) (\<lambda>ys. Inr (y # ys)))"

lemma res_map_Inr: "res_map (\<lambda>x. Inr (f x)) xs = Inr (map f xs)"
  by (induction xs) simp_all

lemma res_map_all_Inr:
  assumes "\<And>x. x \<in> set xs \<Longrightarrow> f x = Inr (g x)"
  shows "res_map f xs = Inr (map g xs)"
  using assms by (induction xs) simp_all

lemma res_map_length: "res_map f xs = Inr ys \<Longrightarrow> length ys = length xs"
  by (induction xs arbitrary: ys) (auto simp: res_bind_Inr_iff)

section \<open>Actions: state passing with exceptions\<close>

text \<open>
  An action returns its result or exception and the state it leaves. An exception keeps the
  changes made before it was raised, as a Python method does.
\<close>

type_synonym ('s, 'a) act = "'s \<Rightarrow> 'a res \<times> 's"

definition act_return :: "'a \<Rightarrow> ('s, 'a) act" where
  [act_simps]: "act_return x = (\<lambda>s. (Inr x, s))"

definition act_raise :: "py_exn \<Rightarrow> ('s, 'a) act" where
  [act_simps]: "act_raise e = (\<lambda>s. (Inl e, s))"

definition act_lift :: "'a res \<Rightarrow> ('s, 'a) act" where
  [act_simps]: "act_lift r = (\<lambda>s. (r, s))"

definition act_update :: "('s \<Rightarrow> 's) \<Rightarrow> ('s, unit) act" where
  [act_simps]: "act_update f = (\<lambda>s. (Inr (), f s))"

definition act_read :: "('s \<Rightarrow> 'a) \<Rightarrow> ('s, 'a) act" where
  [act_simps]: "act_read f = (\<lambda>s. (Inr (f s), s))"

definition act_bind :: "('s, 'a) act \<Rightarrow> ('a \<Rightarrow> ('s, 'b) act) \<Rightarrow> ('s, 'b) act" where
  "act_bind m f = (\<lambda>s. case m s of (Inl e, t) \<Rightarrow> (Inl e, t) | (Inr x, t) \<Rightarrow> f x t)"

text \<open>\<open>try: m except E: h(E) else: g(x)\<close>, the handler and the else branch outside the try.\<close>

definition act_try ::
  "('s, 'a) act \<Rightarrow> (py_exn \<Rightarrow> ('s, 'b) act) \<Rightarrow> ('a \<Rightarrow> ('s, 'b) act) \<Rightarrow> ('s, 'b) act" where
  "act_try m h g = (\<lambda>s. case m s of (Inl e, t) \<Rightarrow> h e t | (Inr x, t) \<Rightarrow> g x t)"

lemma act_bind_Inl [act_simps]: "m s = (Inl e, t) \<Longrightarrow> act_bind m f s = (Inl e, t)"
  by (simp add: act_bind_def)

lemma act_bind_Inr [act_simps]: "m s = (Inr x, t) \<Longrightarrow> act_bind m f s = f x t"
  by (simp add: act_bind_def)

lemma act_try_Inl [act_simps]: "m s = (Inl e, t) \<Longrightarrow> act_try m h g s = h e t"
  by (simp add: act_try_def)

lemma act_try_Inr [act_simps]: "m s = (Inr x, t) \<Longrightarrow> act_try m h g s = g x t"
  by (simp add: act_try_def)

lemma act_bind_simps [simp]:
  "act_bind (act_return x) f = f x"
  "act_bind (act_raise e) f = act_raise e"
  "act_bind (act_lift (Inl e)) f = act_raise e"
  "act_bind (act_lift (Inr x)) f = f x"
  by (simp_all add: act_bind_def act_return_def act_raise_def act_lift_def)

lemma act_bind_state [simp]:
  "act_bind (act_read g) f s = f (g s) s"
  "act_bind (act_update h) k s = k () (h s)"
  by (simp_all add: act_bind_def act_read_def act_update_def)

lemma act_try_lift [simp]:
  "act_try (act_lift (Inl e)) h g = h e"
  "act_try (act_lift (Inr x)) h g = g x"
  by (simp_all add: act_try_def act_lift_def)

lemma act_bind_pure:
  "act_bind (\<lambda>s. (g s, s)) f s = (case g s of Inl e \<Rightarrow> (Inl e, s) | Inr x \<Rightarrow> f x s)"
  by (simp add: act_bind_def)

text \<open>
  Frame rule for actions: what every part of an action keeps, the action keeps. The frame
  relation \<open>R\<close> must be reflexive and transitive; each instance is a short case split.
\<close>

definition act_keeps :: "('s \<Rightarrow> 's \<Rightarrow> bool) \<Rightarrow> ('s, 'a) act \<Rightarrow> bool" where
  "act_keeps R m \<longleftrightarrow> (\<forall>s. R s (snd (m s)))"

lemma act_keepsD: "act_keeps R m \<Longrightarrow> m s = (r, t) \<Longrightarrow> R s t"
  by (metis act_keeps_def snd_conv)

lemma act_keeps_basic [intro]:
  assumes "reflp R"
  shows "act_keeps R (act_return x)" and "act_keeps R (act_raise e)"
    and "act_keeps R (act_lift r)" and "act_keeps R (act_read f)"
  using assms by (simp_all add: act_keeps_def act_simps reflpD)

lemma act_keeps_bind [intro]:
  assumes "transp R" and "act_keeps R m" and "\<And>x. act_keeps R (f x)"
  shows "act_keeps R (act_bind m f)"
  unfolding act_keeps_def
proof
  fix s
  obtain r t where m: "m s = (r, t)" by (cases "m s")
  then have 1: "R s t" using assms(2) by (rule act_keepsD [rotated])
  show "R s (snd (act_bind m f s))"
  proof (cases r)
    case (Inl e)
    with m 1 show ?thesis by (simp add: act_bind_def)
  next
    case (Inr x)
    have "R t (snd (f x t))" using assms(3) by (simp add: act_keeps_def)
    with m Inr 1 assms(1) show ?thesis by (auto simp: act_bind_def elim: transpE)
  qed
qed

lemma act_keeps_try [intro]:
  assumes "transp R" and "act_keeps R m" and "\<And>e. act_keeps R (h e)" and "\<And>x. act_keeps R (g x)"
  shows "act_keeps R (act_try m h g)"
  unfolding act_keeps_def
proof
  fix s
  obtain r t where m: "m s = (r, t)" by (cases "m s")
  then have 1: "R s t" using assms(2) by (rule act_keepsD [rotated])
  have "R t (snd (h e t))" and "R t (snd (g x t))" for e x
    using assms(3,4) by (simp_all add: act_keeps_def)
  with m 1 assms(1) show "R s (snd (act_try m h g s))"
    by (cases r) (auto simp: act_try_def elim: transpE)
qed

lemma act_keeps_if:
  "(b \<Longrightarrow> act_keeps R m) \<Longrightarrow> (\<not> b \<Longrightarrow> act_keeps R n) \<Longrightarrow> act_keeps R (if b then m else n)"
  by simp

lemma act_keeps_option:
  "act_keeps R m \<Longrightarrow> (\<And>p. act_keeps R (f p)) \<Longrightarrow>
     act_keeps R (case h of None \<Rightarrow> m | Some p \<Rightarrow> f p)"
  by (cases h) auto

lemma act_keeps_prod: "(\<And>x y. act_keeps R (f x y)) \<Longrightarrow> act_keeps R (case p of (x, y) \<Rightarrow> f x y)"
  by (cases p) auto

lemma act_keeps_pure: "reflp R \<Longrightarrow> act_keeps R (\<lambda>st. (f st, st))"
  by (simp add: act_keeps_def reflpD)

lemma act_keeps_bind_lift:
  "reflp R \<Longrightarrow> (\<And>x. r = Inr x \<Longrightarrow> act_keeps R (f x)) \<Longrightarrow> act_keeps R (act_bind (act_lift r) f)"
  by (cases r) (simp_all add: act_keeps_basic)

lemma act_keeps_bind_read: "(\<And>s. act_keeps R (f (g s))) \<Longrightarrow> act_keeps R (act_bind (act_read g) f)"
  by (simp add: act_keeps_def)

text \<open>\<open>for x in xs: f(x)\<close>\<close>

fun act_each :: "('x \<Rightarrow> ('s, unit) act) \<Rightarrow> 'x list \<Rightarrow> ('s, unit) act" where
  "act_each f [] = act_return ()"
| "act_each f (x # xs) = act_bind (f x) (\<lambda>_. act_each f xs)"

lemma act_keeps_each:
  "reflp R \<Longrightarrow> transp R \<Longrightarrow> (\<And>x. x \<in> set xs \<Longrightarrow> act_keeps R (f x)) \<Longrightarrow> act_keeps R (act_each f xs)"
  by (induction xs) (auto intro: act_keeps_basic act_keeps_bind)

lemma act_bind_InrD:
  assumes "act_bind m f s = (Inr y, t)"
  obtains x u where "m s = (Inr x, u)" and "f x u = (Inr y, t)"
  using assms by (auto simp: act_bind_def split: prod.splits sum.splits)

lemma pure_InrE:
  assumes "act_bind (\<lambda>s. (g s, s)) f s = (Inr y, t)"
  obtains x where "g s = Inr x" and "f x s = (Inr y, t)"
  using assms by (auto simp: act_bind_pure split: sum.splits)

lemma lift_InrE:
  assumes "act_bind (act_lift r) f s = (Inr y, t)"
  obtains x where "r = Inr x" and "f x s = (Inr y, t)"
  using assms by (cases r) (auto simp: act_raise_def)

text \<open>When the whole loop succeeds, so did the turn of each element, between two kept states.\<close>

lemma act_each_InrD:
  assumes "act_each f xs s = (Inr (), t)" and "x \<in> set xs"
    and "reflp R" and "transp R" and "\<And>x. x \<in> set xs \<Longrightarrow> act_keeps R (f x)"
  obtains u v where "R s u" and "f x u = (Inr (), v)" and "R v t"
  using assms
proof (induction xs arbitrary: s thesis)
  case (Cons y ys)
  from Cons.prems(2) obtain w where y: "f y s = (Inr (), w)" and ys: "act_each f ys w = (Inr (), t)"
    by (auto elim: act_bind_InrD)
  have sw: "R s w" using Cons.prems(6) [of y] act_keepsD [of R "f y" s "Inr ()" w] y by simp
  have "act_keeps R (act_each f ys)" using Cons.prems by (intro act_keeps_each) auto
  from act_keepsD [OF this ys] have wt: "R w t" .
  show ?case
  proof (cases "x = y")
    case True
    with Cons.prems(1,4) y wt show ?thesis by (auto dest: reflpD)
  next
    case False
    with Cons.prems(3) have "x \<in> set ys" by simp
    from Cons.IH [OF _ ys this Cons.prems(4,5)] Cons.prems(6) obtain u v where
      "R w u" "f x u = (Inr (), v)" "R v t" by auto
    with sw Cons.prems(1,5) show ?thesis by (meson transpE)
  qed
qed simp

text \<open>A loop whose body also rebinds a local variable, which outlives the turn.\<close>

fun act_carry :: "('x \<Rightarrow> 'b \<Rightarrow> ('s, 'b) act) \<Rightarrow> 'x list \<Rightarrow> 'b \<Rightarrow> ('s, 'b) act" where
  "act_carry f [] b = act_return b"
| "act_carry f (x # xs) b = act_bind (f x b) (act_carry f xs)"

text \<open>\<open>try: m except Exception as exc: log\<close>\<close>

definition act_logged :: "('s, unit) act \<Rightarrow> ('s, unit) act" where
  "act_logged m = act_try m (\<lambda>e. if is_Exception e then act_return () else act_raise e) act_return"

section \<open>Dictionaries\<close>

text \<open>
  A Python \<open>dict\<close> keeps insertion order, and assigning to a present key keeps its place:
  an association list with \<open>AList.update\<close>. The interface and its laws are a locale, so that
  the facts about loops that fill a dictionary are proved once from the laws.
\<close>

type_synonym ('k, 'v) dict = "('k \<times> 'v) list"

definition dict_index :: "('k, 'v) dict \<Rightarrow> 'k \<Rightarrow> 'v res" where
  "dict_index d k = (case map_of d k of None \<Rightarrow> Inl KeyError | Some v \<Rightarrow> Inr v)"

lemma dict_index_Inr_iff [simp]: "dict_index d k = Inr v \<longleftrightarrow> map_of d k = Some v"
  by (simp add: dict_index_def split: option.split)

lemma dict_index_Inl_iff [simp]: "dict_index d k = Inl e \<longleftrightarrow> map_of d k = None \<and> e = KeyError"
  by (auto simp: dict_index_def split: option.split)

text \<open>\<open>del d[k]\<close>\<close>

definition dict_del :: "'k \<Rightarrow> ('k, 'v) dict \<Rightarrow> ('k, 'v) dict res" where
  "dict_del k d = (case map_of d k of None \<Rightarrow> Inl KeyError | Some _ \<Rightarrow> Inr (AList.delete k d))"

text \<open>\<open>for x in xs: d[f(x)] = g(x)\<close>, also the order of a dict comprehension.\<close>

definition dict_fill :: "('a \<Rightarrow> 'k) \<Rightarrow> ('a \<Rightarrow> 'v) \<Rightarrow> 'a list \<Rightarrow> ('k, 'v) dict \<Rightarrow> ('k, 'v) dict" where
  "dict_fill f g xs d = fold (\<lambda>x. AList.update (f x) (g x)) xs d"

locale dict_ops =
  fixes empty :: "'d"
    and get :: "'d \<Rightarrow> 'k \<Rightarrow> 'v option"
    and put :: "'k \<Rightarrow> 'v \<Rightarrow> 'd \<Rightarrow> 'd"
    and keys :: "'d \<Rightarrow> 'k list"
  assumes get_empty: "get empty k = None"
    and get_put: "get (put k v d) = (get d)(k := Some v)"
    and keys_put: "keys (put k v d) = (if k \<in> set (keys d) then keys d else keys d @ [k])"
    and keys_get: "k \<in> set (keys d) \<longleftrightarrow> get d k \<noteq> None"
begin

lemma get_fill:
  "get (fold (\<lambda>x. put (f x) (g x)) xs d) k =
     (case find (\<lambda>x. f x = k) (rev xs) of None \<Rightarrow> get d k | Some x \<Rightarrow> Some (g x))"
proof (induction xs arbitrary: d)
  case Nil
  then show ?case by simp
next
  case (Cons x xs)
  show ?case
    by (simp only: fold_Cons o_apply Cons.IH, simp add: get_put find_append split: option.split)
qed

lemma get_fill_other: "k \<notin> f ` set xs \<Longrightarrow> get (fold (\<lambda>x. put (f x) (g x)) xs d) k = get d k"
  by (induction xs arbitrary: d) (auto simp: get_put)

lemma get_fill_ex:
  assumes "k \<in> f ` set xs"
  shows "\<exists>x\<in>set xs. f x = k \<and> get (fold (\<lambda>x. put (f x) (g x)) xs d) k = Some (g x)"
proof -
  have "find (\<lambda>x. f x = k) (rev xs) \<noteq> None"
    using assms by (auto simp: find_None_iff)
  then obtain x where x: "find (\<lambda>x. f x = k) (rev xs) = Some x" by auto
  then have "x \<in> set xs" and "f x = k" by (auto dest: find_SomeD)
  with x show ?thesis by (auto simp: get_fill)
qed

lemma keys_fill: "set (keys (fold (\<lambda>x. put (f x) (g x)) xs d)) = set (keys d) \<union> f ` set xs"
  by (induction xs arbitrary: d) (auto simp: keys_put)

lemma distinct_keys_fill:
  "distinct (keys d) \<Longrightarrow> distinct (keys (fold (\<lambda>x. put (f x) (g x)) xs d))"
  by (induction xs arbitrary: d) (auto simp: keys_put)

lemma get_fill_some:
  "get (fold (\<lambda>x. put (f x) (g x)) xs d) k = Some v \<Longrightarrow>
     get d k = Some v \<or> (\<exists>x\<in>set xs. f x = k \<and> v = g x)"
  using get_fill_ex [of k f xs g d] get_fill_other [of k f xs g d] by (cases "k \<in> f ` set xs") auto

end

interpretation pydict: dict_ops "[]" "map_of :: ('k, 'v) dict \<Rightarrow> 'k \<Rightarrow> 'v option" AList.update "map fst"
proof unfold_locales
  fix k :: 'k and d :: "('k, 'v) dict"
  show "k \<in> set (map fst d) \<longleftrightarrow> map_of d k \<noteq> None"
    by (simp add: map_of_eq_None_iff)
qed (auto simp: fun_eq_iff update_conv AList.update_keys)

lemma set_update_subset: "set (AList.update k v d) \<subseteq> insert (k, v) (set d)"
  by (induction d) auto

lemmas dict_fill_get = pydict.get_fill [folded dict_fill_def]
lemmas dict_fill_other = pydict.get_fill_other [folded dict_fill_def]
lemmas dict_fill_ex = pydict.get_fill_ex [folded dict_fill_def]
lemmas dict_fill_some = pydict.get_fill_some [folded dict_fill_def]
lemmas dict_fill_keys = pydict.keys_fill [folded dict_fill_def]
lemmas dict_fill_distinct = pydict.distinct_keys_fill [folded dict_fill_def]

lemma dict_fill_simps [simp]:
  "dict_fill f g [] d = d"
  "dict_fill f g (x # xs) d = dict_fill f g xs (AList.update (f x) (g x) d)"
  by (simp_all add: dict_fill_def)

lemma dict_fill_append: "dict_fill f g (xs @ ys) d = dict_fill f g ys (dict_fill f g xs d)"
  by (simp add: dict_fill_def)

text \<open>When different elements have different keys, nothing is overwritten.\<close>

lemma dict_fill_inj:
  assumes "inj_on f A" and "set xs \<subseteq> A"
  shows "map_of (dict_fill f g xs []) k = Some v \<longleftrightarrow> (\<exists>x\<in>set xs. f x = k \<and> v = g x)"
proof
  assume "map_of (dict_fill f g xs []) k = Some v"
  from dict_fill_some [OF this] show "\<exists>x\<in>set xs. f x = k \<and> v = g x" by auto
next
  assume "\<exists>x\<in>set xs. f x = k \<and> v = g x"
  then obtain x where x: "x \<in> set xs" "f x = k" "v = g x" by blast
  then have "k \<in> f ` set xs" by blast
  from dict_fill_ex [OF this, of g "[]"] obtain y where
    y: "y \<in> set xs" "f y = k" "map_of (dict_fill f g xs []) k = Some (g y)" by blast
  with assms x have "x = y" by (auto dest: inj_onD)
  with x y show "map_of (dict_fill f g xs []) k = Some v" by simp
qed

section \<open>JSON values\<close>

text \<open>
  What \<open>ujson.loads\<close> returns and what \<open>chain_data\<close> holds. A float is a mantissa and a
  decimal exponent; no modelled computation looks into it. An object is a dictionary: its keys
  are distinct.
\<close>

datatype json =
    JNull | JBool bool | JInt int | JFloat int int | JStr string
  | JList "json list" | JObj "(string \<times> json) list"

text \<open>Python's truth value of the object.\<close>

fun truthy :: "json \<Rightarrow> bool" where
  "truthy JNull = False"
| "truthy (JBool b) = b"
| "truthy (JInt n) = (n \<noteq> 0)"
| "truthy (JFloat m e) = (m \<noteq> 0)"
| "truthy (JStr s) = (s \<noteq> [])"
| "truthy (JList xs) = (xs \<noteq> [])"
| "truthy (JObj kvs) = (kvs \<noteq> [])"

text \<open>\<open>v[k]\<close> with a string key, \<open>v[i]\<close> with a non-negative number, \<open>v.get(k)\<close>.\<close>

fun json_key :: "json \<Rightarrow> string \<Rightarrow> json res" where
  "json_key (JObj kvs) k = dict_index kvs k"
| "json_key _ k = Inl TypeError"

fun json_nth :: "json \<Rightarrow> nat \<Rightarrow> json res" where
  "json_nth (JList xs) i = (if i < length xs then Inr (xs ! i) else Inl IndexError)"
| "json_nth (JStr s) i = (if i < length s then Inr (JStr [s ! i]) else Inl IndexError)"
| "json_nth (JObj kvs) i = Inl KeyError"
| "json_nth _ i = Inl TypeError"

fun json_get :: "json \<Rightarrow> string \<Rightarrow> json res" where
  "json_get (JObj kvs) k = Inr (case map_of kvs k of None \<Rightarrow> JNull | Some v \<Rightarrow> v)"
| "json_get _ k = Inl AttributeError"

text \<open>\<open>for k, v in x.items()\<close>\<close>

fun json_items :: "json \<Rightarrow> (string \<times> json) list res" where
  "json_items (JObj kvs) = Inr kvs"
| "json_items _ = Inl AttributeError"

text \<open>\<open>for x in v\<close>: a dictionary iterates over its keys, a string over its characters.\<close>

fun json_iter :: "json \<Rightarrow> json list res" where
  "json_iter (JList xs) = Inr xs"
| "json_iter (JStr s) = Inr (map (\<lambda>c. JStr [c]) s)"
| "json_iter (JObj kvs) = Inr (map (\<lambda>kv. JStr (fst kv)) kvs)"
| "json_iter _ = Inl TypeError"

text \<open>\<open>k in v\<close> for a string \<open>k\<close>, and for any value \<open>x\<close>; a set or a dictionary needs a hashable one.\<close>

fun json_contains :: "json \<Rightarrow> string \<Rightarrow> bool res" where
  "json_contains (JObj kvs) k = Inr (map_of kvs k \<noteq> None)"
| "json_contains (JList vs) k = Inr (JStr k \<in> set vs)"
| "json_contains (JStr s) k = Inr (sublist k s)"
| "json_contains _ k = Inl TypeError"

fun hashable :: "json \<Rightarrow> bool" where
  "hashable (JList _) = False"
| "hashable (JObj _) = False"
| "hashable _ = True"

fun json_in :: "json \<Rightarrow> json \<Rightarrow> bool res" where
  "json_in (JStr k) v = json_contains v k"
| "json_in x (JList vs) = Inr (x \<in> set vs)"
| "json_in x (JObj kvs) = (if hashable x then Inr False else Inl TypeError)"
| "json_in x _ = Inl TypeError"

definition in_set :: "json \<Rightarrow> json set \<Rightarrow> bool res" where
  "in_set x s = (if hashable x then Inr (x \<in> s) else Inl TypeError)"

text \<open>\<open>d.get(k)\<close> on a dictionary with JSON keys.\<close>

definition dict_get :: "(json, 'v) dict \<Rightarrow> json \<Rightarrow> 'v option res" where
  "dict_get d k = (if hashable k then Inr (map_of d k) else Inl TypeError)"

text \<open>The path \<open>v[k1][k2]...\<close>\<close>

fun json_path :: "json \<Rightarrow> string list \<Rightarrow> json res" where
  "json_path v [] = Inr v"
| "json_path v (k # ks) = res_bind (json_key v k) (\<lambda>w. json_path w ks)"

end
