(* ===== verification/PyText.thy ===== *)
theory PyText
  imports CB_Prelude
begin

text \<open>
  The standard-library parsers the sources apply to text: \<open>int(s, 16)\<close> (block numbers,
  transaction fields), \<open>bytes.fromhex(s)\<close> (event data and topics) and \<open>int(s)\<close> (keys of the liquidity
  snapshot), the last with the printer \<open>str\<close> it inverts.
  Strings are lists of characters with code points below 256; the texts read here are ASCII.
\<close>

fun hexval :: "char \<Rightarrow> int option" where
  "hexval c = (let n = (of_char c :: int) in
     if 48 \<le> n \<and> n \<le> 57 then Some (n - 48)
     else if 97 \<le> n \<and> n \<le> 102 then Some (n - 87)
     else if 65 \<le> n \<and> n \<le> 70 then Some (n - 55)
     else None)"

text \<open>Characters \<open>str\<close> counts as white space, and those \<open>bytes.fromhex\<close> skips.\<close>

definition str_space :: "char \<Rightarrow> bool" where
  "str_space c = (let n = (of_char c :: int) in
     (9 \<le> n \<and> n \<le> 13) \<or> (28 \<le> n \<and> n \<le> 32) \<or> n = 133 \<or> n = 160)"

definition ascii_space :: "char \<Rightarrow> bool" where
  "ascii_space c = (let n = (of_char c :: int) in (9 \<le> n \<and> n \<le> 13) \<or> n = 32)"

text \<open>
  Digits with single underscores between them. The flag says whether the last character was
  a digit: an underscore needs one before it, and the text may not end without one.
\<close>

fun hex_run :: "int \<Rightarrow> bool \<Rightarrow> string \<Rightarrow> int option" where
  "hex_run acc d [] = (if d then Some acc else None)"
| "hex_run acc d (c # cs) =
     (if c = CHR ''_'' then (if d then hex_run acc False cs else None)
      else case hexval c of None \<Rightarrow> None | Some v \<Rightarrow> hex_run (16 * acc + v) True cs)"

definition strip_prefix16 :: "string \<Rightarrow> string" where
  "strip_prefix16 s =
     (if take 2 s = ''0x'' \<or> take 2 s = ''0X''
      then (case drop 2 s of c # cs \<Rightarrow> if c = CHR ''_'' then cs else c # cs | [] \<Rightarrow> []) else s)"

definition py_int16 :: "string \<Rightarrow> int res" where
  "py_int16 s =
     (let t = rev (dropWhile str_space (rev (dropWhile str_space s)));
          (neg, u) = (case t of
             c # cs \<Rightarrow> if c = CHR ''-'' then (True, cs) else if c = CHR ''+'' then (False, cs) else (False, t)
           | [] \<Rightarrow> (False, t))
      in case hex_run 0 False (strip_prefix16 u) of
           None \<Rightarrow> Inl ValueError
         | Some n \<Rightarrow> Inr (if neg then - n else n))"

text \<open>\<open>int(v, 16)\<close> on a JSON value: only a string converts with an explicit base.\<close>

fun json_int16 :: "json \<Rightarrow> int res" where
  "json_int16 (JStr s) = py_int16 s"
| "json_int16 _ = Inl TypeError"

fun fromhex :: "string \<Rightarrow> int list res" where
  "fromhex [] = Inr []"
| "fromhex [c] = (if ascii_space c then Inr [] else Inl ValueError)"
| "fromhex (c # d # cs) =
     (if ascii_space c then fromhex (d # cs)
      else case (hexval c, hexval d) of
        (Some u, Some v) \<Rightarrow> res_bind (fromhex cs) (\<lambda>bs. Inr ((16 * u + v) # bs))
      | _ \<Rightarrow> Inl ValueError)"

text \<open>\<open>bytes.fromhex(v[2:])\<close> on a JSON value.\<close>

fun json_fromhex :: "json \<Rightarrow> int list res" where
  "json_fromhex (JStr s) = fromhex (drop 2 s)"
| "json_fromhex _ = Inl TypeError"

text \<open>\<open>int(s)\<close> and \<open>str(n)\<close>, in decimal.\<close>

fun dec_run :: "int \<Rightarrow> bool \<Rightarrow> string \<Rightarrow> int option" where
  "dec_run acc d [] = (if d then Some acc else None)"
| "dec_run acc d (c # cs) =
     (if c = CHR ''_'' then (if d then dec_run acc False cs else None)
      else case hexval c of
        None \<Rightarrow> None
      | Some v \<Rightarrow> if v < 10 then dec_run (10 * acc + v) True cs else None)"

definition py_int10 :: "string \<Rightarrow> int res" where
  "py_int10 s =
     (let t = rev (dropWhile str_space (rev (dropWhile str_space s)));
          (neg, u) = (case t of
             c # cs \<Rightarrow> if c = CHR ''-'' then (True, cs) else if c = CHR ''+'' then (False, cs) else (False, t)
           | [] \<Rightarrow> (False, t))
      in case dec_run 0 False u of
           None \<Rightarrow> Inl ValueError
         | Some n \<Rightarrow> Inr (if neg then - n else n))"

definition dec_digit :: "nat \<Rightarrow> char" where
  "dec_digit k = ''0123456789'' ! k"

fun dec_digits :: "nat \<Rightarrow> string" where
  "dec_digits n = (if n < 10 then [dec_digit n] else dec_digits (n div 10) @ [dec_digit (n mod 10)])"

declare dec_digits.simps [simp del]

definition py_str :: "int \<Rightarrow> string" where
  "py_str n = (if n < 0 then CHR ''-'' # dec_digits (nat (- n)) else dec_digits (nat n))"

lemma hexval_range: "hexval c = Some v \<Longrightarrow> 0 \<le> v \<and> v < 16"
  by (auto simp: Let_def split: if_splits)

lemma fromhex_bytes: "fromhex s = Inr bs \<Longrightarrow> b \<in> set bs \<Longrightarrow> 0 \<le> b \<and> b < 256"
proof (induction s arbitrary: bs rule: fromhex.induct)
  case (3 c d cs)
  show ?case
  proof (cases "ascii_space c")
    case True
    with 3 show ?thesis by simp
  next
    case False
    with "3.prems"(1) obtain u v bs' where uv: "hexval c = Some u" "hexval d = Some v"
      and bs': "fromhex cs = Inr bs'" "bs = (16 * u + v) # bs'"
      by (auto simp: res_bind_Inr_iff simp del: hexval.simps split: option.splits)
    have "0 \<le> 16 * u + v \<and> 16 * u + v < 256"
      using hexval_range [OF uv(1)] hexval_range [OF uv(2)] by linarith
    with "3.IH"(2) [OF False refl uv bs'(1)] "3.prems"(2) bs'(2) show ?thesis by auto
  qed
qed (auto split: if_splits)

lemma hex_run_nonneg: "hex_run acc d s = Some n \<Longrightarrow> 0 \<le> acc \<Longrightarrow> 0 \<le> n"
proof (induction acc d s rule: hex_run.induct)
  case (2 acc d c cs)
  then show ?case
    using hexval_range [of c] by (auto simp del: hexval.simps split: if_splits option.splits)
qed (auto split: if_splits)

section \<open>Decimal text\<close>

definition dec_char :: "char \<Rightarrow> bool" where
  "dec_char c \<longleftrightarrow> c \<in> set ''0123456789''"

lemma hexval_digit: "k < 10 \<Longrightarrow> hexval (dec_digit k) = Some (int k)"
proof -
  have "list_all (\<lambda>k. hexval (dec_digit k) = Some (int k)) [0..<10]" by code_simp
  then show "k < 10 \<Longrightarrow> ?thesis" unfolding list_all_iff by auto
qed

lemma digit_char: "k < 10 \<Longrightarrow> dec_char (dec_digit k)"
  unfolding dec_char_def dec_digit_def by (rule nth_mem) simp

lemma dec_charE:
  assumes "dec_char c"
  obtains k where "k < 10" and "c = dec_digit k"
proof -
  have "list_all (\<lambda>c. \<exists>k\<in>set [0..<10]. c = dec_digit k) ''0123456789''" by code_simp
  with assms that show ?thesis unfolding list_all_iff dec_char_def by (metis atLeastLessThan_iff atLeastLessThan_upt)
qed

lemma dec_charD:
  assumes "dec_char c"
  shows "\<not> str_space c" and "c \<noteq> CHR ''_''" and "c \<noteq> CHR ''-''" and "c \<noteq> CHR ''+''"
  using assms by (auto simp: dec_char_def str_space_def Let_def)

lemma dec_digits_chars: "c \<in> set (dec_digits n) \<Longrightarrow> dec_char c"
proof (induction n rule: dec_digits.induct)
  case (1 n)
  then show ?case
    by (subst (asm) (2) dec_digits.simps) (auto simp: digit_char split: if_splits)
qed

lemma dec_digits_nonempty: "dec_digits n \<noteq> []"
  by (subst dec_digits.simps) simp

lemma dec_run_digits:
  "(\<forall>c\<in>set s. dec_char c) \<Longrightarrow> dec_run acc d s =
     (if s = [] then (if d then Some acc else None) else Some (foldl (\<lambda>a c. 10 * a + the (hexval c)) acc s))"
proof (induction s arbitrary: acc d)
  case (Cons c cs)
  then obtain k where k: "k < 10" "c = dec_digit k" by (auto elim: dec_charE)
  from Cons.prems have "c \<noteq> CHR ''_''" using dec_charD(2) by simp
  moreover have "hexval c = Some (int k)" unfolding k(2) by (rule hexval_digit [OF k(1)])
  ultimately show ?case using Cons k(1) by (simp del: hexval.simps)
qed simp

lemma dec_digits_value: "foldl (\<lambda>a c. 10 * a + the (hexval c)) 0 (dec_digits n) = int n"
proof (induction n rule: dec_digits.induct)
  case (1 n)
  show ?case
  proof (cases "n < 10")
    case True
    then have "dec_digits n = [dec_digit n]" by (subst dec_digits.simps) simp
    with hexval_digit [OF True] show ?thesis by (simp del: hexval.simps)
  next
    case False
    then have d: "dec_digits n = dec_digits (n div 10) @ [dec_digit (n mod 10)]" by (subst dec_digits.simps) simp
    have "hexval (dec_digit (n mod 10)) = Some (int (n mod 10))" by (rule hexval_digit) simp
    moreover have "10 * int (n div 10) + int (n mod 10) = int n" by (simp flip: of_nat_mult of_nat_add add: of_nat_div of_nat_mod)
    ultimately show ?thesis using 1 [OF False] d by (simp del: hexval.simps)
  qed
qed

lemma strip_id: "(\<forall>c\<in>set s. \<not> str_space c) \<Longrightarrow> rev (dropWhile str_space (rev (dropWhile str_space s))) = s"
proof -
  assume "\<forall>c\<in>set s. \<not> str_space c"
  then have "dropWhile str_space t = t" if "set t = set s" for t using that by (cases t) auto
  from this [of s] this [of "rev s"] show ?thesis by simp
qed

lemma py_int10_str: "py_int10 (py_str n) = Inr n"
proof -
  have chars: "\<forall>c\<in>set (dec_digits m). dec_char c" for m using dec_digits_chars by blast
  have run: "dec_run 0 False (dec_digits m) = Some (int m)" for m
    using dec_run_digits [OF chars] by (simp add: dec_digits_nonempty dec_digits_value del: hexval.simps)
  have strip: "rev (dropWhile str_space (rev (dropWhile str_space (py_str n)))) = py_str n"
  proof (rule strip_id, rule ballI)
    fix c assume "c \<in> set (py_str n)"
    then have "c = CHR ''-'' \<or> dec_char c" using chars by (auto simp: py_str_def split: if_splits)
    then show "\<not> str_space c" using dec_charD(1) by (auto simp: str_space_def)
  qed
  show ?thesis
  proof (cases "n < 0")
    case True
    then have "py_str n = CHR ''-'' # dec_digits (nat (- n))" by (simp add: py_str_def)
    with True run [of "nat (- n)"] strip show ?thesis by (simp add: py_int10_def)
  next
    case False
    obtain c cs where c: "dec_digits (nat n) = c # cs" using dec_digits_nonempty by (cases "dec_digits (nat n)") auto
    have "dec_char c" using chars [of "nat n"] c by simp
    then have "c \<noteq> CHR ''-''" "c \<noteq> CHR ''+''" by (rule dec_charD)+
    moreover from False c have "py_str n = c # cs" by (simp add: py_str_def)
    ultimately show ?thesis using False run [of "nat n"] c strip by (simp add: py_int10_def)
  qed
qed

end
