(* ===== verification/Task_Queue.thy ===== *)
theory Task_Queue
  imports CB_Prelude
begin

text \<open>
  The unbounded \<open>asyncio.Queue\<close> through which the event service hands pool addresses to
  the arbitrage service, with the counter behind \<open>task_done\<close>. The contract of a FIFO queue
  is a locale; the queue of the model interprets it.
\<close>

record 'a pqueue =
  items :: "'a list"
  unfinished :: nat

definition q_empty :: "'a pqueue" where
  "q_empty = \<lparr>items = [], unfinished = 0\<rparr>"

definition q_put :: "'a \<Rightarrow> 'a pqueue \<Rightarrow> 'a pqueue" where
  "q_put x q = q\<lparr>items := items q @ [x], unfinished := Suc (unfinished q)\<rparr>"

text \<open>\<open>await get()\<close>: \<open>None\<close> while the queue is empty and the caller waits.\<close>

definition q_get :: "'a pqueue \<Rightarrow> ('a \<times> 'a pqueue) option" where
  "q_get q = (case items q of [] \<Rightarrow> None | x # xs \<Rightarrow> Some (x, q\<lparr>items := xs\<rparr>))"

definition q_task_done :: "'a pqueue \<Rightarrow> 'a pqueue res" where
  "q_task_done q =
     (if unfinished q = 0 then Inl ValueError else Inr (q\<lparr>unfinished := unfinished q - 1\<rparr>))"

definition qsize :: "'a pqueue \<Rightarrow> nat" where
  "qsize q = length (items q)"

locale fifo_queue =
  fixes put :: "'a \<Rightarrow> 'q \<Rightarrow> 'q"
    and get :: "'q \<Rightarrow> ('a \<times> 'q) option"
    and finish :: "'q \<Rightarrow> 'q res"
    and contents :: "'q \<Rightarrow> 'a list"
    and pending :: "'q \<Rightarrow> nat"
  assumes contents_put: "contents (put x q) = contents q @ [x]"
    and pending_put: "pending (put x q) = Suc (pending q)"
    and get_None: "get q = None \<longleftrightarrow> contents q = []"
    and get_Some: "get q = Some (x, r) \<Longrightarrow> contents q = x # contents r \<and> pending r = pending q"
    and finish_Inr: "finish q = Inr r \<Longrightarrow> contents r = contents q \<and> pending q = Suc (pending r)"
    and finish_Inl: "(\<exists>e. finish q = Inl e) \<longleftrightarrow> pending q = 0"
begin

lemma contents_puts: "contents (fold put xs q) = contents q @ xs"
  by (induction xs arbitrary: q) (auto simp: contents_put)

lemma pending_puts: "pending (fold put xs q) = pending q + length xs"
  by (induction xs arbitrary: q) (auto simp: pending_put)

text \<open>
  A consumer that takes one item and finishes it never sees \<open>finish\<close> fail, as long as
  nobody finishes an item twice: the counter covers the contents.
\<close>

lemma get_then_finish:
  assumes "length (contents q) \<le> pending q" and "get q = Some (x, r)"
  obtains r' where "finish r = Inr r'" and "contents q = x # contents r'"
    and "length (contents r') \<le> pending r'" and "pending q = Suc (pending r')"
proof -
  from get_Some [OF assms(2)] assms(1) have c: "contents q = x # contents r"
    and p: "pending r = pending q" and "pending r \<noteq> 0" by auto
  then obtain r' where r': "finish r = Inr r'"
    using finish_Inl [of r] by (cases "finish r") auto
  with finish_Inr [OF r'] c p assms(1) show thesis by (intro that [OF r']) auto
qed

end

interpretation pq: fifo_queue q_put q_get q_task_done items unfinished
  by unfold_locales
    (auto simp: q_put_def q_get_def q_task_done_def split: list.splits if_splits)

lemma q_task_done_simps [simp]:
  "unfinished q = 0 \<Longrightarrow> q_task_done q = Inl ValueError"
  "0 < unfinished q \<Longrightarrow> q_task_done q = Inr (q\<lparr>unfinished := unfinished q - 1\<rparr>)"
  by (simp_all add: q_task_done_def)

end
