(* ===== verification/Bot_State.thy ===== *)
theory Bot_State
  imports PyText Task_Queue
begin

text \<open>
  The state object every service of a bot shares (\<open>ArbBotState\<close>, \<open>SniperBotState\<close>,
  \<open>CallbackBotState\<close>). Type variables stand for the objects of the degenbot package:
  \<open>'p\<close> liquidity pool helpers, \<open>'m\<close> pool managers, \<open>'w\<close> everything those objects
  hold (pool states, snapshots, the registry of all pools). The scalar attributes that the
  bootstrap service writes by name live in the dictionary \<open>attrs\<close>, so that reading an
  attribute that was never set raises.
\<close>

record 'p lp_cycle =
  arb_id :: json
  input_token :: string
  swap_pools :: "'p list"
  max_input :: int

record 'p arb_details =
  lp_cycle :: "'p lp_cycle"
  status :: string

record ('p, 'm, 'w) bot_state =
  attrs :: "(string, json) dict"
  aggregators :: json
  all_arbs :: "(json, 'p arb_details) dict"
  blacklists :: "(string, json set) dict option"
  chain_data :: json
  factories :: json
  failed_transactions :: "json set"
  pool_managers :: "(json, 'm) dict"
  pools_to_process :: "string pqueue"
  routers :: json
  spawned :: "string list"
  world :: 'w

text \<open>
  \<open>spawned\<close> holds the arguments of the \<open>pools_to_process.put\<close> tasks that were created and
  have not run yet, oldest first. \<open>blacklists\<close> is \<open>None\<close> while the attribute still holds
  the placeholder \<open>set()\<close> of the constructor.
\<close>

definition get_attr :: "string \<Rightarrow> ('p, 'm, 'w) bot_state \<Rightarrow> json res" where
  "get_attr name st =
     (case map_of (attrs st) name of None \<Rightarrow> Inl AttributeError | Some v \<Rightarrow> Inr v)"

definition set_attr :: "string \<Rightarrow> json \<Rightarrow> ('p, 'm, 'w) bot_state \<Rightarrow> ('p, 'm, 'w) bot_state" where
  "set_attr name v st = st\<lparr>attrs := AList.update name v (attrs st)\<rparr>"

lemma get_set_attr [simp]:
  "get_attr k (set_attr k' v st) = (if k = k' then Inr v else get_attr k st)"
  by (simp add: get_attr_def set_attr_def update_conv)

text \<open>\<open>self.bot_state.blacklists[name]\<close>: the placeholder cannot be subscripted.\<close>

definition blacklist :: "string \<Rightarrow> ('p, 'm, 'w) bot_state \<Rightarrow> json set res" where
  "blacklist name st = (case blacklists st of None \<Rightarrow> Inl TypeError | Some d \<Rightarrow> dict_index d name)"

text \<open>
  Every arb is stored under its own id. Loading establishes this, and the reports of the
  arbitrage service rely on it.
\<close>

definition arbs_keyed :: "(json, 'p arb_details) dict \<Rightarrow> bool" where
  "arbs_keyed arbs \<longleftrightarrow> (\<forall>(k, d) \<in> set arbs. arb_id (lp_cycle d) = k)"

lemma arbs_keyedD: "arbs_keyed arbs \<Longrightarrow> map_of arbs k = Some d \<Longrightarrow> arb_id (lp_cycle d) = k"
  by (auto simp: arbs_keyed_def dest: map_of_SomeD)

lemma arbs_keyed_update:
  "arbs_keyed arbs \<Longrightarrow> arb_id (lp_cycle d) = k \<Longrightarrow> arbs_keyed (AList.update k d arbs)"
  using set_update_subset [of k d arbs] by (fastforce simp: arbs_keyed_def)

end
