(* ===== verification/Arbitrage.thy ===== *)
theory Arbitrage
  imports Bot_State
begin

text \<open>
  \<open>ArbitrageService\<close> (app/core/arbitrage_service.py): which arbs a pool update affects, and
  the evaluation of those arbs: profit calculation, ranking, and the greedy choice of arbs
  that share no pool. The profit calculation is degenbot's and enters as the operations of
  \<open>calc_ops\<close>.
\<close>

section \<open>Arbs affected by a pool\<close>

text \<open>\<open>addr\<close> reads the \<open>address\<close> attribute of a pool helper.\<close>

fun affected :: "('p \<Rightarrow> string) \<Rightarrow> string \<Rightarrow> 'p list \<Rightarrow> bool" where
  "affected addr a [p, q] = (addr p = a \<or> addr q = a)"
| "affected addr a [p, q, r] = (addr q = a)"
| "affected addr a _ = False"

definition find_affected_arbs ::
  "('p \<Rightarrow> string) \<Rightarrow> (json, 'p arb_details) dict \<Rightarrow> string \<Rightarrow> 'p lp_cycle list" where
  "find_affected_arbs addr arbs a =
     filter (\<lambda>c. affected addr a (swap_pools c)) (map (\<lambda>(_, d). lp_cycle d) arbs)"

section \<open>Calculation\<close>

record calc_result =
  result_id :: json
  profit_amount :: int

text \<open>
  \<open>calculate\<close> is \<open>await arb_helper.calculate_with_pool(...)\<close>, which returns a future or
  raises; \<open>await_result\<close> is \<open>await task\<close>; \<open>as_completed\<close> is the order in which the
  futures finish and \<open>set_iter\<close> the order in which Python iterates over a set.
\<close>

record ('p, 'f) calc_ops =
  calculate :: "'p lp_cycle \<Rightarrow> 'f res"
  await_result :: "'f \<Rightarrow> calc_result res"
  as_completed :: "'f list \<Rightarrow> 'f list"
  set_iter :: "'p lp_cycle list \<Rightarrow> 'p lp_cycle list"

text \<open>
  Both loops catch \<open>ArbitrageError\<close> and every other \<open>Exception\<close>, skip the item and go on.
\<close>

fun start_calculations :: "('p lp_cycle \<Rightarrow> 'f res) \<Rightarrow> 'p lp_cycle list \<Rightarrow> 'f list res" where
  "start_calculations calc [] = Inr []"
| "start_calculations calc (h # hs) =
     (case calc h of
        Inr future \<Rightarrow> res_bind (start_calculations calc hs) (\<lambda>fs. Inr (future # fs))
      | Inl e \<Rightarrow> if is_Exception e then start_calculations calc hs else Inl e)"

fun collect_results :: "('f \<Rightarrow> calc_result res) \<Rightarrow> 'f list \<Rightarrow> calc_result list res" where
  "collect_results await [] = Inr []"
| "collect_results await (t # ts) =
     (case await t of
        Inr result \<Rightarrow> res_bind (collect_results await ts) (\<lambda>rs. Inr (result # rs))
      | Inl e \<Rightarrow> if is_Exception e then collect_results await ts else Inl e)"

definition calculation_results :: "('p, 'f) calc_ops \<Rightarrow> 'p lp_cycle list \<Rightarrow> calc_result list res" where
  "calculation_results ops helpers =
     res_bind (start_calculations (calculate ops) helpers)
       (\<lambda>futures. collect_results (await_result ops) (as_completed ops futures))"

section \<open>Ranking\<close>

text \<open>
  \<open>sorted(..., key=profit, reverse=True)\<close> keeps equal elements in their order, as sorting by
  the negated profit does.
\<close>

definition profitable_results :: "calc_result list \<Rightarrow> calc_result list" where
  "profitable_results results =
     sort_key (\<lambda>r. - profit_amount r) (filter (\<lambda>r. 0 \<le> profit_amount r) results)"

definition profitable_arbs ::
  "(json, 'p arb_details) dict \<Rightarrow> calc_result list \<Rightarrow> 'p lp_cycle list" where
  "profitable_arbs arbs results =
     List.map_filter (\<lambda>r. map_option lp_cycle (map_of arbs (result_id r))) results"

definition zip_strict :: "'a list \<Rightarrow> 'b list \<Rightarrow> ('a \<times> 'b) list res" where
  "zip_strict xs ys = (if length xs = length ys then Inr (zip xs ys) else Inl ValueError)"

definition results_by_arb_id :: "(calc_result \<times> 'p lp_cycle) list \<Rightarrow> (json, calc_result) dict" where
  "results_by_arb_id pairs = dict_fill (\<lambda>(r, arb). arb_id arb) fst pairs []"

section \<open>The greedy choice\<close>

definition overlaps :: "'p lp_cycle \<Rightarrow> 'p lp_cycle \<Rightarrow> bool" where
  "overlaps a b \<longleftrightarrow> set (swap_pools a) \<inter> set (swap_pools b) \<noteq> {}"

definition conflicting_arbs :: "'p lp_cycle \<Rightarrow> 'p lp_cycle list \<Rightarrow> 'p lp_cycle list" where
  "conflicting_arbs most arbs = filter (\<lambda>h. overlaps most h) arbs"

text \<open>\<open>list.remove(x)\<close> drops the first occurrence and raises when there is none.\<close>

definition list_remove :: "'a \<Rightarrow> 'a list \<Rightarrow> 'a list res" where
  "list_remove x xs = (if x \<in> set xs then Inr (remove1 x xs) else Inl ValueError)"

fun drop_arbs :: "'p lp_cycle list \<Rightarrow> 'p lp_cycle list \<Rightarrow> 'p lp_cycle list res" where
  "drop_arbs [] arbs = Inr arbs"
| "drop_arbs (c # cs) arbs = res_bind (list_remove c arbs) (drop_arbs cs)"

lemma drop_arbs_length: "drop_arbs cs arbs = Inr rest \<Longrightarrow> length rest \<le> length arbs"
proof (induction cs arbitrary: arbs)
  case (Cons c cs)
  then have "c \<in> set arbs" and "drop_arbs cs (remove1 c arbs) = Inr rest"
    by (auto simp: list_remove_def split: if_splits)
  with Cons.IH show ?case using length_remove1_le [of c arbs] by (meson le_trans)
qed simp

text \<open>
  The loop \<open>while True: pop(0); add; drop the conflicting ones; break when none remain\<close>.
  The set is the list of its elements in the order they were added.
\<close>

function arbs_without_overlap ::
  "'p lp_cycle list \<Rightarrow> 'p lp_cycle list \<Rightarrow> 'p lp_cycle list res" where
  "arbs_without_overlap [] chosen = Inl IndexError"
| "arbs_without_overlap (most # rest) chosen =
     (let chosen' = set_add most chosen in
      case drop_arbs (conflicting_arbs most rest) rest of
        Inl e \<Rightarrow> Inl e
      | Inr rest' \<Rightarrow> if rest' = [] then Inr chosen' else arbs_without_overlap rest' chosen')"
  by pat_completeness auto
termination
  by (relation "measure (\<lambda>(arbs, chosen). length arbs)") (auto dest: drop_arbs_length)

section \<open>Evaluation and report\<close>

text \<open>Each report is what the loop prints: the details looked up by id, and the result.\<close>

type_synonym 'p report = "'p arb_details option \<times> calc_result"

definition report_arbs ::
  "(json, 'p arb_details) dict \<Rightarrow> (json, calc_result) dict \<Rightarrow> 'p lp_cycle list \<Rightarrow> 'p report list res" where
  "report_arbs arbs by_id chosen =
     res_map (\<lambda>h. res_bind (dict_index by_id (arb_id h)) (\<lambda>r. Inr (map_of arbs (result_id r), r))) chosen"

definition rank_and_report ::
  "('p lp_cycle list \<Rightarrow> 'p lp_cycle list) \<Rightarrow> (json, 'p arb_details) dict \<Rightarrow>
     calc_result list \<Rightarrow> 'p report list res" where
  "rank_and_report iter arbs results =
     (let ranked = profitable_results results; found = profitable_arbs arbs ranked in
      res_bind (zip_strict ranked found) (\<lambda>pairs.
        if found = [] then Inr []
        else res_bind (arbs_without_overlap found []) (\<lambda>chosen.
          report_arbs arbs (results_by_arb_id pairs) (iter chosen))))"

definition process_onchain_arbs ::
  "('p, 'f) calc_ops \<Rightarrow> (json, 'p arb_details) dict \<Rightarrow> 'p lp_cycle list \<Rightarrow> 'p report list res" where
  "process_onchain_arbs ops arbs helpers =
     (if length helpers = 0 then Inr []
      else res_bind (calculation_results ops helpers) (rank_and_report (set_iter ops) arbs))"

end
