(* ===== verification/Degenbot.thy ===== *)
theory Degenbot
  imports Bot_State
begin

text \<open>
  The operations of third-party packages that the services call, as the fields of one record:
  degenbot's pool managers and pool helpers, eth_abi's decoder, web3's keccak and checksum
  addresses, ujson's parser. Each operation takes the opaque \<open>world\<close> of those packages'
  objects and returns a result or an exception together with the world it leaves. Nothing is
  assumed of them here; a property that needs a law states it.
\<close>

datatype abi_type = ABI_address | ABI_int nat | ABI_uint nat

datatype abi_val = VAddr string | VInt int

text \<open>The arguments of the V3 \<open>external_update\<close> call that reports a swap.\<close>

record swap_args =
  sw_liquidity :: int
  sw_tick :: int
  sw_sqrt_price_x96 :: int

record ('p, 'm, 'w) degen =
  get_pool :: "'m \<Rightarrow> json \<Rightarrow> int option \<Rightarrow> 'w \<Rightarrow> 'p res \<times> 'w"
  new_v2_manager :: "json \<Rightarrow> 'w \<Rightarrow> 'm res \<times> 'w"
  new_v3_manager :: "json \<Rightarrow> 'w \<Rightarrow> 'm res \<times> 'w"
  del_pool :: "'m \<Rightarrow> 'p \<Rightarrow> 'w \<Rightarrow> unit res \<times> 'w"
  liquidity_update :: "'p \<Rightarrow> int \<Rightarrow> int \<times> int \<times> int \<Rightarrow> 'w \<Rightarrow> unit res \<times> 'w"
  swap_update :: "'p \<Rightarrow> int \<Rightarrow> swap_args \<Rightarrow> 'w \<Rightarrow> unit res \<times> 'w"
  update_reserves :: "'p \<Rightarrow> int \<Rightarrow> int \<Rightarrow> int \<Rightarrow> 'w \<Rightarrow> unit res \<times> 'w"
  update_snapshot :: "string \<Rightarrow> 'p \<Rightarrow> 'w \<Rightarrow> unit res \<times> 'w"
  to_checksum_address :: "json \<Rightarrow> string res"
  abi_decode :: "abi_type list \<Rightarrow> int list \<Rightarrow> abi_val list res"
  keccak_text :: "string \<Rightarrow> string"
  loads :: "json \<Rightarrow> json res"

text \<open>
  \<open>get_pool m a b\<close> is \<open>m.get_pool(pool_address=a, state_block=b)\<close>, \<open>None\<close> when the call
  passes no block. \<open>del_pool m p\<close> is \<open>m.__delitem__(p.address)\<close>. \<open>liquidity_update p n d\<close>
  and \<open>swap_update p n u\<close> are \<open>p.external_update\<close> with a liquidity change and with a swap.
  \<open>update_snapshot a p\<close> stores the tick data and bitmap of \<open>p\<close> for the address \<open>a\<close>.
  \<open>loads\<close> is \<open>ujson.loads(x.decode('utf-8'))\<close> on the data of a Redis message.
\<close>

definition with_world :: "('w \<Rightarrow> 'a res \<times> 'w) \<Rightarrow> (('p, 'm, 'w) bot_state, 'a) act" where
  "with_world f = (\<lambda>st. case f (world st) of (r, w) \<Rightarrow> (r, st\<lparr>world := w\<rparr>))"

text \<open>\<open>(x,) = decode(...)\<close> and friends: a decoded value used as a number or as an address.\<close>

definition abi_int :: "abi_val \<Rightarrow> int res" where
  "abi_int v = (case v of VInt n \<Rightarrow> Inr n | VAddr _ \<Rightarrow> Inl TypeError)"

definition abi_addr :: "abi_val \<Rightarrow> string res" where
  "abi_addr v = (case v of VAddr a \<Rightarrow> Inr a | VInt _ \<Rightarrow> Inl TypeError)"

text \<open>
  Every attribute a handler of chain events may leave changed is named here: the world, the
  created put tasks (only appended to) and the managers (only added to).
\<close>

definition event_frame :: "('p, 'm, 'w) bot_state \<Rightarrow> ('p, 'm, 'w) bot_state \<Rightarrow> bool" where
  "event_frame s t \<longleftrightarrow>
     attrs t = attrs s \<and> aggregators t = aggregators s \<and> all_arbs t = all_arbs s \<and>
     blacklists t = blacklists s \<and> chain_data t = chain_data s \<and> factories t = factories s \<and>
     failed_transactions t = failed_transactions s \<and> pools_to_process t = pools_to_process s \<and>
     routers t = routers s \<and> (\<exists>xs. spawned t = spawned s @ xs) \<and>
     map_of (pool_managers s) \<subseteq>\<^sub>m map_of (pool_managers t)"

lemma event_frame_refl: "reflp event_frame"
  by (auto simp: reflp_def event_frame_def)

lemma event_frame_trans: "transp event_frame"
  by (rule transpI) (auto simp: event_frame_def intro: map_le_trans)

lemma event_frame_world: "act_keeps event_frame (with_world f)"
  by (auto simp: act_keeps_def with_world_def event_frame_def split: prod.split)

lemmas event_frame_intros =
  act_keeps_basic [OF event_frame_refl] act_keeps_bind [OF event_frame_trans]
  act_keeps_try [OF event_frame_trans] event_frame_world

text \<open>What an action that only calls third-party objects keeps.\<close>

definition world_only :: "('p, 'm, 'w) bot_state \<Rightarrow> ('p, 'm, 'w) bot_state \<Rightarrow> bool" where
  "world_only s t \<longleftrightarrow> t = s\<lparr>world := world t\<rparr>"

lemma world_only_refl: "reflp world_only"
  by (simp add: reflp_def world_only_def)

lemma world_only_trans: "transp world_only"
  unfolding transp_def world_only_def by (metis bot_state.surjective bot_state.update_convs(12))

lemma world_only_world: "act_keeps world_only (with_world f)"
  by (auto simp: act_keeps_def with_world_def world_only_def split: prod.split)

lemmas world_only_intros =
  act_keeps_basic [OF world_only_refl] act_keeps_bind [OF world_only_trans]
  act_keeps_try [OF world_only_trans] world_only_world act_keeps_if act_keeps_option act_keeps_prod

end
