(* ===== verification/Event_Service.thy ===== *)
theory Event_Service
  imports Degenbot
begin

text \<open>
  \<open>EventService.process_uniswap_events\<close> (app/core/event_service.py): the six handlers of
  chain events, the table that dispatches on the event signature, and the handling of one
  message of the \<open>cream_events\<close> channel. Handlers are synchronous, so each runs without
  interleaving; they only create the tasks that put the pool address into the queue.
\<close>

section \<open>Parts shared by the handlers\<close>

text \<open>\<open>message["params"]["result"][name]\<close>\<close>

definition ev_field :: "json \<Rightarrow> string \<Rightarrow> json res" where
  "ev_field message name = json_path message [''params'', ''result'', name]"

definition ev_address :: "('p, 'm, 'w) degen \<Rightarrow> json \<Rightarrow> string res" where
  "ev_address dg message = res_bind (ev_field message ''address'') (to_checksum_address dg)"

definition ev_block :: "json \<Rightarrow> int res" where
  "ev_block message = res_bind (ev_field message ''blockNumber'') json_int16"

definition ev_decode :: "('p, 'm, 'w) degen \<Rightarrow> abi_type list \<Rightarrow> json \<Rightarrow> abi_val list res" where
  "ev_decode dg types text = res_bind (json_fromhex text) (abi_decode dg types)"

text \<open>
  The loop over the managers: \<open>ManagerError\<close> means the manager does not know the pool, the
  first manager that returns a helper ends the loop, another exception leaves the handler.
\<close>

fun find_pool :: "('p, 'm, 'w) degen \<Rightarrow> 'm list \<Rightarrow> string \<Rightarrow> int option \<Rightarrow>
    (('p, 'm, 'w) bot_state, 'p option) act" where
  "find_pool dg [] a blk = act_return None"
| "find_pool dg (m # ms) a blk =
     act_try (with_world (get_pool dg m (JStr a) blk))
       (\<lambda>e. if e = ManagerError then find_pool dg ms a blk else act_raise e)
       (\<lambda>p. act_return (Some p))"

text \<open>\<open>asyncio.create_task(self.bot_state.pools_to_process.put(event_address))\<close>\<close>

definition spawn_put :: "string \<Rightarrow> (('p, 'm, 'w) bot_state, unit) act" where
  "spawn_put a = act_update (\<lambda>st. st\<lparr>spawned := spawned st @ [a]\<rparr>)"

definition managers_of :: "('p, 'm, 'w) bot_state \<Rightarrow> 'm list" where
  "managers_of st = map snd (pool_managers st)"

section \<open>Liquidity events\<close>

text \<open>\<open>_, _, lower, upper = topics\<close>, each tick decoded from its topic.\<close>

definition tick_topics :: "('p, 'm, 'w) degen \<Rightarrow> json \<Rightarrow> (int \<times> int) res" where
  "tick_topics dg message =
     res_bind (ev_field message ''topics'') (\<lambda>topics.
     res_bind (json_iter topics) (\<lambda>ts.
     case ts of
       [_, _, lower, upper] \<Rightarrow>
         res_bind (ev_decode dg [ABI_int 24] lower) (\<lambda>ls. case ls of [] \<Rightarrow> Inl IndexError | l # _ \<Rightarrow>
         res_bind (ev_decode dg [ABI_int 24] upper) (\<lambda>us. case us of [] \<Rightarrow> Inl IndexError | u # _ \<Rightarrow>
         res_bind (abi_int l) (\<lambda>l'. res_bind (abi_int u) (\<lambda>u'. Inr (l', u')))))
     | _ \<Rightarrow> Inl ValueError))"

definition burn_fields :: "('p, 'm, 'w) degen \<Rightarrow> json \<Rightarrow> json \<Rightarrow> (int \<times> int \<times> int) res" where
  "burn_fields dg message event_data =
     res_bind (tick_topics dg message) (\<lambda>(lower, upper).
     res_bind (ev_decode dg [ABI_uint 128, ABI_uint 256, ABI_uint 256] event_data) (\<lambda>vs.
     case vs of
       [liquidity, _, _] \<Rightarrow> res_bind (abi_int liquidity) (\<lambda>n. Inr (n, lower, upper))
     | _ \<Rightarrow> Inl ValueError))"

definition mint_fields :: "('p, 'm, 'w) degen \<Rightarrow> json \<Rightarrow> json \<Rightarrow> (int \<times> int \<times> int) res" where
  "mint_fields dg message event_data =
     res_bind (tick_topics dg message) (\<lambda>(lower, upper).
     res_bind (ev_decode dg [ABI_address, ABI_uint 128, ABI_uint 256, ABI_uint 256] event_data) (\<lambda>vs.
     case vs of
       [_, liquidity, _, _] \<Rightarrow> res_bind (abi_int liquidity) (\<lambda>n. Inr (n, lower, upper))
     | _ \<Rightarrow> Inl ValueError))"

text \<open>After an \<open>AssertionError\<close> the pool is deleted from the first manager that holds it.\<close>

fun remove_pool :: "('p, 'm, 'w) degen \<Rightarrow> 'm list \<Rightarrow> 'p \<Rightarrow> (('p, 'm, 'w) bot_state, unit) act" where
  "remove_pool dg [] p = act_return ()"
| "remove_pool dg (m # ms) p =
     act_try (with_world (del_pool dg m p))
       (\<lambda>e. if e = KeyError then remove_pool dg ms p else act_raise e)
       (\<lambda>_. act_return ())"

definition apply_liquidity ::
  "('p, 'm, 'w) degen \<Rightarrow> string \<Rightarrow> 'p \<Rightarrow> int \<Rightarrow> int \<times> int \<times> int \<Rightarrow> (('p, 'm, 'w) bot_state, unit) act" where
  "apply_liquidity dg event_address p event_block change =
     act_bind (with_world (liquidity_update dg p event_block change))
       (\<lambda>_. with_world (update_snapshot dg event_address p))"

definition process_burn_event :: "('p, 'm, 'w) degen \<Rightarrow> json \<Rightarrow> (('p, 'm, 'w) bot_state, unit) act" where
  "process_burn_event dg message =
     act_bind (act_lift (ev_address dg message)) (\<lambda>event_address.
     act_bind (act_lift (ev_block message)) (\<lambda>event_block.
     act_bind (act_lift (ev_field message ''data'')) (\<lambda>event_data.
     act_bind (act_read managers_of) (\<lambda>managers.
     act_bind (find_pool dg managers event_address (Some (event_block - 1))) (\<lambda>helper.
     case helper of
       None \<Rightarrow> act_return ()
     | Some p \<Rightarrow>
         act_try (act_lift (burn_fields dg message event_data))
           (\<lambda>e. if e = KeyError then act_return () else act_raise e)
           (\<lambda>(liquidity, lower, upper).
             if liquidity = 0 then act_return ()
             else act_try (apply_liquidity dg event_address p event_block (- liquidity, lower, upper))
               (\<lambda>e. if e = AssertionError
                    then act_bind (act_read managers_of) (\<lambda>ms. remove_pool dg ms p)
                    else act_return ())
               (\<lambda>_. spawn_put event_address)))))))"

definition process_mint_event :: "('p, 'm, 'w) degen \<Rightarrow> json \<Rightarrow> (('p, 'm, 'w) bot_state, unit) act" where
  "process_mint_event dg message =
     act_bind (act_lift (ev_address dg message)) (\<lambda>event_address.
     act_bind (act_lift (ev_block message)) (\<lambda>event_block.
     act_bind (act_lift (ev_field message ''data'')) (\<lambda>event_data.
     act_bind (act_read managers_of) (\<lambda>managers.
     act_bind (find_pool dg managers event_address (Some (event_block - 1))) (\<lambda>helper.
     case helper of
       None \<Rightarrow> act_return ()
     | Some p \<Rightarrow>
         act_try (act_lift (mint_fields dg message event_data))
           (\<lambda>e. if e = KeyError then act_return () else act_raise e)
           (\<lambda>(liquidity, lower, upper).
             if liquidity = 0 then act_return ()
             else act_try (apply_liquidity dg event_address p event_block (liquidity, lower, upper))
               (\<lambda>e. if is_Exception e then act_return () else act_raise e)
               (\<lambda>_. spawn_put event_address)))))))"

section \<open>Price events\<close>

definition sync_fields :: "('p, 'm, 'w) degen \<Rightarrow> json \<Rightarrow> abi_val list res" where
  "sync_fields dg event_data = ev_decode dg [ABI_uint 112, ABI_uint 112] event_data"

text \<open>\<open>reserves0, reserves1 = event_reserves\<close>, after the pool was found.\<close>

definition unpack_reserves :: "abi_val list \<Rightarrow> (int \<times> int) res" where
  "unpack_reserves vs =
     (case vs of
        [r0, r1] \<Rightarrow> res_bind (abi_int r0) (\<lambda>n0. res_bind (abi_int r1) (\<lambda>n1. Inr (n0, n1)))
      | _ \<Rightarrow> Inl ValueError)"

definition process_sync_event :: "('p, 'm, 'w) degen \<Rightarrow> json \<Rightarrow> (('p, 'm, 'w) bot_state, unit) act" where
  "process_sync_event dg message =
     act_bind (act_lift (ev_address dg message)) (\<lambda>event_address.
     act_bind (act_lift (ev_block message)) (\<lambda>event_block.
     act_bind (act_lift (ev_field message ''data'')) (\<lambda>event_data.
     act_bind (act_lift (sync_fields dg event_data)) (\<lambda>event_reserves.
     act_bind (act_read managers_of) (\<lambda>managers.
     act_bind (find_pool dg managers event_address None) (\<lambda>helper.
     case helper of
       None \<Rightarrow> act_return ()
     | Some p \<Rightarrow>
         act_bind (act_lift (unpack_reserves event_reserves)) (\<lambda>(reserves0, reserves1).
         act_try (with_world (update_reserves dg p reserves0 reserves1 event_block))
           (\<lambda>e. if is_Exception e then act_return () else act_raise e)
           (\<lambda>_. spawn_put event_address))))))))"

definition swap_fields :: "('p, 'm, 'w) degen \<Rightarrow> json \<Rightarrow> swap_args res" where
  "swap_fields dg event_data =
     res_bind (ev_decode dg [ABI_int 256, ABI_int 256, ABI_uint 160, ABI_uint 128, ABI_int 24] event_data)
       (\<lambda>vs. case vs of
         [_, _, sqrt_price, liquidity, tick] \<Rightarrow>
           res_bind (abi_int sqrt_price) (\<lambda>s. res_bind (abi_int liquidity) (\<lambda>l.
           res_bind (abi_int tick) (\<lambda>t.
             Inr \<lparr>sw_liquidity = l, sw_tick = t, sw_sqrt_price_x96 = s\<rparr>)))
       | _ \<Rightarrow> Inl ValueError)"

definition process_swap_event :: "('p, 'm, 'w) degen \<Rightarrow> json \<Rightarrow> (('p, 'm, 'w) bot_state, unit) act" where
  "process_swap_event dg message =
     act_bind (act_lift (ev_address dg message)) (\<lambda>event_address.
     act_bind (act_lift (ev_block message)) (\<lambda>event_block.
     act_bind (act_lift (ev_field message ''data'')) (\<lambda>event_data.
     act_bind (act_lift (swap_fields dg event_data)) (\<lambda>update.
     act_bind (act_read managers_of) (\<lambda>managers.
     act_bind (find_pool dg managers event_address (Some (event_block - 1))) (\<lambda>helper.
     case helper of
       None \<Rightarrow> act_return ()
     | Some p \<Rightarrow>
         act_try (with_world (swap_update dg p event_block update))
           (\<lambda>e. if is_Exception e then act_return () else act_raise e)
           (\<lambda>_. spawn_put event_address)))))))"

section \<open>New pools\<close>

text \<open>
  \<open>if event_address not in pool_managers: create and store it\<close>; the flag says whether the
  handler goes on. A manager that cannot be created is logged and ends the handler.
\<close>

definition ensure_manager ::
  "(json \<Rightarrow> 'w \<Rightarrow> 'm res \<times> 'w) \<Rightarrow> string \<Rightarrow> (('p, 'm, 'w) bot_state, bool) act" where
  "ensure_manager create event_address =
     act_bind (act_read (\<lambda>st. map_of (pool_managers st) (JStr event_address))) (\<lambda>known.
     case known of
       Some _ \<Rightarrow> act_return True
     | None \<Rightarrow>
         act_try (with_world (create (JStr event_address)))
           (\<lambda>e. if is_Exception e then act_return False else act_raise e)
           (\<lambda>m. act_bind (act_update (\<lambda>st. st\<lparr>pool_managers := AList.update (JStr event_address) m (pool_managers st)\<rparr>))
                  (\<lambda>_. act_return True)))"

definition add_new_pool ::
  "('p, 'm, 'w) degen \<Rightarrow> (json \<Rightarrow> 'w \<Rightarrow> 'm res \<times> 'w) \<Rightarrow> string \<Rightarrow> string \<Rightarrow> int \<Rightarrow>
     (('p, 'm, 'w) bot_state, unit) act" where
  "add_new_pool dg create event_address pool_address event_block =
     act_bind (ensure_manager create event_address) (\<lambda>ok.
     if \<not> ok then act_return ()
     else act_bind (act_read (\<lambda>st. dict_index (pool_managers st) (JStr event_address))) (\<lambda>r.
          act_bind (act_lift r) (\<lambda>pool_manager.
          act_try (with_world (get_pool dg pool_manager (JStr pool_address) (Some event_block)))
            (\<lambda>e. if is_Exception e then act_return () else act_raise e)
            (\<lambda>_. act_return ()))))"

definition v2_pool_field :: "('p, 'm, 'w) degen \<Rightarrow> json \<Rightarrow> string res" where
  "v2_pool_field dg event_data =
     res_bind (ev_decode dg [ABI_address, ABI_uint 256] event_data) (\<lambda>vs.
       case vs of [pool_address, _] \<Rightarrow> abi_addr pool_address | _ \<Rightarrow> Inl ValueError)"

definition v3_pool_field :: "('p, 'm, 'w) degen \<Rightarrow> json \<Rightarrow> string res" where
  "v3_pool_field dg event_data =
     res_bind (ev_decode dg [ABI_int 24, ABI_address] event_data) (\<lambda>vs.
       case vs of [_, pool_address] \<Rightarrow> abi_addr pool_address | _ \<Rightarrow> Inl ValueError)"

definition process_new_v2_pool_event ::
  "('p, 'm, 'w) degen \<Rightarrow> json \<Rightarrow> (('p, 'm, 'w) bot_state, unit) act" where
  "process_new_v2_pool_event dg message =
     act_bind (act_lift (ev_address dg message)) (\<lambda>event_address.
     act_bind (act_lift (ev_block message)) (\<lambda>event_block.
     act_bind (act_lift (ev_field message ''data'')) (\<lambda>event_data.
     act_bind (act_lift (v2_pool_field dg event_data)) (\<lambda>pool_address.
     add_new_pool dg (new_v2_manager dg) event_address pool_address event_block))))"

definition process_new_v3_pool_event ::
  "('p, 'm, 'w) degen \<Rightarrow> json \<Rightarrow> (('p, 'm, 'w) bot_state, unit) act" where
  "process_new_v3_pool_event dg message =
     act_bind (act_lift (ev_address dg message)) (\<lambda>event_address.
     act_bind (act_lift (ev_block message)) (\<lambda>event_block.
     act_bind (act_lift (ev_field message ''data'')) (\<lambda>event_data.
     act_bind (act_lift (v3_pool_field dg event_data)) (\<lambda>pool_address.
     add_new_pool dg (new_v3_manager dg) event_address pool_address event_block))))"

section \<open>Dispatch\<close>

datatype event_kind = SyncEvent | MintEvent | BurnEvent | SwapEvent | NewV2Pool | NewV3Pool

definition event_signatures :: "(string \<times> event_kind) list" where
  "event_signatures =
     [(''Sync(uint112,uint112)'', SyncEvent),
      (''Mint(address,address,int24,int24,uint128,uint256,uint256)'', MintEvent),
      (''Burn(address,int24,int24,uint128,uint256,uint256)'', BurnEvent),
      (''Swap(address,address,int256,int256,uint160,uint128,int24)'', SwapEvent),
      (''PairCreated(address,address,address,uint256)'', NewV2Pool),
      (''PoolCreated(address,address,uint24,int24,address)'', NewV3Pool)]"

text \<open>The dictionary display \<open>_EVENTS\<close>, keyed by the hash of the signature.\<close>

definition EVENTS :: "('p, 'm, 'w) degen \<Rightarrow> (string, event_kind) dict" where
  "EVENTS dg = dict_fill (\<lambda>x. keccak_text dg (fst x)) snd event_signatures []"

fun process_func :: "event_kind \<Rightarrow> ('p, 'm, 'w) degen \<Rightarrow> json \<Rightarrow> (('p, 'm, 'w) bot_state, unit) act" where
  "process_func SyncEvent = process_sync_event"
| "process_func MintEvent = process_mint_event"
| "process_func BurnEvent = process_burn_event"
| "process_func SwapEvent = process_swap_event"
| "process_func NewV2Pool = process_new_v2_pool_event"
| "process_func NewV3Pool = process_new_v3_pool_event"

text \<open>
  \<open>_EVENTS[topic0]\<close>: a list or an object cannot be hashed, any other value that is not a
  known signature hash is a missing key.
\<close>

fun lookup_event :: "('p, 'm, 'w) degen \<Rightarrow> json \<Rightarrow> event_kind res" where
  "lookup_event dg (JStr topic0) = dict_index (EVENTS dg) topic0"
| "lookup_event dg (JList _) = Inl TypeError"
| "lookup_event dg (JObj _) = Inl TypeError"
| "lookup_event dg _ = Inl KeyError"

text \<open>The log line after a handled event formats the block number with \<open>int(event_block, 16)\<close>.\<close>

definition handle_event :: "('p, 'm, 'w) degen \<Rightarrow> json \<Rightarrow> (('p, 'm, 'w) bot_state, unit) act" where
  "handle_event dg event =
     act_bind (act_lift (ev_field event ''blockNumber'')) (\<lambda>event_block.
     act_bind (act_lift (res_bind (ev_field event ''topics'') (\<lambda>topics. json_nth topics 0))) (\<lambda>topic0.
     act_try (act_lift (lookup_event dg topic0))
       (\<lambda>e. act_return ())
       (\<lambda>kind. act_bind (process_func kind dg event) (\<lambda>_.
                act_bind (act_lift (json_int16 event_block)) (\<lambda>_. act_return ())))))"

text \<open>One message of the subscription; \<open>message\<close> is the Redis message itself.\<close>

definition handle_message :: "('p, 'm, 'w) degen \<Rightarrow> json \<Rightarrow> (('p, 'm, 'w) bot_state, unit) act" where
  "handle_message dg message =
     act_bind (act_lift (json_key message ''type'')) (\<lambda>ty.
     if ty \<noteq> JStr ''message'' then act_return ()
     else
       act_bind (\<lambda>st. (get_attr ''first_event'' st, st)) (\<lambda>first_event.
       act_bind
         (if first_event = JNull
          then act_bind (act_lift (json_path message [''params'', ''result'', ''blockNumber'']))
                 (\<lambda>b. act_update (set_attr ''first_event'' b))
          else act_return ()) (\<lambda>_.
       act_bind (act_lift (json_get message ''data'')) (\<lambda>message_data.
       if \<not> truthy message_data then act_return ()
       else act_bind (act_lift (loads dg message_data)) (handle_event dg)))))"

text \<open>
  The loop over the subscription: an exception is logged, and after a pause the loop goes on
  with the next message; only a cancellation ends it.
\<close>

fun process_uniswap_events ::
  "('p, 'm, 'w) degen \<Rightarrow> json list \<Rightarrow> ('p, 'm, 'w) bot_state \<Rightarrow> ('p, 'm, 'w) bot_state" where
  "process_uniswap_events dg [] st = st"
| "process_uniswap_events dg (m # ms) st =
     (case handle_message dg m st of
        (Inl e, t) \<Rightarrow> if is_Exception e then process_uniswap_events dg ms t else t
      | (Inr _, t) \<Rightarrow> process_uniswap_events dg ms t)"

end
