(* ===== verification/Event_Contract.thy ===== *)
theory Event_Contract
  imports Event_Service
begin

text \<open>
  The contract every handler of chain events keeps, as a locale: it changes nothing but the
  world, the managers (which it only adds to) and the created put tasks, of which it creates
  at most one, for the address of its own event. The six handlers interpret it; what follows
  for a sequence of events is proved once in the locale.
\<close>

section \<open>Actions that create at most one task\<close>

definition keeps_spawned :: "('p, 'm, 'w) bot_state \<Rightarrow> ('p, 'm, 'w) bot_state \<Rightarrow> bool" where
  "keeps_spawned s t \<longleftrightarrow> spawned t = spawned s"

definition act_spawns :: "string set \<Rightarrow> (('p, 'm, 'w) bot_state, 'a) act \<Rightarrow> bool" where
  "act_spawns X m \<longleftrightarrow> (\<forall>s. spawned (snd (m s)) = spawned s \<or>
     (\<exists>a\<in>X. spawned (snd (m s)) = spawned s @ [a]))"

lemma keeps_spawned_refl: "reflp keeps_spawned" and keeps_spawned_trans: "transp keeps_spawned"
  by (auto simp: reflp_def transp_def keeps_spawned_def)

lemma keeps_spawned_world: "act_keeps keeps_spawned (with_world f)"
  by (auto simp: act_keeps_def keeps_spawned_def with_world_def split: prod.split)

lemma act_spawns_quiet: "act_keeps keeps_spawned m \<Longrightarrow> act_spawns X m"
  by (auto simp: act_keeps_def act_spawns_def keeps_spawned_def)

lemma act_spawnsD:
  "act_spawns X m \<Longrightarrow> spawned t = spawned s \<Longrightarrow>
     spawned (snd (m t)) = spawned s \<or> (\<exists>a\<in>X. spawned (snd (m t)) = spawned s @ [a])"
  by (auto simp: act_spawns_def dest!: spec [of _ t])

lemma act_spawns_bind:
  assumes "act_keeps keeps_spawned m" and "\<And>x. act_spawns X (f x)"
  shows "act_spawns X (act_bind m f)"
  unfolding act_spawns_def
proof
  fix s
  obtain r t where m: "m s = (r, t)" by (cases "m s")
  with assms(1) have "spawned t = spawned s"
    by (auto simp: keeps_spawned_def dest: act_keepsD)
  from act_spawnsD [OF assms(2) this] m
  show "spawned (snd (act_bind m f s)) = spawned s \<or>
      (\<exists>a\<in>X. spawned (snd (act_bind m f s)) = spawned s @ [a])"
    using \<open>spawned t = spawned s\<close> by (cases r) (simp_all add: act_bind_def)
qed

lemma act_spawns_then:
  assumes "act_spawns X m" and "\<And>x. act_keeps keeps_spawned (f x)"
  shows "act_spawns X (act_bind m f)"
  unfolding act_spawns_def
proof
  fix s
  obtain r t where m: "m s = (r, t)" by (cases "m s")
  have "spawned (snd (f x t)) = spawned t" for x
    using assms(2) by (simp add: act_keeps_def keeps_spawned_def)
  with act_spawnsD [OF assms(1), of s s] m
  show "spawned (snd (act_bind m f s)) = spawned s \<or>
      (\<exists>a\<in>X. spawned (snd (act_bind m f s)) = spawned s @ [a])"
    by (cases r) (simp_all add: act_bind_def)
qed

lemma act_spawns_bind_lift:
  "(\<And>x. r = Inr x \<Longrightarrow> act_spawns X (f x)) \<Longrightarrow> act_spawns X (act_bind (act_lift r) f)"
  by (cases r) (auto simp: act_spawns_def act_raise_def)

lemma act_spawns_try:
  assumes "act_keeps keeps_spawned m" and "\<And>e. act_spawns X (h e)" and "\<And>x. act_spawns X (g x)"
  shows "act_spawns X (act_try m h g)"
  unfolding act_spawns_def
proof
  fix s
  obtain r t where m: "m s = (r, t)" by (cases "m s")
  with assms(1) have "spawned t = spawned s"
    by (auto simp: keeps_spawned_def dest: act_keepsD)
  from act_spawnsD [OF assms(2) this] act_spawnsD [OF assms(3) this] m
  show "spawned (snd (act_try m h g s)) = spawned s \<or>
      (\<exists>a\<in>X. spawned (snd (act_try m h g s)) = spawned s @ [a])"
    by (cases r) (simp_all add: act_try_def)
qed

lemma act_spawns_if:
  "(b \<Longrightarrow> act_spawns X m) \<Longrightarrow> (\<not> b \<Longrightarrow> act_spawns X n) \<Longrightarrow> act_spawns X (if b then m else n)"
  by simp

lemma act_spawns_option:
  "act_spawns X m \<Longrightarrow> (\<And>p. act_spawns X (f p)) \<Longrightarrow>
     act_spawns X (case h of None \<Rightarrow> m | Some p \<Rightarrow> f p)"
  by (cases h) auto

lemma act_spawns_prod: "(\<And>x y. act_spawns X (f x y)) \<Longrightarrow> act_spawns X (case p of (x, y) \<Rightarrow> f x y)"
  by (cases p) auto

lemma act_spawns_put: "a \<in> X \<Longrightarrow> act_spawns X (spawn_put a)"
  by (auto simp: act_spawns_def spawn_put_def act_update_def)

lemmas keeps_spawned_intros =
  act_keeps_basic [OF keeps_spawned_refl] act_keeps_bind [OF keeps_spawned_trans]
  act_keeps_try [OF keeps_spawned_trans] keeps_spawned_world act_keeps_if act_keeps_option act_keeps_prod

lemmas act_spawns_intros =
  act_spawns_bind_lift act_spawns_bind act_spawns_try act_spawns_if act_spawns_option
  act_spawns_prod act_spawns_put

section \<open>The contract\<close>

locale event_handler =
  fixes dg :: "('p, 'm, 'w) degen"
    and handle :: "json \<Rightarrow> (('p, 'm, 'w) bot_state, unit) act"
  assumes frame: "act_keeps event_frame (handle message)"
    and spawns: "act_spawns {a. ev_address dg message = Inr a} (handle message)"
begin

lemma handle_spawned:
  assumes "handle message s = (r, t)"
  shows "spawned t = spawned s \<or> (\<exists>a. ev_address dg message = Inr a \<and> spawned t = spawned s @ [a])"
  using act_spawnsD [OF spawns [of message], of s s] assms by auto

lemma handle_frame: "handle message s = (r, t) \<Longrightarrow> event_frame s t"
  using frame by (rule act_keepsD)

lemma handle_keeps_managers:
  "handle message s = (r, t) \<Longrightarrow> map_of (pool_managers s) f = Some m \<Longrightarrow>
     map_of (pool_managers t) f = Some m"
  using handle_frame [of message s r t] by (auto simp: event_frame_def map_le_def dom_def)

text \<open>Over a sequence of events: what was created is a selection of their addresses, in order.\<close>

lemma handle_all_spawned:
  "\<exists>xs. spawned (fold (\<lambda>message s. snd (handle message s)) messages s) = spawned s @ xs
      \<and> length xs \<le> length messages \<and> Inr ` set xs \<subseteq> ev_address dg ` set messages"
proof (induction messages arbitrary: s)
  case Nil
  then show ?case by simp
next
  case (Cons message messages)
  obtain r t where t: "handle message s = (r, t)" by (cases "handle message s")
  from Cons.IH [of t] obtain xs where
    xs: "spawned (fold (\<lambda>message s. snd (handle message s)) messages t) = spawned t @ xs"
      "length xs \<le> length messages" "Inr ` set xs \<subseteq> ev_address dg ` set messages"
    by blast
  from handle_spawned [OF t] show ?case
  proof
    assume "spawned t = spawned s"
    with t xs show ?thesis by (auto intro!: exI [of _ xs])
  next
    assume "\<exists>a. ev_address dg message = Inr a \<and> spawned t = spawned s @ [a]"
    then obtain a where "ev_address dg message = Inr a" "spawned t = spawned s @ [a]" by blast
    with xs(3) have "Inr ` set (a # xs) \<subseteq> ev_address dg ` set (message # messages)"
      by (auto intro: rev_image_eqI)
    with t xs(1,2) \<open>spawned t = spawned s @ [a]\<close> show ?thesis
      by (intro exI [of _ "a # xs"]) auto
  qed
qed

end

section \<open>The handlers keep the contract\<close>

lemmas frame_intros = event_frame_intros act_keeps_if act_keeps_option act_keeps_prod

lemma find_pool_frame: "act_keeps event_frame (find_pool dg ms a b)"
  by (induction ms) (auto intro!: frame_intros)

lemma find_pool_quiet: "act_keeps keeps_spawned (find_pool dg ms a b)"
  by (induction ms) (auto intro!: keeps_spawned_intros)

lemma remove_pool_frame: "act_keeps event_frame (remove_pool dg ms p)"
  by (induction ms) (auto intro!: frame_intros)

lemma remove_pool_quiet: "act_keeps keeps_spawned (remove_pool dg ms p)"
  by (induction ms) (auto intro!: keeps_spawned_intros)

lemma apply_liquidity_frame: "act_keeps event_frame (apply_liquidity dg a p n c)"
  by (auto simp: apply_liquidity_def intro!: frame_intros)

lemma apply_liquidity_quiet: "act_keeps keeps_spawned (apply_liquidity dg a p n c)"
  by (auto simp: apply_liquidity_def intro!: keeps_spawned_intros)

lemma spawn_put_frame: "act_keeps event_frame (spawn_put a)"
  by (auto simp: act_keeps_def spawn_put_def act_update_def event_frame_def)

lemma map_le_update: "map_of d k = None \<Longrightarrow> map_of d \<subseteq>\<^sub>m map_of (AList.update k v d)"
  by (auto simp: map_le_def update_conv)

lemma ensure_manager_frame: "act_keeps event_frame (ensure_manager create a)"
  unfolding act_keeps_def
proof
  fix s
  show "event_frame s (snd (ensure_manager create a s))"
    by (auto simp: ensure_manager_def act_bind_def act_try_def act_read_def act_update_def
        act_return_def act_raise_def with_world_def event_frame_def map_le_update
        split: option.split prod.split sum.split)
qed

lemma ensure_manager_quiet: "act_keeps keeps_spawned (ensure_manager create a)"
  unfolding act_keeps_def
proof
  fix s
  show "keeps_spawned s (snd (ensure_manager create a s))"
    by (auto simp: ensure_manager_def act_bind_def act_try_def act_read_def act_update_def
        act_return_def act_raise_def with_world_def keeps_spawned_def
        split: option.split prod.split sum.split)
qed

lemma add_new_pool_frame: "act_keeps event_frame (add_new_pool dg create a p n)"
  by (auto simp: add_new_pool_def intro!: frame_intros ensure_manager_frame)

lemma add_new_pool_quiet: "act_keeps keeps_spawned (add_new_pool dg create a p n)"
  by (auto simp: add_new_pool_def intro!: keeps_spawned_intros ensure_manager_quiet)

lemmas handler_frames =
  find_pool_frame remove_pool_frame apply_liquidity_frame spawn_put_frame add_new_pool_frame

lemmas handler_quiet =
  find_pool_quiet remove_pool_quiet apply_liquidity_quiet add_new_pool_quiet

lemmas handler_spawns =
  act_spawns_intros keeps_spawned_intros handler_quiet keeps_spawned_refl
  act_spawns_quiet [OF remove_pool_quiet] act_spawns_quiet [OF add_new_pool_quiet]
  act_spawns_quiet [OF act_keeps_basic(1)] act_spawns_quiet [OF act_keeps_basic(2)]

interpretation burn: event_handler dg "process_burn_event dg"
  by unfold_locales
    (auto simp: process_burn_event_def intro!: frame_intros handler_frames handler_spawns)

interpretation mint: event_handler dg "process_mint_event dg"
  by unfold_locales
    (auto simp: process_mint_event_def intro!: frame_intros handler_frames handler_spawns)

interpretation sync: event_handler dg "process_sync_event dg"
  by unfold_locales
    (auto simp: process_sync_event_def intro!: frame_intros handler_frames handler_spawns)

interpretation swap: event_handler dg "process_swap_event dg"
  by unfold_locales
    (auto simp: process_swap_event_def intro!: frame_intros handler_frames handler_spawns)

interpretation new_v2: event_handler dg "process_new_v2_pool_event dg"
  by unfold_locales
    (auto simp: process_new_v2_pool_event_def intro!: frame_intros handler_frames handler_spawns)

interpretation new_v3: event_handler dg "process_new_v3_pool_event dg"
  by unfold_locales
    (auto simp: process_new_v3_pool_event_def intro!: frame_intros handler_frames handler_spawns)

text \<open>The dispatcher chooses among handlers that keep the contract, so it keeps it too.\<close>

interpretation dispatched: event_handler dg "process_func kind dg" for kind
  by unfold_locales
    (cases kind; simp add: burn.frame mint.frame sync.frame swap.frame new_v2.frame new_v3.frame
      burn.spawns mint.spawns sync.spawns swap.spawns new_v2.spawns new_v3.spawns)+

lemma handle_event_spawns: "act_spawns {a. ev_address dg event = Inr a} (handle_event dg event)"
  unfolding handle_event_def
  by (intro act_spawns_bind_lift act_spawns_try act_spawns_then dispatched.spawns)
    (auto intro!: keeps_spawned_intros keeps_spawned_refl act_spawns_quiet)

interpretation handled: event_handler dg "handle_event dg"
  by unfold_locales
    (auto simp: handle_event_def handle_event_spawns [unfolded handle_event_def]
      intro!: frame_intros dispatched.frame)

end
