(* ===== verification/Event_Correct.thy ===== *)
theory Event_Correct
  imports Event_Contract
begin

text \<open>
  Properties of the event service: what handlers may change, when an address is enqueued and
  with which pool update, how signatures are dispatched, and what happens to messages while
  \<open>first_event\<close> is unset.
\<close>

section \<open>The world is all that changes before an address is enqueued\<close>

lemma find_pool_world_only: "act_keeps world_only (find_pool dg ms a b)"
  by (induction ms) (auto intro!: world_only_intros)

lemma with_world_result: "with_world f s = (r, t) \<Longrightarrow> f (world s) = (r, world t) \<and> t = s\<lparr>world := world t\<rparr>"
  by (auto simp: with_world_def split: prod.splits)

lemma find_pool_Some:
  "find_pool dg ms a b s = (Inr (Some p), t) \<Longrightarrow>
     \<exists>m\<in>set ms. \<exists>w. get_pool dg m (JStr a) b w = (Inr p, world t)"
proof (induction ms arbitrary: s)
  case Nil
  then show ?case by (simp add: act_return_def)
next
  case (Cons m ms)
  obtain r u where u: "with_world (get_pool dg m (JStr a) b) s = (r, u)" by (cases "with_world (get_pool dg m (JStr a) b) s")
  show ?case
  proof (cases r)
    case (Inl e)
    with u Cons show ?thesis
      by (cases "e = ManagerError") (auto simp: act_try_def act_raise_def)
  next
    case (Inr q)
    with u Cons.prems have "q = p" "u = t" by (auto simp: act_try_def act_return_def)
    with with_world_result [OF u] Inr show ?thesis by auto
  qed
qed

lemma find_pool_unknown:
  "(\<forall>m\<in>set ms. \<forall>w. fst (get_pool dg m (JStr a) b w) = Inl ManagerError) \<Longrightarrow>
     fst (find_pool dg ms a b s) = Inr None"
proof (induction ms arbitrary: s)
  case (Cons m ms)
  then have "fst (with_world (get_pool dg m (JStr a) b) s) = Inl ManagerError"
    by (auto simp: with_world_def split: prod.split) (metis fst_conv)
  with Cons show ?case
    by (auto simp: act_try_def split: prod.split sum.split)
qed (simp add: act_return_def)

text \<open>Case analysis of an action whose first parts only read the message.\<close>

lemma act_bind_lift_cases:
  assumes "act_bind (act_lift r) f s = (x, t)"
  obtains e where "r = Inl e" "x = Inl e" "t = s" | y where "r = Inr y" "f y s = (x, t)"
  using assms by (cases r) (auto simp: act_raise_def)

lemma act_bind_find_pool:
  assumes "act_bind (find_pool dg ms a b) f s = (x, t)"
  obtains e where "x = Inl e" "world_only s t"
    | h u where "find_pool dg ms a b s = (Inr h, u)" "world_only s u" "f h u = (x, t)"
proof -
  obtain r u where u: "find_pool dg ms a b s = (r, u)" by (cases "find_pool dg ms a b s")
  then have "world_only s u" by (rule act_keepsD [OF find_pool_world_only])
  with u assms that show thesis by (cases r) (auto simp: act_bind_def)
qed

section \<open>Enqueueing follows a successful update\<close>

text \<open>
  An outcome of a handler: either nothing but the world changed, or the address of the event
  was enqueued after \<open>upd\<close> reached the final world.
\<close>

definition enqueued_after ::
  "('p, 'm, 'w) degen \<Rightarrow> json \<Rightarrow> int option \<Rightarrow> ('p \<Rightarrow> 'w \<Rightarrow> bool) \<Rightarrow>
     ('p, 'm, 'w) bot_state \<Rightarrow> ('p, 'm, 'w) bot_state \<Rightarrow> bool" where
  "enqueued_after dg message blk upd s t \<longleftrightarrow>
     (\<exists>a p m w w'. ev_address dg message = Inr a \<and> m \<in> set (managers_of s) \<and>
        get_pool dg m (JStr a) blk w = (Inr p, w') \<and> upd p (world t) \<and>
        t = s\<lparr>spawned := spawned s @ [a], world := world t\<rparr>)"

lemma enqueued_afterI:
  assumes "ev_address dg message = Inr a" and "find_pool dg (managers_of s) a blk s = (Inr (Some p), u)"
    and "world_only s u" and "upd p (world t)" and "world_only u v"
    and "t = v\<lparr>spawned := spawned v @ [a]\<rparr>"
  shows "enqueued_after dg message blk upd s t"
proof -
  from find_pool_Some [OF assms(2)] obtain m w where
    m: "m \<in> set (managers_of s)" "get_pool dg m (JStr a) blk w = (Inr p, world u)" by blast
  from assms(3,5) have "v = s\<lparr>world := world v\<rparr>"
    unfolding world_only_def by (metis bot_state.surjective bot_state.update_convs(12))
  then have "spawned v = spawned s" by (metis bot_state.select_convs(11) bot_state.surjective bot_state.update_convs(12))
  with assms(6) \<open>v = s\<lparr>world := world v\<rparr>\<close>
  have "t = s\<lparr>spawned := spawned s @ [a], world := world t\<rparr>"
    by (metis bot_state.surjective bot_state.update_convs(11,12) bot_state.select_convs(12))
  with m assms(1,4) show ?thesis by (auto simp: enqueued_after_def)
qed

lemma message_prefix_cases:
  assumes "act_bind (act_lift A) (\<lambda>a. act_bind (act_lift B) (\<lambda>n. act_bind (act_lift D) (\<lambda>d. f a n d))) s = (r, t)"
  obtains e where "r = Inl e" "t = s"
    | a n d where "A = Inr a" "B = Inr n" "D = Inr d" "f a n d s = (r, t)"
  using assms by (elim act_bind_lift_cases) auto

lemma pool_cases:
  assumes "act_bind (act_read managers_of) (\<lambda>ms. act_bind (find_pool dg ms a b)
      (\<lambda>h. case h of None \<Rightarrow> act_return () | Some p \<Rightarrow> g p)) s = (r, t)"
  obtains "world_only s t"
    | p u where "find_pool dg (managers_of s) a b s = (Inr (Some p), u)" "world_only s u" "g p u = (r, t)"
proof -
  from assms have "act_bind (find_pool dg (managers_of s) a b)
      (\<lambda>h. case h of None \<Rightarrow> act_return () | Some p \<Rightarrow> g p) s = (r, t)" by simp
  then show thesis
  proof (rule act_bind_find_pool)
    fix h u
    assume "find_pool dg (managers_of s) a b s = (Inr h, u)" "world_only s u"
      and "(case h of None \<Rightarrow> act_return () | Some p \<Rightarrow> g p) u = (r, t)"
    then show thesis using that by (cases h) (auto simp: act_return_def)
  qed (use that in blast)
qed

lemma update_cases:
  assumes "act_try m h (\<lambda>_. spawn_put a) u = (r, t)"
    and "act_keeps world_only m" and "\<And>e. act_keeps world_only (h e)"
  obtains "world_only u t"
    | x v where "m u = (Inr x, v)" "world_only u v" "t = v\<lparr>spawned := spawned v @ [a]\<rparr>"
proof -
  obtain y v where v: "m u = (y, v)" by (cases "m u")
  then have w: "world_only u v" by (rule act_keepsD [OF assms(2)])
  show thesis
  proof (cases y)
    case (Inl e)
    with assms(1) v have "h e v = (r, t)" by (simp add: act_try_def)
    then have "world_only v t" by (rule act_keepsD [OF assms(3)])
    with w world_only_trans that(1) show thesis by (auto elim: transpE)
  next
    case (Inr x)
    with assms(1) v w that(2) show thesis by (simp add: act_try_def spawn_put_def act_update_def)
  qed
qed

lemma world_only_trans': "world_only s u \<Longrightarrow> world_only u t \<Longrightarrow> world_only s t"
  using world_only_trans by (auto elim: transpE)

lemma world_spawned [simp]: "world (v\<lparr>spawned := x\<rparr>) = world v"
  by simp

lemma sync_outcome:
  assumes "process_sync_event dg message s = (r, t)"
  shows "world_only s t \<or>
    (\<exists>n d vs r0 r1 w. ev_block message = Inr n \<and> ev_field message ''data'' = Inr d \<and>
       sync_fields dg d = Inr vs \<and> unpack_reserves vs = Inr (r0, r1) \<and>
       enqueued_after dg message None (\<lambda>p w'. update_reserves dg p r0 r1 n w = (Inr (), w')) s t)"
  using assms unfolding process_sync_event_def
proof (elim message_prefix_cases act_bind_lift_cases pool_cases)
  fix a n d vs p u rs
  assume parts: "ev_address dg message = Inr a" "ev_block message = Inr n" "ev_field message ''data'' = Inr d"
    "sync_fields dg d = Inr vs" and pool: "find_pool dg (managers_of s) a None s = (Inr (Some p), u)" "world_only s u"
    and rs: "unpack_reserves vs = Inr rs" and upd: "(case rs of (r0, r1) \<Rightarrow>
         act_try (with_world (update_reserves dg p r0 r1 n))
           (\<lambda>e. if is_Exception e then act_return () else act_raise e) (\<lambda>_. spawn_put a)) u = (r, t)"
  obtain r0 r1 where rs': "rs = (r0, r1)" by (cases rs)
  from upd have "act_try (with_world (update_reserves dg p r0 r1 n))
      (\<lambda>e. if is_Exception e then act_return () else act_raise e) (\<lambda>_. spawn_put a) u = (r, t)"
    by (simp add: rs')
  then show ?thesis
  proof (rule update_cases)
    fix x v
    assume v: "with_world (update_reserves dg p r0 r1 n) u = (Inr x, v)" "world_only u v"
      "t = v\<lparr>spawned := spawned v @ [a]\<rparr>"
    then have "update_reserves dg p r0 r1 n (world u) = (Inr (), world t)"
      using with_world_result [OF v(1)] by simp
    then have "enqueued_after dg message None (\<lambda>p w'. update_reserves dg p r0 r1 n (world u) = (Inr (), w')) s t"
      using enqueued_afterI [OF parts(1) pool(1,2) _ v(2,3)] by simp
    with parts(2-4) rs rs' show ?thesis by (intro disjI2 exI conjI) auto
  qed (use pool(2) in \<open>auto intro!: world_only_intros dest: world_only_trans'\<close>)
qed (auto simp: world_only_def)


lemma swap_outcome:
  assumes "process_swap_event dg message s = (r, t)"
  shows "world_only s t \<or>
    (\<exists>n d u w. ev_block message = Inr n \<and> ev_field message ''data'' = Inr d \<and> swap_fields dg d = Inr u \<and>
       enqueued_after dg message (Some (n - 1)) (\<lambda>p w'. swap_update dg p n u w = (Inr (), w')) s t)"
  using assms unfolding process_swap_event_def
proof (elim message_prefix_cases act_bind_lift_cases pool_cases)
  fix a n d x p u
  assume parts: "ev_address dg message = Inr a" "ev_block message = Inr n" "ev_field message ''data'' = Inr d"
    "swap_fields dg d = Inr x"
    and pool: "find_pool dg (managers_of s) a (Some (n - 1)) s = (Inr (Some p), u)" "world_only s u"
    and upd: "act_try (with_world (swap_update dg p n x))
           (\<lambda>e. if is_Exception e then act_return () else act_raise e) (\<lambda>_. spawn_put a) u = (r, t)"
  from upd show ?thesis
  proof (rule update_cases)
    fix y v
    assume v: "with_world (swap_update dg p n x) u = (Inr y, v)" "world_only u v"
      "t = v\<lparr>spawned := spawned v @ [a]\<rparr>"
    then have "swap_update dg p n x (world u) = (Inr (), world t)"
      using with_world_result [OF v(1)] by simp
    then have "enqueued_after dg message (Some (n - 1)) (\<lambda>p w'. swap_update dg p n x (world u) = (Inr (), w')) s t"
      using enqueued_afterI [OF parts(1) pool(1,2) _ v(2,3)] by simp
    with parts(2-4) show ?thesis by (intro disjI2 exI conjI) auto
  qed (use pool(2) in \<open>auto intro!: world_only_intros dest: world_only_trans'\<close>)
qed (auto simp: world_only_def)

text \<open>
  What \<open>apply_liquidity\<close> did when it returned: the pool took the change, then the snapshot
  was updated from it.
\<close>

definition liquidity_applied ::
  "('p, 'm, 'w) degen \<Rightarrow> string \<Rightarrow> int \<Rightarrow> int \<times> int \<times> int \<Rightarrow> 'w \<Rightarrow> 'p \<Rightarrow> 'w \<Rightarrow> bool" where
  "liquidity_applied dg a n change w p w' \<longleftrightarrow>
     (\<exists>w1. liquidity_update dg p n change w = (Inr (), w1) \<and> update_snapshot dg a p w1 = (Inr (), w'))"

lemma apply_liquidity_world_only: "act_keeps world_only (apply_liquidity dg a p n c)"
  by (auto simp: apply_liquidity_def intro!: world_only_intros)

lemma remove_pool_world_only: "act_keeps world_only (remove_pool dg ms p)"
  by (induction ms) (auto intro!: world_only_intros)

lemma apply_liquidity_Inr:
  assumes "apply_liquidity dg a p n c u = (Inr x, v)"
  shows "liquidity_applied dg a n c (world u) p (world v)"
  using assms
  by (auto simp: apply_liquidity_def act_bind_def with_world_def liquidity_applied_def
      split: prod.splits sum.splits)

lemma liquidity_outcome:
  assumes "act_bind (act_lift (ev_address dg message)) (\<lambda>a. act_bind (act_lift (ev_block message)) (\<lambda>n.
      act_bind (act_lift (ev_field message ''data'')) (\<lambda>d. act_bind (act_read managers_of) (\<lambda>ms.
      act_bind (find_pool dg ms a (Some (n - 1))) (\<lambda>h. case h of None \<Rightarrow> act_return () | Some p \<Rightarrow>
        act_try (act_lift (F d)) (\<lambda>e. if e = KeyError then act_return () else act_raise e)
          (\<lambda>(l, lo, up). if l = 0 then act_return ()
             else act_try (apply_liquidity dg a p n (\<sigma> l, lo, up)) (H p) (\<lambda>_. spawn_put a))))))) s = (r, t)"
    and H: "\<And>p e. act_keeps world_only (H p e)"
  shows "world_only s t \<or>
    (\<exists>a n d l lo up w. ev_address dg message = Inr a \<and> ev_block message = Inr n \<and>
       ev_field message ''data'' = Inr d \<and> F d = Inr (l, lo, up) \<and> l \<noteq> 0 \<and>
       enqueued_after dg message (Some (n - 1)) (liquidity_applied dg a n (\<sigma> l, lo, up) w) s t)"
  using assms(1)
proof (elim message_prefix_cases act_bind_lift_cases pool_cases)
  fix a n d p u
  assume parts: "ev_address dg message = Inr a" "ev_block message = Inr n" "ev_field message ''data'' = Inr d"
    and pool: "find_pool dg (managers_of s) a (Some (n - 1)) s = (Inr (Some p), u)" "world_only s u"
    and rest: "act_try (act_lift (F d)) (\<lambda>e. if e = KeyError then act_return () else act_raise e)
          (\<lambda>(l, lo, up). if l = 0 then act_return ()
             else act_try (apply_liquidity dg a p n (\<sigma> l, lo, up)) (H p) (\<lambda>_. spawn_put a)) u = (r, t)"
  show ?thesis
  proof (cases "\<exists>l lo up. F d = Inr (l, lo, up) \<and> l \<noteq> 0")
    case False
    with rest have "t = u"
      by (cases "F d") (auto simp: act_return_def act_raise_def split: if_splits prod.splits)
    with pool(2) show ?thesis by simp
  next
    case True
    then obtain l lo up where F: "F d = Inr (l, lo, up)" "l \<noteq> 0" by blast
    with rest have "act_try (apply_liquidity dg a p n (\<sigma> l, lo, up)) (H p) (\<lambda>_. spawn_put a) u = (r, t)"
      by simp
    then show ?thesis
    proof (rule update_cases)
      fix x v
      assume v: "apply_liquidity dg a p n (\<sigma> l, lo, up) u = (Inr x, v)" "world_only u v"
        "t = v\<lparr>spawned := spawned v @ [a]\<rparr>"
      then have "liquidity_applied dg a n (\<sigma> l, lo, up) (world u) p (world t)"
        using apply_liquidity_Inr [OF v(1)] by simp
      then have "enqueued_after dg message (Some (n - 1))
          (liquidity_applied dg a n (\<sigma> l, lo, up) (world u)) s t"
        using enqueued_afterI [OF parts(1) pool(1,2) _ v(2,3)] by simp
      with parts F show ?thesis by (intro disjI2 exI conjI) auto
    qed (use pool(2) in \<open>auto intro!: H apply_liquidity_world_only dest: world_only_trans'\<close>)
  qed
qed (auto simp: world_only_def)

lemma burn_outcome:
  assumes "process_burn_event dg message s = (r, t)"
  shows "world_only s t \<or>
    (\<exists>a n d l lo up w. ev_address dg message = Inr a \<and> ev_block message = Inr n \<and>
       ev_field message ''data'' = Inr d \<and> burn_fields dg message d = Inr (l, lo, up) \<and> l \<noteq> 0 \<and>
       enqueued_after dg message (Some (n - 1)) (liquidity_applied dg a n (- l, lo, up) w) s t)"
  by (rule liquidity_outcome [OF assms [unfolded process_burn_event_def]])
    (auto intro!: world_only_intros remove_pool_world_only)

lemma mint_outcome:
  assumes "process_mint_event dg message s = (r, t)"
  shows "world_only s t \<or>
    (\<exists>a n d l lo up w. ev_address dg message = Inr a \<and> ev_block message = Inr n \<and>
       ev_field message ''data'' = Inr d \<and> mint_fields dg message d = Inr (l, lo, up) \<and> l \<noteq> 0 \<and>
       enqueued_after dg message (Some (n - 1)) (liquidity_applied dg a n (l, lo, up) w) s t)"
  by (rule liquidity_outcome [OF assms [unfolded process_mint_event_def]])
    (auto intro!: world_only_intros)

end
