(* ===== verification/Event_Properties.thy ===== *)
theory Event_Properties
  imports Event_Correct
begin

text \<open>
  The properties of the event service, with a small instance of the third-party operations
  for their witnesses.
\<close>

section \<open>One message, and the whole subscription\<close>

lemma handle_message_cases:
  assumes "handle_message dg m s = (r, t)"
  shows "\<exists>s'. (s' = s \<or> (\<exists>b. get_attr ''first_event'' s = Inr JNull \<and> s' = set_attr ''first_event'' b s)) \<and>
           (t = s' \<or> (\<exists>d ev. loads dg d = Inr ev \<and> t = snd (handle_event dg ev s')))"
proof -
  let ?dispatch = "\<lambda>s'. t = s' \<or> (\<exists>d ev. loads dg d = Inr ev \<and> t = snd (handle_event dg ev s'))"
  have tail: "?dispatch s'" if "act_bind (act_lift (json_get m ''data'')) (\<lambda>d.
      if \<not> truthy d then act_return () else act_bind (act_lift (loads dg d)) (handle_event dg)) s' = (r, t)" for s'
    using that
    by (elim act_bind_lift_cases)
      (auto simp: act_return_def split: if_splits elim!: act_bind_lift_cases, metis snd_conv)
  show ?thesis
  proof (cases "get_attr ''first_event'' s")
    case (Inl e)
    with assms show ?thesis unfolding handle_message_def
      by (elim act_bind_lift_cases) (auto simp: act_bind_def act_return_def split: if_splits)
  next
    case (Inr fe)
    from assms show ?thesis unfolding handle_message_def
    proof (elim act_bind_lift_cases)
      fix ty
      let ?rest = "\<lambda>_. act_bind (act_lift (json_get m ''data'')) (\<lambda>d.
        if \<not> truthy d then act_return () else act_bind (act_lift (loads dg d)) (handle_event dg))"
      assume "(if ty \<noteq> JStr ''message'' then act_return () else
        act_bind (\<lambda>st. (get_attr ''first_event'' st, st)) (\<lambda>first_event. act_bind
          (if first_event = JNull
           then act_bind (act_lift (json_path m [''params'', ''result'', ''blockNumber'']))
                 (\<lambda>b. act_update (set_attr ''first_event'' b)) else act_return ()) ?rest)) s = (r, t)"
      then consider "t = s" | "act_bind
          (if fe = JNull
           then act_bind (act_lift (json_path m [''params'', ''result'', ''blockNumber'']))
                 (\<lambda>b. act_update (set_attr ''first_event'' b)) else act_return ()) ?rest s = (r, t)"
        using Inr by (auto simp: act_return_def act_bind_def split: if_splits)
      then show ?thesis
      proof cases
        case 2
        show ?thesis
        proof (cases "fe = JNull")
          case False
          with 2 have "?rest () s = (r, t)" by simp
          from tail [OF this] show ?thesis by blast
        next
          case True
          show ?thesis
          proof (cases "json_path m [''params'', ''result'', ''blockNumber'']")
            case (Inl e)
            with 2 True show ?thesis
              by (auto simp: act_raise_def act_bind_def act_lift_def simp del: json_path.simps)
          next
            case b: (Inr b)
            with 2 True have "?rest () (set_attr ''first_event'' b s) = (r, t)"
              by (simp del: json_path.simps)
            from tail [OF this] True Inr show ?thesis by blast
          qed
        qed
      qed blast
    qed blast
  qed
qed

text \<open>What the service may change while it handles messages.\<close>

definition message_frame :: "('p, 'm, 'w) bot_state \<Rightarrow> ('p, 'm, 'w) bot_state \<Rightarrow> bool" where
  "message_frame s t \<longleftrightarrow>
     all_arbs t = all_arbs s \<and> blacklists t = blacklists s \<and> pools_to_process t = pools_to_process s \<and>
     (\<forall>f m. map_of (pool_managers s) f = Some m \<longrightarrow> map_of (pool_managers t) f = Some m) \<and>
     (\<forall>k. k \<noteq> ''first_event'' \<longrightarrow> get_attr k t = get_attr k s) \<and>
     (\<forall>v. v \<noteq> JNull \<longrightarrow> get_attr ''first_event'' s = Inr v \<longrightarrow> get_attr ''first_event'' t = Inr v)"

lemma message_frame_trans: "message_frame s u \<Longrightarrow> message_frame u t \<Longrightarrow> message_frame s t"
  by (simp add: message_frame_def)

lemma event_message_frame: "event_frame s t \<Longrightarrow> message_frame s t"
  by (auto simp: event_frame_def message_frame_def get_attr_def map_le_def dom_def)

lemma handle_message_frame:
  assumes "handle_message dg m s = (r, t)"
  shows "message_frame s t \<and> (\<exists>xs. spawned t = spawned s @ xs \<and> length xs \<le> 1)"
proof -
  from handle_message_cases [OF assms] obtain s' where
    s': "s' = s \<or> (\<exists>b. get_attr ''first_event'' s = Inr JNull \<and> s' = set_attr ''first_event'' b s)"
    and t: "t = s' \<or> (\<exists>d ev. loads dg d = Inr ev \<and> t = snd (handle_event dg ev s'))" by blast
  from s' have 1: "message_frame s s'" "spawned s' = spawned s"
    by (auto simp: message_frame_def) (simp_all add: set_attr_def)
  from t have 2: "message_frame s' t \<and> (\<exists>xs. spawned t = spawned s' @ xs \<and> length xs \<le> 1)"
  proof
    assume "\<exists>d ev. loads dg d = Inr ev \<and> t = snd (handle_event dg ev s')"
    then obtain ev where t': "t = snd (handle_event dg ev s')" by blast
    obtain x where "handle_event dg ev s' = (x, t)" by (metis t' prod.collapse)
    from handled.handle_frame [OF this] handled.handle_spawned [OF this] show ?thesis
      by (auto intro: event_message_frame)
  qed (simp add: message_frame_def)
  with 1 show ?thesis by (auto intro: message_frame_trans)
qed

lemma process_uniswap_events_keeps:
  "message_frame s (process_uniswap_events dg ms s) \<and>
   (\<exists>xs. spawned (process_uniswap_events dg ms s) = spawned s @ xs \<and> length xs \<le> length ms)"
proof (induction ms arbitrary: s)
  case Nil
  then show ?case by (simp add: message_frame_def)
next
  case (Cons m ms)
  obtain r u where u: "handle_message dg m s = (r, u)" by (cases "handle_message dg m s")
  from handle_message_frame [OF u] obtain xs where
    1: "message_frame s u" "spawned u = spawned s @ xs" "length xs \<le> 1" by blast
  from Cons.IH [of u] obtain ys where
    2: "message_frame u (process_uniswap_events dg ms u)"
      "spawned (process_uniswap_events dg ms u) = spawned u @ ys" "length ys \<le> length ms" by blast
  consider "process_uniswap_events dg (m # ms) s = u"
    | "process_uniswap_events dg (m # ms) s = process_uniswap_events dg ms u"
    using u by (cases r; cases "is_Exception (projl r)") auto
  then show ?case
    using 1 2 message_frame_trans by cases (auto intro!: exI [of _ "xs @ ys"])
qed

section \<open>An instance for the witnesses\<close>

text \<open>
  Pools and managers are names, the world counts the calls that changed it. The manager
  \<open>''v2''\<close> knows one pool; every operation on a pool succeeds except for a burn above 50.
\<close>

definition demo_dg :: "(string, string, nat) degen" where
  "demo_dg = \<lparr>
     get_pool = (\<lambda>m a b w. if m = ''v2'' \<and> a = JStr ''0xa1'' then (Inr ''0xa1'', w) else (Inl ManagerError, w)),
     new_v2_manager = (\<lambda>a w. (Inr ''m'', w)), new_v3_manager = (\<lambda>a w. (Inl (OtherError ''rpc''), w)),
     del_pool = (\<lambda>m p w. (Inl KeyError, w)),
     liquidity_update = (\<lambda>p n c w. (if fst c < - 50 then Inl AssertionError else Inr (), Suc w)),
     swap_update = (\<lambda>p n u w. (Inr (), Suc w)),
     update_reserves = (\<lambda>p r0 r1 n w. (if n < 10 then Inl ExternalUpdateError else Inr (), Suc w)),
     update_snapshot = (\<lambda>a p w. (Inr (), Suc w)),
     to_checksum_address = (\<lambda>v. case v of JStr s \<Rightarrow> Inr s | _ \<Rightarrow> Inl TypeError),
     abi_decode = (\<lambda>ts bs. Inr (map (\<lambda>t. case t of ABI_address \<Rightarrow> VAddr ''0xb2'' | _ \<Rightarrow> VInt 7) ts)),
     keccak_text = (\<lambda>s. s), loads = Inr\<rparr>"

definition demo_state :: "(string, string, nat) bot_state" where
  "demo_state = \<lparr>attrs = [(''first_event'', JInt 5)], aggregators = JNull, all_arbs = [], blacklists = None,
     chain_data = JNull, factories = JNull, failed_transactions = {},
     pool_managers = [(JStr ''f2'', ''v2''), (JStr ''f3'', ''v3'')], pools_to_process = q_empty,
     routers = JNull, spawned = [], world = 0\<rparr>"

definition demo_event :: "string \<Rightarrow> string \<Rightarrow> json" where
  "demo_event address topic0 = JObj [(''params'', JObj [(''result'', JObj
     [(''address'', JStr address), (''blockNumber'', JStr ''0x10''), (''data'', JStr ''0x00''),
      (''topics'', JList [JStr topic0, JStr ''0x'', JStr ''0x01'', JStr ''0x02''])])])]"

lemmas demo_event_defs = demo_dg_def demo_state_def demo_event_def

lemma spawned_not_world_only: "spawned t \<noteq> spawned s \<Longrightarrow> t \<noteq> s\<lparr>world := world t\<rparr>"
  by (auto dest: arg_cong [of _ _ spawned])

section \<open>Properties\<close>

text \<open>
  C24: Whatever kind of event is handled and however it ends, the arbs, the blacklists, the
  queue, the attributes and every other part of the bot are as before, except that the world
  of the pools may differ, that managers may have been added (no stored one is replaced or
  removed), and that at most one task was created, for the address of the event itself.
\<close>

theorem event_handlers_keep_contract:
  assumes "process_func kind dg message s = (r, t)"
  shows "t = s\<lparr>pool_managers := pool_managers t, spawned := spawned t, world := world t\<rparr> \<and>
         map_of (pool_managers s) \<subseteq>\<^sub>m map_of (pool_managers t) \<and>
         (spawned t = spawned s \<or> (\<exists>a. ev_address dg message = Inr a \<and> spawned t = spawned s @ [a]))"
proof -
  have "event_frame s t" using assms by (rule dispatched.handle_frame)
  then have "t = s\<lparr>pool_managers := pool_managers t, spawned := spawned t, world := world t\<rparr>"
    and "map_of (pool_managers s) \<subseteq>\<^sub>m map_of (pool_managers t)"
    by (simp_all add: event_frame_def)
  then show ?thesis using dispatched.handle_spawned [OF assms] by blast
qed

lemma kept_parts:
  "t = s\<lparr>pool_managers := pool_managers t, spawned := spawned t, world := world t\<rparr> \<Longrightarrow>
     attrs t = attrs s \<and> all_arbs t = all_arbs s"
  by (metis bot_state.select_convs(1,3) bot_state.surjective bot_state.update_convs(8,11,12))

theorem event_handlers_keep_contract_witness:
  "\<exists>t. snd (process_func SyncEvent demo_dg (demo_event ''0xa1'' ''x'') demo_state) = t \<and> spawned t = [''0xa1''] \<and>
     attrs t = [(''first_event'', JInt 5)] \<and> map_of (pool_managers t) (JStr ''f2'') = Some ''v2''"
proof -
  obtain r t where r: "process_func SyncEvent demo_dg (demo_event ''0xa1'' ''x'') demo_state = (r, t)"
    by fastforce
  have "spawned (snd (process_func SyncEvent demo_dg (demo_event ''0xa1'' ''x'') demo_state)) \<noteq> []"
    and a: "ev_address demo_dg (demo_event ''0xa1'' ''x'') = Inr ''0xa1''"
    by code_simp+
  then have "spawned t \<noteq> spawned demo_state" using r by (simp add: demo_state_def)
  with event_handlers_keep_contract [OF r] a have t: "spawned t = spawned demo_state @ [''0xa1'']"
    "t = demo_state\<lparr>pool_managers := pool_managers t, spawned := spawned t, world := world t\<rparr>"
    "map_of (pool_managers demo_state) \<subseteq>\<^sub>m map_of (pool_managers t)" by auto
  from kept_parts [OF t(2)] have "attrs t = attrs demo_state" by blast
  moreover have "map_of (pool_managers t) (JStr ''f2'') = map_of (pool_managers demo_state) (JStr ''f2'')"
    using t(3) by (simp add: demo_state_def map_le_def)
  ultimately show ?thesis using t(1) r by (simp add: demo_state_def)
qed

text \<open>
  Over any run of the subscription, stored managers, stored arbs, blacklists and the queue
  stay, at most one task is created per message, and a \<open>first_event\<close> that was set stays.
\<close>

theorem subscription_frame:
  assumes "process_uniswap_events dg ms s = t"
  shows "(map_of (pool_managers s) f = Some m \<longrightarrow> map_of (pool_managers t) f = Some m) \<and>
         all_arbs t = all_arbs s \<and> blacklists t = blacklists s \<and>
         pools_to_process t = pools_to_process s \<and>
         (\<exists>xs. spawned t = spawned s @ xs \<and> length xs \<le> length ms) \<and>
         (v \<noteq> JNull \<longrightarrow> get_attr ''first_event'' s = Inr v \<longrightarrow> get_attr ''first_event'' t = Inr v)"
  using process_uniswap_events_keeps [of s dg ms] assms by (auto simp: message_frame_def)

definition demo_messages :: "json list" where
  "demo_messages = [JObj [(''type'', JStr ''subscribe''), (''data'', JInt 1)],
     JObj [(''type'', JStr ''message''), (''data'', demo_event ''0xa1'' ''Sync(uint112,uint112)'')],
     JObj [(''type'', JStr ''message''), (''data'', demo_event ''0xff'' ''Sync(uint112,uint112)'')]]"

theorem subscription_frame_witness:
  "map_of (pool_managers (process_uniswap_events demo_dg demo_messages demo_state)) (JStr ''f2'') = Some ''v2'' \<and>
   get_attr ''first_event'' (process_uniswap_events demo_dg demo_messages demo_state) = Inr (JInt 5)"
  using subscription_frame [OF refl, of demo_state "JStr ''f2''" "''v2''" demo_dg demo_messages "JInt 5"]
  by (simp add: demo_state_def get_attr_def)

text \<open>
  C14: A sync event enqueues its address only after a manager of the bot returned the pool for
  that address and the pool took the two reserves decoded from the event's data with the
  event's block; in every other case nothing but the world changes.
\<close>

theorem sync_enqueues_updated_pool:
  assumes "process_sync_event dg message s = (r, t)" and "t \<noteq> s\<lparr>world := world t\<rparr>"
  shows "\<exists>a m p n d vs r0 r1 w w'.
     ev_address dg message = Inr a \<and> m \<in> set (managers_of s) \<and> fst (get_pool dg m (JStr a) None w) = Inr p \<and>
     ev_block message = Inr n \<and> ev_field message ''data'' = Inr d \<and> sync_fields dg d = Inr vs \<and>
     unpack_reserves vs = Inr (r0, r1) \<and> update_reserves dg p r0 r1 n w' = (Inr (), world t) \<and>
     t = s\<lparr>spawned := spawned s @ [a], world := world t\<rparr>"
proof -
  from sync_outcome [OF assms(1)] assms(2) obtain n d vs r0 r1 w' where
    parts: "ev_block message = Inr n" "ev_field message ''data'' = Inr d" "sync_fields dg d = Inr vs"
      "unpack_reserves vs = Inr (r0, r1)"
    and enq: "enqueued_after dg message None (\<lambda>p w. update_reserves dg p r0 r1 n w' = (Inr (), w)) s t"
    unfolding world_only_def by blast
  from enq obtain a p m w w'' where "ev_address dg message = Inr a" "m \<in> set (managers_of s)"
    "get_pool dg m (JStr a) None w = (Inr p, w'')" "update_reserves dg p r0 r1 n w' = (Inr (), world t)"
    "t = s\<lparr>spawned := spawned s @ [a], world := world t\<rparr>"
    unfolding enqueued_after_def by blast
  moreover then have "fst (get_pool dg m (JStr a) None w) = Inr p" by simp
  ultimately show ?thesis using parts by blast
qed

theorem sync_enqueues_updated_pool_witness:
  "\<exists>m\<in>set (managers_of demo_state). \<exists>p w. fst (get_pool demo_dg m (JStr ''0xa1'') None w) = Inr p"
proof -
  define ev where "ev = demo_event ''0xa1'' ''Sync(uint112,uint112)''"
  obtain r t where r: "process_sync_event demo_dg ev demo_state = (r, t)"
    by (cases "process_sync_event demo_dg ev demo_state")
  have "spawned (snd (process_sync_event demo_dg ev demo_state)) \<noteq> spawned demo_state"
    unfolding ev_def by code_simp
  with r have "t \<noteq> demo_state\<lparr>world := world t\<rparr>" by (intro spawned_not_world_only) simp
  from sync_enqueues_updated_pool [OF r this] obtain a m p w where
    "ev_address demo_dg ev = Inr a" "m \<in> set (managers_of demo_state)" "fst (get_pool demo_dg m (JStr a) None w) = Inr p"
    by blast
  moreover have "ev_address demo_dg ev = Inr ''0xa1''" unfolding ev_def by code_simp
  ultimately show ?thesis by auto
qed

text \<open>
  C12: A burn event enqueues its address only after the pool took the negated, non-zero
  liquidity with the tick range of the event at the event's block, looked up at the block
  before, and the snapshot was updated from the pool.
\<close>

theorem burn_enqueues_updated_pool:
  assumes "process_burn_event dg message s = (r, t)" and "t \<noteq> s\<lparr>world := world t\<rparr>"
  shows "\<exists>a m p n d l lower upper w w1 w2.
     ev_address dg message = Inr a \<and> ev_block message = Inr n \<and> m \<in> set (managers_of s) \<and>
     fst (get_pool dg m (JStr a) (Some (n - 1)) w) = Inr p \<and>
     ev_field message ''data'' = Inr d \<and> burn_fields dg message d = Inr (l, lower, upper) \<and> l \<noteq> 0 \<and>
     liquidity_update dg p n (- l, lower, upper) w1 = (Inr (), w2) \<and>
     update_snapshot dg a p w2 = (Inr (), world t) \<and>
     t = s\<lparr>spawned := spawned s @ [a], world := world t\<rparr>"
proof -
  from burn_outcome [OF assms(1)] assms(2) obtain a n d l lo up w1 where
    parts: "ev_address dg message = Inr a" "ev_block message = Inr n" "ev_field message ''data'' = Inr d"
      "burn_fields dg message d = Inr (l, lo, up)" "l \<noteq> 0"
    and enq: "enqueued_after dg message (Some (n - 1)) (liquidity_applied dg a n (- l, lo, up) w1) s t"
    unfolding world_only_def by blast
  from enq parts(1) obtain m p w w' where m: "m \<in> set (managers_of s)"
    "get_pool dg m (JStr a) (Some (n - 1)) w = (Inr p, w')"
    and upd: "liquidity_applied dg a n (- l, lo, up) w1 p (world t)"
    and t: "t = s\<lparr>spawned := spawned s @ [a], world := world t\<rparr>"
    unfolding enqueued_after_def by auto
  from m(2) have "fst (get_pool dg m (JStr a) (Some (n - 1)) w) = Inr p" by simp
  with parts m(1) upd t show ?thesis unfolding liquidity_applied_def by blast
qed

theorem burn_enqueues_updated_pool_witness:
  "\<exists>p n w1 w2. liquidity_update demo_dg p n (- 7, 7, 7) w1 = (Inr (), w2)"
proof -
  define ev where "ev = demo_event ''0xa1'' ''Burn''"
  obtain r t where r: "process_burn_event demo_dg ev demo_state = (r, t)"
    by (cases "process_burn_event demo_dg ev demo_state")
  have "spawned (snd (process_burn_event demo_dg ev demo_state)) \<noteq> spawned demo_state"
    unfolding ev_def by code_simp
  with r have "t \<noteq> demo_state\<lparr>world := world t\<rparr>" by (intro spawned_not_world_only) simp
  from burn_enqueues_updated_pool [OF r this] obtain p n d l lo up w1 w2 where
    "ev_field ev ''data'' = Inr d" "burn_fields demo_dg ev d = Inr (l, lo, up)"
    "liquidity_update demo_dg p n (- l, lo, up) w1 = (Inr (), w2)" by blast
  moreover have "ev_field ev ''data'' = Inr (JStr ''0x00'')" unfolding ev_def by code_simp
  moreover have "burn_fields demo_dg ev (JStr ''0x00'') = Inr (7, 7, 7)" unfolding ev_def by code_simp
  ultimately show ?thesis by auto
qed

text \<open>
  C13: A mint event enqueues its address only after the pool took the event's non-zero
  liquidity, not negated, with the tick range of the event, and the snapshot was updated.
\<close>

theorem mint_enqueues_updated_pool:
  assumes "process_mint_event dg message s = (r, t)" and "t \<noteq> s\<lparr>world := world t\<rparr>"
  shows "\<exists>a m p n d l lower upper w w1 w2.
     ev_address dg message = Inr a \<and> ev_block message = Inr n \<and> m \<in> set (managers_of s) \<and>
     fst (get_pool dg m (JStr a) (Some (n - 1)) w) = Inr p \<and>
     ev_field message ''data'' = Inr d \<and> mint_fields dg message d = Inr (l, lower, upper) \<and> l \<noteq> 0 \<and>
     liquidity_update dg p n (l, lower, upper) w1 = (Inr (), w2) \<and>
     update_snapshot dg a p w2 = (Inr (), world t) \<and>
     t = s\<lparr>spawned := spawned s @ [a], world := world t\<rparr>"
proof -
  from mint_outcome [OF assms(1)] assms(2) obtain a n d l lo up w1 where
    parts: "ev_address dg message = Inr a" "ev_block message = Inr n" "ev_field message ''data'' = Inr d"
      "mint_fields dg message d = Inr (l, lo, up)" "l \<noteq> 0"
    and enq: "enqueued_after dg message (Some (n - 1)) (liquidity_applied dg a n (l, lo, up) w1) s t"
    unfolding world_only_def by blast
  from enq parts(1) obtain m p w w' where m: "m \<in> set (managers_of s)"
    "get_pool dg m (JStr a) (Some (n - 1)) w = (Inr p, w')"
    and upd: "liquidity_applied dg a n (l, lo, up) w1 p (world t)"
    and t: "t = s\<lparr>spawned := spawned s @ [a], world := world t\<rparr>"
    unfolding enqueued_after_def by auto
  from m(2) have "fst (get_pool dg m (JStr a) (Some (n - 1)) w) = Inr p" by simp
  with parts m(1) upd t show ?thesis unfolding liquidity_applied_def by blast
qed

theorem mint_enqueues_updated_pool_witness:
  "\<exists>p n w1 w2. liquidity_update demo_dg p n (7, 7, 7) w1 = (Inr (), w2)"
proof -
  define ev where "ev = demo_event ''0xa1'' ''Mint''"
  obtain r t where r: "process_mint_event demo_dg ev demo_state = (r, t)"
    by (cases "process_mint_event demo_dg ev demo_state")
  have "spawned (snd (process_mint_event demo_dg ev demo_state)) \<noteq> spawned demo_state"
    unfolding ev_def by code_simp
  with r have "t \<noteq> demo_state\<lparr>world := world t\<rparr>" by (intro spawned_not_world_only) simp
  from mint_enqueues_updated_pool [OF r this] obtain p n d l lo up w1 w2 where
    "ev_field ev ''data'' = Inr d" "mint_fields demo_dg ev d = Inr (l, lo, up)"
    "liquidity_update demo_dg p n (l, lo, up) w1 = (Inr (), w2)" by blast
  moreover have "ev_field ev ''data'' = Inr (JStr ''0x00'')" unfolding ev_def by code_simp
  moreover have "mint_fields demo_dg ev (JStr ''0x00'') = Inr (7, 7, 7)" unfolding ev_def by code_simp
  ultimately show ?thesis by auto
qed

text \<open>
  An update event for a pool that no manager knows is ignored: whatever the event says,
  nothing but the world of the managers that were asked may change.
\<close>

theorem unknown_pool_ignored:
  assumes "kind \<in> {SyncEvent, MintEvent, BurnEvent, SwapEvent}"
    and "ev_address dg message = Inr a"
    and "\<forall>m\<in>set (managers_of s). \<forall>b w. fst (get_pool dg m (JStr a) b w) = Inl ManagerError"
    and "process_func kind dg message s = (r, t)"
  shows "t = s\<lparr>world := world t\<rparr>"
proof -
  have none: "\<not> enqueued_after dg message b upd s t" for b upd
  proof
    assume "enqueued_after dg message b upd s t"
    then obtain p m w w' where "m \<in> set (managers_of s)" "get_pool dg m (JStr a) b w = (Inr p, w')"
      using assms(2) unfolding enqueued_after_def by auto
    moreover from this(1) assms(3) have "fst (get_pool dg m (JStr a) b w) = Inl ManagerError" by blast
    ultimately show False by simp
  qed
  from assms(1) consider "kind = SyncEvent" | "kind = MintEvent" | "kind = BurnEvent" | "kind = SwapEvent"
    by blast
  then have "world_only s t"
  proof cases
    case 1
    with assms(4) sync_outcome [of dg message s r t] none show ?thesis by auto
  next
    case 2
    with assms(4) mint_outcome [of dg message s r t] none show ?thesis by auto
  next
    case 3
    with assms(4) burn_outcome [of dg message s r t] none show ?thesis by auto
  next
    case 4
    with assms(4) swap_outcome [of dg message s r t] none show ?thesis by auto
  qed
  then show ?thesis by (simp add: world_only_def)
qed

theorem unknown_pool_ignored_witness:
  "spawned (snd (process_func SwapEvent demo_dg (demo_event ''0xff'' ''x'') demo_state)) = []"
proof -
  define ev where "ev = demo_event ''0xff'' ''x''"
  obtain r t where r: "process_func SwapEvent demo_dg ev demo_state = (r, t)"
    by (cases "process_func SwapEvent demo_dg ev demo_state")
  have a: "ev_address demo_dg ev = Inr ''0xff''" unfolding ev_def by code_simp
  have "t = demo_state\<lparr>world := world t\<rparr>"
    by (rule unknown_pool_ignored [OF _ a _ r]) (simp_all add: demo_dg_def)
  then have "spawned t = spawned demo_state" using spawned_not_world_only by blast
  with r show ?thesis by (simp add: ev_def demo_state_def)
qed

text \<open>
  When the hashes of the six event signatures differ, a first topic selects a handler
  exactly when it is the hash of that handler's signature.
\<close>

theorem topic_selects_handler:
  assumes "inj_on (keccak_text dg) (fst ` set event_signatures)"
  shows "lookup_event dg (JStr topic0) = Inr kind \<longleftrightarrow>
           (\<exists>sig. (sig, kind) \<in> set event_signatures \<and> keccak_text dg sig = topic0)"
proof -
  have distinct: "distinct (map (\<lambda>x. keccak_text dg (fst x)) event_signatures)"
    using assms by (simp add: distinct_map comp_inj_on_iff [symmetric] event_signatures_def inj_on_def)
  have "map_of (EVENTS dg) topic0 = Some kind \<longleftrightarrow>
      (\<exists>x\<in>set event_signatures. keccak_text dg (fst x) = topic0 \<and> snd x = kind)"
  proof
    assume "map_of (EVENTS dg) topic0 = Some kind"
    from dict_fill_some [OF this [unfolded EVENTS_def]]
    show "\<exists>x\<in>set event_signatures. keccak_text dg (fst x) = topic0 \<and> snd x = kind"
      by (auto simp: case_prod_beta)
  next
    assume "\<exists>x\<in>set event_signatures. keccak_text dg (fst x) = topic0 \<and> snd x = kind"
    then obtain x where x: "x \<in> set event_signatures" "keccak_text dg (fst x) = topic0" "snd x = kind" by blast
    then have "topic0 \<in> (\<lambda>x. keccak_text dg (fst x)) ` set event_signatures"
      by (intro image_eqI [of _ _ x]) simp_all
    from dict_fill_ex [OF this, of snd "[]"] obtain y where y: "y \<in> set event_signatures"
      "keccak_text dg (fst y) = topic0" "map_of (EVENTS dg) topic0 = Some (snd y)"
      unfolding EVENTS_def by blast
    with x distinct have "x = y" by (auto simp: distinct_map inj_on_def)
    with x y show "map_of (EVENTS dg) topic0 = Some kind" by simp
  qed
  then show ?thesis by force
qed

theorem topic_selects_handler_witness:
  "lookup_event demo_dg (JStr ''Sync(uint112,uint112)'') = Inr SyncEvent"
proof -
  have "inj_on (keccak_text demo_dg) (fst ` set event_signatures)" by (simp add: demo_dg_def)
  from topic_selects_handler [OF this, of "''Sync(uint112,uint112)''" SyncEvent] show ?thesis
    by (simp add: event_signatures_def demo_dg_def)
qed

text \<open>
  C27: While \<open>first_event\<close> is unset the service handles no event: the messages of a Redis
  subscription have no entry \<open>params\<close>, so each one of type \<open>message\<close> raises \<open>KeyError\<close>
  before its data is read, and each one of another type is passed over without an error; both
  leave the state as it is, and the state after any number of them is the state before.
\<close>

theorem unset_first_event_stalls:
  assumes "get_attr ''first_event'' s = Inr JNull"
    and "\<forall>m\<in>set ms. \<exists>kvs ty. m = JObj kvs \<and> map_of kvs ''type'' = Some ty \<and> map_of kvs ''params'' = None"
  shows "process_uniswap_events dg ms s = s \<and>
     map (\<lambda>m. handle_message dg m s) ms =
     map (\<lambda>m. (if json_key m ''type'' = Inr (JStr ''message'') then Inl KeyError else Inr (), s)) ms"
  using assms(2)
proof (induction ms)
  case (Cons m ms)
  then obtain kvs ty where m: "m = JObj kvs" "map_of kvs ''type'' = Some ty" "map_of kvs ''params'' = None" by auto
  have "handle_message dg m s = (if json_key m ''type'' = Inr (JStr ''message'') then Inl KeyError else Inr (), s)"
    using m assms(1) by (simp add: handle_message_def dict_index_def act_bind_def act_lift_def act_raise_def act_return_def)
  with Cons show ?case by (simp add: is_Exception_def)
qed simp

theorem unset_first_event_stalls_witness:
  "process_uniswap_events demo_dg demo_messages (set_attr ''first_event'' JNull demo_state) =
     set_attr ''first_event'' JNull demo_state \<and>
   map (\<lambda>m. fst (handle_message demo_dg m (set_attr ''first_event'' JNull demo_state))) demo_messages =
     [Inr (), Inl KeyError, Inl KeyError]"
proof -
  let ?s = "set_attr ''first_event'' JNull demo_state"
  have "get_attr ''first_event'' ?s = Inr JNull" by simp
  moreover have "\<forall>m\<in>set demo_messages. \<exists>kvs ty. m = JObj kvs \<and> map_of kvs ''type'' = Some ty \<and> map_of kvs ''params'' = None"
    by (simp add: demo_messages_def)
  ultimately show ?thesis
    using unset_first_event_stalls [of ?s demo_messages demo_dg] by (simp add: demo_messages_def dict_index_def)
qed

text \<open>An event without topics raises: the lookup that would ignore it is not reached.\<close>

lemma anonymous_event_raises:
  "ev_field event ''blockNumber'' = Inr b \<Longrightarrow> ev_field event ''topics'' = Inr (JList []) \<Longrightarrow>
     handle_event dg event s = (Inl IndexError, s)"
  by (simp add: handle_event_def act_raise_def)

end
