(* ===== verification/Event_Loop.thy ===== *)
theory Event_Loop
  imports Arbitrage Event_Properties
begin

text \<open>
  The asyncio event loop around the queue of pool addresses: the event service handles
  messages and creates put tasks, the loop runs a put task, and
  \<open>ArbitrageService.find_onchain_arbs\<close> takes an address, creates the evaluation task of the
  affected arbs and marks the address done. Between two awaits that really wait a coroutine
  runs undisturbed, so each of the three is one step; their interleaving is free.
\<close>

text \<open>A bot together with the arguments of the \<open>process_onchain_arbs\<close> tasks it created.\<close>

record ('p, 'm, 'w) loop_state =
  core :: "('p, 'm, 'w) bot_state"
  evals :: "'p lp_cycle list list"

section \<open>The steps\<close>

text \<open>The oldest put task runs; the queue is unbounded, so the put does not wait.\<close>

definition run_put :: "('p, 'm, 'w) bot_state \<Rightarrow> ('p, 'm, 'w) bot_state option" where
  "run_put st = (case spawned st of [] \<Rightarrow> None
     | a # as \<Rightarrow> Some (st\<lparr>spawned := as, pools_to_process := q_put a (pools_to_process st)\<rparr>))"

text \<open>
  One iteration of \<open>find_onchain_arbs\<close>: \<open>None\<close> while \<open>get\<close> waits, otherwise the address
  taken, how the iteration ended, and the state. \<open>task_done\<close> stands in the \<open>finally\<close> block:
  an exception of its own leaves the loop.
\<close>

definition find_onchain_step ::
  "('p \<Rightarrow> string) \<Rightarrow> ('p, 'm, 'w) loop_state \<Rightarrow> (string \<times> unit res \<times> ('p, 'm, 'w) loop_state) option" where
  "find_onchain_step addr ls =
     (case q_get (pools_to_process (core ls)) of
        None \<Rightarrow> None
      | Some (pool_address, q) \<Rightarrow>
          let affected_arbs = find_affected_arbs addr (all_arbs (core ls)) pool_address;
              ls' = ls\<lparr>evals := (if affected_arbs = [] then evals ls else evals ls @ [affected_arbs])\<rparr>
          in Some (case q_task_done q of
               Inl e \<Rightarrow> (pool_address, Inl e, ls'\<lparr>core := (core ls')\<lparr>pools_to_process := q\<rparr>\<rparr>)
             | Inr q' \<Rightarrow> (pool_address, Inr (), ls'\<lparr>core := (core ls')\<lparr>pools_to_process := q'\<rparr>\<rparr>)))"

text \<open>
  The task is cancelled while it waits in \<open>get\<close>: \<open>CancelledError\<close> is no \<open>Exception\<close>, but the
  \<open>finally\<close> block still calls \<open>task_done\<close>, whose exception would replace it.
\<close>

definition find_onchain_cancelled ::
  "('p, 'm, 'w) bot_state \<Rightarrow> unit res \<times> ('p, 'm, 'w) bot_state" where
  "find_onchain_cancelled st =
     (case q_task_done (pools_to_process st) of
        Inl e \<Rightarrow> (Inl e, st)
      | Inr q \<Rightarrow> (Inl CancelledError, st\<lparr>pools_to_process := q\<rparr>))"

section \<open>Runs\<close>

text \<open>
  \<open>loop_run dg addr s taken created t\<close>: some interleaving leads from \<open>s\<close> to \<open>t\<close>, in which
  the consumer took the addresses \<open>taken\<close> and the handlers created put tasks for \<open>created\<close>.
\<close>

inductive loop_run ::
  "('p, 'm, 'w) degen \<Rightarrow> ('p \<Rightarrow> string) \<Rightarrow> ('p, 'm, 'w) loop_state \<Rightarrow> string list \<Rightarrow> string list \<Rightarrow>
     ('p, 'm, 'w) loop_state \<Rightarrow> bool"
  for dg addr s where
  start: "loop_run dg addr s [] [] s"
| receive: "loop_run dg addr s taken created t \<Longrightarrow> handle_message dg m (core t) = (r, b) \<Longrightarrow>
     spawned b = spawned (core t) @ new \<Longrightarrow> loop_run dg addr s taken (created @ new) (t\<lparr>core := b\<rparr>)"
| put: "loop_run dg addr s taken created t \<Longrightarrow> run_put (core t) = Some b \<Longrightarrow>
     loop_run dg addr s taken created (t\<lparr>core := b\<rparr>)"
| take_one: "loop_run dg addr s taken created t \<Longrightarrow> find_onchain_step addr t = Some (a, Inr (), u) \<Longrightarrow>
     loop_run dg addr s (taken @ [a]) created u"

definition queue_balanced :: "('p, 'm, 'w) bot_state \<Rightarrow> bool" where
  "queue_balanced st \<longleftrightarrow> unfinished (pools_to_process st) = length (items (pools_to_process st))"

lemma run_put_Some:
  assumes "run_put st = Some b"
  shows "items (pools_to_process b) @ spawned b = items (pools_to_process st) @ spawned st"
    and "all_arbs b = all_arbs st" and "queue_balanced st \<Longrightarrow> queue_balanced b"
  using assms
  by (auto simp: run_put_def pq.contents_put pq.pending_put queue_balanced_def split: list.splits)

lemma find_onchain_step_Some:
  assumes "find_onchain_step addr t = Some (a, Inr (), u)"
  shows "items (pools_to_process (core t)) = a # items (pools_to_process (core u))"
    and "spawned (core u) = spawned (core t)" and "all_arbs (core u) = all_arbs (core t)"
    and "evals u = evals t @ filter (\<lambda>cs. cs \<noteq> []) [find_affected_arbs addr (all_arbs (core t)) a]"
    and "queue_balanced (core t) \<Longrightarrow> queue_balanced (core u)"
  using assms
  by (auto simp: find_onchain_step_def Let_def q_get_def q_task_done_def queue_balanced_def
      split: option.splits list.splits sum.splits if_splits)

lemma handle_message_queue:
  "handle_message dg m s = (r, t) \<Longrightarrow> pools_to_process t = pools_to_process s \<and> all_arbs t = all_arbs s"
  using handle_message_frame [of dg m s r t] by (auto simp: message_frame_def)

lemma loop_run_invariant:
  assumes "loop_run dg addr s taken created t" and "queue_balanced (core s)"
  shows "taken @ items (pools_to_process (core t)) @ spawned (core t) =
           items (pools_to_process (core s)) @ spawned (core s) @ created \<and>
         all_arbs (core t) = all_arbs (core s) \<and> queue_balanced (core t) \<and>
         evals t = evals s @ filter (\<lambda>cs. cs \<noteq> []) (map (find_affected_arbs addr (all_arbs (core s))) taken)"
  using assms
proof (induction rule: loop_run.induct)
  case (receive taken created t m r b new)
  then show ?case using handle_message_queue [OF receive.hyps(2)] by (auto simp: queue_balanced_def)
next
  case (put taken created t b)
  then show ?case using run_put_Some [OF put.hyps(2)] by simp
next
  case (take_one taken created t a u)
  then show ?case using find_onchain_step_Some [OF take_one.hyps(2)] by auto
qed auto

section \<open>Draining\<close>

lemma find_onchain_step_balanced:
  assumes "queue_balanced (core t)" and "items (pools_to_process (core t)) = a # as"
  shows "\<exists>u. find_onchain_step addr t = Some (a, Inr (), u)"
proof -
  obtain q where q: "q_get (pools_to_process (core t)) = Some (a, q)"
    using assms(2) by (simp add: q_get_def)
  have "length (items (pools_to_process (core t))) \<le> unfinished (pools_to_process (core t))"
    using assms(1) by (simp add: queue_balanced_def)
  from pq.get_then_finish [OF this q] obtain q' where "q_task_done q = Inr q'" by blast
  with q show ?thesis by (simp add: find_onchain_step_def Let_def)
qed

lemma loop_run_drains:
  assumes "loop_run dg addr s taken created t" and "queue_balanced (core t)"
  shows "\<exists>more u. loop_run dg addr s (taken @ more) created u \<and>
           items (pools_to_process (core u)) = [] \<and> spawned (core u) = []"
  using assms
proof (induction "2 * length (spawned (core t)) + length (items (pools_to_process (core t)))"
    arbitrary: taken t rule: less_induct)
  case less
  consider a as where "items (pools_to_process (core t)) = a # as"
    | a as where "items (pools_to_process (core t)) = []" "spawned (core t) = a # as"
    | "items (pools_to_process (core t)) = []" "spawned (core t) = []"
    by (metis neq_Nil_conv)
  then show ?case
  proof cases
    case 1
    from find_onchain_step_balanced [OF less.prems(2) 1] obtain u where
      u: "find_onchain_step addr t = Some (a, Inr (), u)" by blast
    note run = loop_run.take_one [OF less.prems(1) u]
    have "\<exists>more v. loop_run dg addr s ((taken @ [a]) @ more) created v \<and>
        items (pools_to_process (core v)) = [] \<and> spawned (core v) = []"
      using find_onchain_step_Some [OF u] less.prems(2) run by (intro less.hyps) auto
    then show ?thesis by (metis append_assoc)
  next
    case 2
    then obtain b where b: "run_put (core t) = Some b" by (simp add: run_put_def)
    note run = loop_run.put [OF less.prems(1) b]
    have "length (items (pools_to_process b)) = 1" "length (spawned b) = length as"
      using b 2 by (auto simp: run_put_def pq.contents_put)
    then show ?thesis
      using run_put_Some [OF b] less.prems(2) run 2
      by (intro less.hyps [of "t\<lparr>core := b\<rparr>" taken]) auto
  next
    case 3
    with less.prems(1) show ?thesis by (intro exI [of _ "[]"] exI [of _ t]) simp
  qed
qed

section \<open>An instance for the witnesses\<close>

definition demo_loop_arbs :: "(json, string arb_details) dict" where
  "demo_loop_arbs = [(JStr ''x'', \<lparr>lp_cycle = \<lparr>arb_id = JStr ''x'', input_token = ''weth'',
     swap_pools = [''0xa1'', ''0xb2''], max_input = 10\<rparr>, status = ''load''\<rparr>)]"

definition demo_core :: "string list \<Rightarrow> string list \<Rightarrow> nat \<Rightarrow> (string, string, nat) bot_state" where
  "demo_core tasks queued w = demo_state\<lparr>all_arbs := demo_loop_arbs, spawned := tasks,
     pools_to_process := \<lparr>items = queued, unfinished = length queued\<rparr>, world := w\<rparr>"

definition demo_loop :: "(string, string, nat) loop_state" where
  "demo_loop = \<lparr>core = demo_core [] [] 0, evals = []\<rparr>"

lemmas demo_loop_defs = demo_loop_arbs_def demo_core_def demo_loop_def

lemma demo_received: "handle_message demo_dg (demo_messages ! 1) (core demo_loop) = (Inr (), demo_core [''0xa1''] [] 1)"
  by code_simp

lemma demo_put: "run_put (demo_core [''0xa1''] [] 1) = Some (demo_core [] [''0xa1''] 1)"
  by code_simp

lemma demo_taken: "find_onchain_step (\<lambda>p. p) (demo_loop\<lparr>core := demo_core [] [''0xa1''] 1\<rparr>) =
    Some (''0xa1'', Inr (), \<lparr>core = demo_core [] [] 1, evals = [[lp_cycle (snd (hd demo_loop_arbs))]]\<rparr>)"
  by code_simp

lemma demo_run:
  "loop_run demo_dg (\<lambda>p. p) demo_loop [''0xa1''] [''0xa1'']
     \<lparr>core = demo_core [] [] 1, evals = [[lp_cycle (snd (hd demo_loop_arbs))]]\<rparr>"
proof -
  have "loop_run demo_dg (\<lambda>p. p) demo_loop [] [''0xa1''] (demo_loop\<lparr>core := demo_core [''0xa1''] [] 1\<rparr>)"
    using loop_run.receive [OF loop_run.start demo_received, of "[''0xa1'']"]
    by (simp add: demo_loop_defs)
  then have "loop_run demo_dg (\<lambda>p. p) demo_loop [] [''0xa1''] (demo_loop\<lparr>core := demo_core [] [''0xa1''] 1\<rparr>)"
    using loop_run.put [of demo_dg "\<lambda>p. p" demo_loop "[]" "[''0xa1'']" "demo_loop\<lparr>core := demo_core [''0xa1''] [] 1\<rparr>"]
      demo_put by simp
  from loop_run.take_one [OF this demo_taken] show ?thesis by simp
qed

lemma demo_balanced: "queue_balanced (core demo_loop)"
  by (simp add: demo_loop_defs queue_balanced_def)

section \<open>Properties\<close>

text \<open>
  C5: Under every interleaving, the addresses the arbitrage service has taken, those in the
  queue and those of put tasks that have not run are, in this order, the addresses enqueued
  at the start followed by those the handlers created: none is lost, doubled or overtaken.
\<close>

theorem addresses_processed_in_order:
  assumes "loop_run dg addr s taken created t" and "queue_balanced (core s)"
  shows "taken @ items (pools_to_process (core t)) @ spawned (core t) =
           items (pools_to_process (core s)) @ spawned (core s) @ created"
  using loop_run_invariant [OF assms] by blast

theorem addresses_processed_in_order_witness:
  "[''0xa1''] @ items (pools_to_process (demo_core [] [] 1)) @ spawned (demo_core [] [] 1) = [''0xa1'']"
  using addresses_processed_in_order [OF demo_run demo_balanced] by (simp add: demo_loop_defs)

text \<open>
  C19: The evaluation tasks created are those of the taken addresses that affect some arb, in
  the order of the addresses, each for exactly the arbs that the stored arbs give for it: the
  handlers that run in between do not change them.
\<close>

theorem evaluations_match_addresses:
  assumes "loop_run dg addr s taken created t" and "queue_balanced (core s)"
  shows "evals t = evals s @ [cs \<leftarrow> map (find_affected_arbs addr (all_arbs (core s))) taken. cs \<noteq> []]"
  using loop_run_invariant [OF assms] by blast

theorem evaluations_match_addresses_witness:
  "[[lp_cycle (snd (hd demo_loop_arbs))]] =
     [cs \<leftarrow> map (find_affected_arbs (\<lambda>p. p) demo_loop_arbs) [''0xa1'']. cs \<noteq> []]"
  using evaluations_match_addresses [OF demo_run demo_balanced] by (simp add: demo_loop_def demo_core_def)

text \<open>
  C23: From every state a run can reach, some continuation in which no further message arrives
  takes every address that was enqueued, in order: nothing stays stuck in a task or the queue.
\<close>

theorem addresses_eventually_taken:
  assumes "loop_run dg addr s taken created t" and "queue_balanced (core s)"
  shows "\<exists>u. loop_run dg addr s (items (pools_to_process (core s)) @ spawned (core s) @ created) created u \<and>
             items (pools_to_process (core u)) = [] \<and> spawned (core u) = []"
proof -
  have "queue_balanced (core t)" using loop_run_invariant [OF assms] by blast
  from loop_run_drains [OF assms(1) this] obtain more u where
    u: "loop_run dg addr s (taken @ more) created u" "items (pools_to_process (core u)) = []" "spawned (core u) = []"
    by blast
  from loop_run_invariant [OF u(1) assms(2)] u(2,3)
  have "taken @ more = items (pools_to_process (core s)) @ spawned (core s) @ created" by simp
  with u show ?thesis by auto
qed

theorem addresses_eventually_taken_witness:
  "\<exists>u. loop_run demo_dg (\<lambda>p. p) demo_loop [''0xa1''] [''0xa1''] u \<and> spawned (core u) = []"
  using addresses_eventually_taken [OF demo_run demo_balanced] by (auto simp: demo_loop_defs)

text \<open>
  C28: In every state a run can reach, cancelling the consumer while it waits for an address
  does not end it with \<open>CancelledError\<close>: \<open>task_done\<close> in the \<open>finally\<close> block raises
  \<open>ValueError\<close>, because every address taken was already marked done.
\<close>

theorem cancelled_consumer_raises_ValueError:
  assumes "loop_run dg addr s taken created t" and "queue_balanced (core s)"
    and "find_onchain_step addr t = None"
  shows "find_onchain_cancelled (core t) = (Inl ValueError, core t)"
proof -
  from assms(3) have "items (pools_to_process (core t)) = []"
    by (auto simp: find_onchain_step_def q_get_def Let_def split: list.splits option.splits)
  with loop_run_invariant [OF assms(1,2)] have "unfinished (pools_to_process (core t)) = 0"
    by (simp add: queue_balanced_def)
  then show ?thesis by (simp add: find_onchain_cancelled_def)
qed

theorem cancelled_consumer_raises_ValueError_witness:
  "find_onchain_cancelled (demo_core [] [] 1) = (Inl ValueError, demo_core [] [] 1)"
  using cancelled_consumer_raises_ValueError [OF demo_run demo_balanced]
  by (simp add: find_onchain_step_def q_get_def demo_core_def)

end
