(* ===== verification/Py_Files.thy ===== *)
theory Py_Files
  imports CB_Prelude
begin

text \<open>
  The part of the file system the sources use: JSON documents that are read whole and written
  whole. Paths are lists of components. Parsing and printing JSON text is \<open>ujson\<close>'s and enters
  as the record \<open>json_codec\<close>. Storing documents is a locale, interpreted on these files.
\<close>

datatype fs_node = Dir | File string

type_synonym path = "string list"

type_synonym file_system = "(path, fs_node) dict"

record json_codec =
  u_loads :: "string \<Rightarrow> json res"
  u_dumps :: "json \<Rightarrow> string res"

section \<open>Operations\<close>

text \<open>\<open>Path.exists\<close>, and \<open>open(p, "r")\<close> followed by \<open>ujson.load\<close>.\<close>

definition path_exists :: "file_system \<Rightarrow> path \<Rightarrow> bool" where
  "path_exists fs p \<longleftrightarrow> map_of fs p \<noteq> None"

definition read_json :: "json_codec \<Rightarrow> file_system \<Rightarrow> path \<Rightarrow> json res" where
  "read_json c fs p =
     (case map_of fs p of
        None \<Rightarrow> Inl FileNotFoundError
      | Some Dir \<Rightarrow> Inl (OtherError ''IsADirectoryError'')
      | Some (File text) \<Rightarrow> u_loads c text)"

text \<open>
  \<open>open(p, "w")\<close> needs the parent directory and empties the file; \<open>ujson.dump\<close> encodes the
  whole value before it writes, so a value it cannot encode leaves the file empty.
\<close>

definition write_json :: "json_codec \<Rightarrow> path \<Rightarrow> json \<Rightarrow> file_system \<Rightarrow> unit res \<times> file_system" where
  "write_json c p v fs =
     (if map_of fs (butlast p) \<noteq> Some Dir then (Inl FileNotFoundError, fs)
      else if map_of fs p = Some Dir then (Inl (OtherError ''IsADirectoryError''), fs)
      else case u_dumps c v of
        Inl e \<Rightarrow> (Inl e, AList.update p (File []) fs)
      | Inr text \<Rightarrow> (Inr (), AList.update p (File text) fs))"

text \<open>\<open>p.mkdir(exist_ok=True)\<close>\<close>

definition mkdir :: "path \<Rightarrow> file_system \<Rightarrow> unit res \<times> file_system" where
  "mkdir p fs =
     (case map_of fs p of
        Some Dir \<Rightarrow> (Inr (), fs)
      | Some (File _) \<Rightarrow> (Inl (OtherError ''FileExistsError''), fs)
      | None \<Rightarrow> if map_of fs (butlast p) = Some Dir then (Inr (), AList.update p Dir fs)
               else (Inl FileNotFoundError, fs))"

section \<open>Documents that can be read back\<close>

definition writable :: "file_system \<Rightarrow> path \<Rightarrow> bool" where
  "writable fs p \<longleftrightarrow> map_of fs (butlast p) = Some Dir \<and> map_of fs p \<noteq> Some Dir"

text \<open>The value survives printing and parsing.\<close>

definition json_faithful :: "json_codec \<Rightarrow> json \<Rightarrow> bool" where
  "json_faithful c v \<longleftrightarrow> (\<exists>text. u_dumps c v = Inr text \<and> u_loads c text = Inr v)"

locale document_store =
  fixes read :: "'s \<Rightarrow> 'p \<Rightarrow> 'v res"
    and save :: "'p \<Rightarrow> 'v \<Rightarrow> 's \<Rightarrow> unit res \<times> 's"
    and stored :: "'s \<Rightarrow> 'p \<Rightarrow> bool"
    and open_for :: "'s \<Rightarrow> 'p \<Rightarrow> bool"
    and good :: "'v \<Rightarrow> bool"
  assumes write_ok: "open_for s p \<Longrightarrow> good v \<Longrightarrow> fst (save p v s) = Inr ()"
    and read_written: "fst (save p v s) = Inr () \<Longrightarrow> good v \<Longrightarrow> read (snd (save p v s)) p = Inr v"
    and read_other: "q \<noteq> p \<Longrightarrow> read (snd (save p v s)) q = read s q"
    and stored_written: "fst (save p v s) = Inr () \<Longrightarrow> stored (snd (save p v s)) p"
    and stored_other: "q \<noteq> p \<Longrightarrow> stored (snd (save p v s)) q = stored s q"
    and open_written: "open_for s q \<Longrightarrow> open_for (snd (save p v s)) q"
begin

text \<open>Loading with a default for a document that is not there, as the callers do.\<close>

definition fetch :: "'v \<Rightarrow> 's \<Rightarrow> 'p \<Rightarrow> 'v res" where
  "fetch dflt s p = (if stored s p then read s p else Inr dflt)"

lemma fetch_written:
  "fst (save p v s) = Inr () \<Longrightarrow> good v \<Longrightarrow> fetch dflt (snd (save p v s)) p = Inr v"
  by (simp add: fetch_def read_written stored_written)

lemma fetch_other: "q \<noteq> p \<Longrightarrow> fetch dflt (snd (save p v s)) q = fetch dflt s q"
  by (simp add: fetch_def read_other stored_other)

text \<open>A sequence of writes leaves in every document the last value written there.\<close>

lemma fetch_writes:
  assumes "\<And>p v. (p, v) \<in> set ws \<Longrightarrow> open_for s p \<and> good v"
  shows "fetch dflt (fold (\<lambda>(p, v) s. snd (save p v s)) ws s) q =
           (case map_of (rev ws) q of None \<Rightarrow> fetch dflt s q | Some v \<Rightarrow> Inr v)"
  using assms
proof (induction ws rule: rev_induct)
  case (snoc w ws)
  obtain p v where w: "w = (p, v)" by (cases w)
  let ?s = "fold (\<lambda>(p, v) s. snd (save p v s)) ws s"
  have "open_for (fold (\<lambda>(p, v) s. snd (save p v s)) us t) x" if "open_for t x" for us t x
    using that by (induction us arbitrary: t) (auto simp: open_written)
  with snoc.prems [of p v] w have "fst (save p v ?s) = Inr ()" and "good v" by (auto intro: write_ok)
  with snoc w show ?case by (cases "q = p") (auto simp: fetch_written fetch_other)
qed simp

end

lemma butlast_neq: "p = [] \<or> butlast p \<noteq> p"
  by (cases p rule: rev_cases) auto

interpretation files: document_store "read_json c" "write_json c" path_exists writable "json_faithful c"
proof unfold_locales
  fix s p v q
  show "writable s p \<Longrightarrow> json_faithful c v \<Longrightarrow> fst (write_json c p v s) = Inr ()"
    by (auto simp: writable_def json_faithful_def write_json_def)
  show "fst (write_json c p v s) = Inr () \<Longrightarrow> json_faithful c v \<Longrightarrow>
          read_json c (snd (write_json c p v s)) p = Inr v"
    by (auto simp: write_json_def read_json_def json_faithful_def update_conv split: if_splits)
  show "q \<noteq> p \<Longrightarrow> read_json c (snd (write_json c p v s)) q = read_json c s q"
    by (auto simp: write_json_def read_json_def update_conv split: sum.split)
  show "fst (write_json c p v s) = Inr () \<Longrightarrow> path_exists (snd (write_json c p v s)) p"
    by (auto simp: write_json_def path_exists_def update_conv split: sum.splits if_splits)
  show "q \<noteq> p \<Longrightarrow> path_exists (snd (write_json c p v s)) q = path_exists s q"
    by (auto simp: write_json_def path_exists_def update_conv split: sum.split)
  show "writable s q \<Longrightarrow> writable (snd (write_json c p v s)) q"
    by (auto simp: write_json_def writable_def update_conv split: sum.split)
qed

lemma write_json_keeps_dirs: "map_of fs d = Some Dir \<Longrightarrow> map_of (snd (write_json c p v fs)) d = Some Dir"
  by (auto simp: write_json_def update_conv split: sum.split)

text \<open>What the codec writes it reads back.\<close>

definition reads_back :: "json_codec \<Rightarrow> bool" where
  "reads_back c \<longleftrightarrow> (\<forall>kvs t. u_dumps c (JObj kvs) = Inr t \<longrightarrow> u_loads c t = Inr (JObj kvs))"

lemma written_back:
  assumes "reads_back c" and "write_json c p (JObj kvs) fs = (Inr (), fs')"
  shows "read_json c fs' p = Inr (JObj kvs)"
  using assms by (auto simp: write_json_def read_json_def reads_back_def update_conv split: if_splits sum.splits)

lemma write_other: "write_json c p v fs = (r, fs') \<Longrightarrow> q \<noteq> p \<Longrightarrow> read_json c fs' q = read_json c fs q"
  using files.read_other [of q p c v fs] by (metis snd_conv)

lemma mkdir_other: "mkdir p fs = (r, fs') \<Longrightarrow> q \<noteq> p \<Longrightarrow> read_json c fs' q = read_json c fs q"
  by (auto simp: mkdir_def read_json_def update_conv split: option.splits fs_node.splits if_splits)

section \<open>A codec for lists of strings\<close>

text \<open>
  A printer and parser that keep every list of strings, against which properties that assume a
  faithful codec are instantiated: \<open>c\<close> announces a character, a dot ends a string.
\<close>

definition demo_text :: "string list \<Rightarrow> string" where
  "demo_text xs = concat (map (\<lambda>s. concat (map (\<lambda>x. [CHR ''c'', x]) s) @ ''.'') xs)"

fun demo_parse :: "string \<Rightarrow> string \<Rightarrow> string list" where
  "demo_parse acc (a # b # s) =
     (if a = CHR ''.'' then acc # demo_parse [] (b # s) else demo_parse (acc @ [b]) s)"
| "demo_parse acc [a] = [acc]"
| "demo_parse acc [] = []"

definition demo_codec :: json_codec where
  "demo_codec = \<lparr>u_loads = (\<lambda>t. Inr (JList (map JStr (demo_parse [] t)))),
     u_dumps = (\<lambda>v. case v of
        JList vs \<Rightarrow> Inr (demo_text (map (\<lambda>x. case x of JStr s \<Rightarrow> s | _ \<Rightarrow> []) vs))
      | _ \<Rightarrow> Inl (OtherError ''OverflowError''))\<rparr>"

lemma demo_parse_string:
  "demo_parse acc (concat (map (\<lambda>x. [CHR ''c'', x]) s) @ CHR ''.'' # t) = (acc @ s) # demo_parse [] t"
proof (induction s arbitrary: acc)
  case Nil
  then show ?case by (cases t) simp_all
qed simp

lemma demo_parse_text: "demo_parse [] (demo_text xs) = xs"
proof (induction xs)
  case (Cons x xs)
  then show ?case using demo_parse_string [of "[]" x "demo_text xs"] by (simp add: demo_text_def)
qed (simp add: demo_text_def)

lemma demo_codec_faithful: "json_faithful demo_codec (JList (map JStr xs))"
  by (simp add: json_faithful_def demo_codec_def comp_def demo_parse_text)

end
