(* ===== verification/Blacklist_Service.thy ===== *)
theory Blacklist_Service
  imports Py_Files Bot_State
begin

text \<open>
  \<open>BlacklistService\<close> (app/core/blacklist_service.py): four sets of addresses kept in memory
  and in one JSON file each. Once it has been published, \<open>bot_state.blacklists\<close> is the very
  dictionary of the service, so the view of the bot is computed from the service.
\<close>

record blacklist_service =
  lists :: "(string, json set) dict"
  published :: bool

definition blacklist_types :: "string list" where
  "blacklist_types = [''arbs'', ''deployers'', ''pools'', ''tokens'']"

definition new_blacklist_service :: blacklist_service where
  "new_blacklist_service = \<lparr>lists = map (\<lambda>ty. (ty, {})) blacklist_types, published = False\<rparr>"

text \<open>What \<open>bot_state.blacklists\<close> holds: the placeholder until a list is published.\<close>

definition bot_view :: "blacklist_service \<Rightarrow> (string, json set) dict option" where
  "bot_view svc = (if published svc then Some (lists svc) else None)"

section \<open>Files\<close>

text \<open>
  \<open>root\<close> is the directory of the package. The module lives in \<open>root/app/core\<close>, so
  \<open>Path(__file__).resolve().parent.parent\<close> is \<open>root/app\<close>.
\<close>

definition blacklist_dir :: "path \<Rightarrow> string \<Rightarrow> path" where
  "blacklist_dir root chain_name = butlast (butlast (root @ [''app'', ''core'', ''blacklist_service.py''])) @ [''data'', chain_name]"

definition blacklist_path :: "path \<Rightarrow> string \<Rightarrow> string \<Rightarrow> path" where
  "blacklist_path root chain_name ty =
     blacklist_dir root chain_name @ [chain_name @ ''_blacklist_'' @ ty @ ''.json'']"

text \<open>\<open>set(v)\<close>: the elements must be hashable.\<close>

definition py_set :: "json \<Rightarrow> json set res" where
  "py_set v = res_bind (json_iter v) (\<lambda>xs. if list_all hashable xs then Inr (set xs) else Inl TypeError)"

definition load_blacklist ::
  "json_codec \<Rightarrow> path \<Rightarrow> string \<Rightarrow> file_system \<Rightarrow> string \<Rightarrow> json set res" where
  "load_blacklist c root chain_name fs ty =
     (let p = blacklist_path root chain_name ty in
      if path_exists fs p then res_bind (read_json c fs p) py_set else Inr {})"

section \<open>Operations\<close>

text \<open>The loop stores each list as soon as it is read; an exception keeps those stored before.\<close>

fun load_types ::
  "(string \<Rightarrow> json set res) \<Rightarrow> string list \<Rightarrow> blacklist_service \<Rightarrow> unit res \<times> blacklist_service" where
  "load_types load [] svc = (Inr (), svc)"
| "load_types load (ty # tys) svc =
     (case load ty of
        Inl e \<Rightarrow> (Inl e, svc)
      | Inr s \<Rightarrow> load_types load tys (svc\<lparr>lists := AList.update ty s (lists svc)\<rparr>))"

definition load_blacklists ::
  "json_codec \<Rightarrow> path \<Rightarrow> string \<Rightarrow> file_system \<Rightarrow> blacklist_service \<Rightarrow> unit res \<times> blacklist_service" where
  "load_blacklists c root chain_name fs svc =
     (case load_types (load_blacklist c root chain_name fs) blacklist_types svc of
        (Inl e, svc') \<Rightarrow> (Inl e, svc')
      | (Inr _, svc') \<Rightarrow> (Inr (), svc'\<lparr>published := True\<rparr>))"

text \<open>
  \<open>iter\<close> is the order in which \<open>list(s)\<close> enumerates a set. The address is added in memory and
  published before the file is opened.
\<close>

definition update_blacklist ::
  "(json set \<Rightarrow> json list) \<Rightarrow> json_codec \<Rightarrow> path \<Rightarrow> string \<Rightarrow> string \<Rightarrow> string \<Rightarrow>
     blacklist_service \<times> file_system \<Rightarrow> unit res \<times> (blacklist_service \<times> file_system)" where
  "update_blacklist iter c root chain_name ty address = (\<lambda>(svc, fs).
     case dict_index (lists svc) ty of
       Inl e \<Rightarrow> (Inl e, svc, fs)
     | Inr s \<Rightarrow>
         let s' = insert (JStr address) s;
             svc' = svc\<lparr>lists := AList.update ty s' (lists svc), published := True\<rparr>;
             (r, fs') = write_json c (blacklist_path root chain_name ty) (JList (iter s')) fs
         in (r, svc', fs'))"

definition is_blacklisted :: "blacklist_service \<Rightarrow> string \<Rightarrow> string \<Rightarrow> bool res" where
  "is_blacklisted svc ty address = res_bind (dict_index (lists svc) ty) (\<lambda>s. Inr (JStr address \<in> s))"

text \<open>A sequence of updates up to the first that raises.\<close>

fun update_all ::
  "(json set \<Rightarrow> json list) \<Rightarrow> json_codec \<Rightarrow> path \<Rightarrow> string \<Rightarrow> (string \<times> string) list \<Rightarrow>
     blacklist_service \<times> file_system \<Rightarrow> unit res \<times> (blacklist_service \<times> file_system)" where
  "update_all iter c root chain_name [] st = (Inr (), st)"
| "update_all iter c root chain_name ((ty, address) # us) st =
     (case update_blacklist iter c root chain_name ty address st of
        (Inl e, st') \<Rightarrow> (Inl e, st')
      | (Inr _, st') \<Rightarrow> update_all iter c root chain_name us st')"

section \<open>Memory and files agree\<close>

text \<open>Loading a type now would give what the service holds for it.\<close>

definition in_sync :: "json_codec \<Rightarrow> path \<Rightarrow> string \<Rightarrow> file_system \<Rightarrow> blacklist_service \<Rightarrow> bool" where
  "in_sync c root chain_name fs svc \<longleftrightarrow>
     map fst (lists svc) = blacklist_types \<and>
     (\<forall>(ty, s)\<in>set (lists svc). load_blacklist c root chain_name fs ty = Inr s)"

definition string_lists :: "blacklist_service \<Rightarrow> bool" where
  "string_lists svc \<longleftrightarrow> (\<forall>(ty, s)\<in>set (lists svc). finite s \<and> s \<subseteq> range JStr)"

lemma blacklist_path_eq [simp]:
  "blacklist_path root chain ty = blacklist_path root chain ty' \<longleftrightarrow> ty = ty'"
  by (simp add: blacklist_path_def)

lemma blacklist_path_neq [simp]: "blacklist_path root chain ty \<noteq> []"
  by (simp add: blacklist_path_def)

lemma load_blacklist_written:
  assumes "write_json c (blacklist_path root chain ty) (JList xs) fs = (Inr (), fs')"
    and "json_faithful c (JList xs)" and "list_all hashable xs"
  shows "load_blacklist c root chain fs' ty = Inr (set xs)"
proof -
  have "files.fetch c JNull fs' (blacklist_path root chain ty) = Inr (JList xs)"
    using files.fetch_written [of c "blacklist_path root chain ty" "JList xs" fs JNull] assms by simp
  then show ?thesis using assms(3)
    by (auto simp: load_blacklist_def files.fetch_def py_set_def Let_def split: if_splits)
qed

lemma load_blacklist_other:
  "write_json c (blacklist_path root chain ty) v fs = (r, fs') \<Longrightarrow> ty' \<noteq> ty \<Longrightarrow>
     load_blacklist c root chain fs' ty' = load_blacklist c root chain fs ty'"
  using files.read_other [of "blacklist_path root chain ty'" "blacklist_path root chain ty" c v fs]
    files.stored_other [of "blacklist_path root chain ty'" "blacklist_path root chain ty" c v fs]
  by (simp add: load_blacklist_def Let_def)

lemma load_types_ok:
  assumes "\<And>ty. ty \<in> set tys \<Longrightarrow> load ty = Inr (g ty)"
  shows "load_types load tys svc = (Inr (), svc\<lparr>lists := dict_fill (\<lambda>t. t) g tys (lists svc)\<rparr>)"
  using assms by (induction tys arbitrary: svc) simp_all

lemma load_types_Inr:
  "load_types load tys svc = (Inr (), svc') \<Longrightarrow>
     (\<forall>ty\<in>set tys. \<exists>s. load ty = Inr s) \<and> published svc' = published svc"
  by (induction tys arbitrary: svc) (auto split: sum.splits)

text \<open>On the four types in their order, the loop replaces the four sets.\<close>

lemma load_four:
  assumes "map fst (lists svc) = blacklist_types"
  shows "dict_fill (\<lambda>t. t) g blacklist_types (lists svc) = map (\<lambda>ty. (ty, g ty)) blacklist_types"
  using assms
  by (auto simp: blacklist_types_def map_eq_Cons_conv)

lemma load_blacklists_Inr:
  assumes "load_blacklists c root chain fs svc = (Inr (), svc')" and "map fst (lists svc) = blacklist_types"
  shows "in_sync c root chain fs svc'" and "published svc'"
proof -
  from assms(1) obtain u where u: "load_types (load_blacklist c root chain fs) blacklist_types svc = (Inr (), u)"
    and svc': "svc' = u\<lparr>published := True\<rparr>"
    by (auto simp: load_blacklists_def split: prod.splits sum.splits)
  from load_types_Inr [OF u] have "\<forall>ty\<in>set blacklist_types. \<exists>s. load_blacklist c root chain fs ty = Inr s" by simp
  then obtain g where g: "\<And>ty. ty \<in> set blacklist_types \<Longrightarrow> load_blacklist c root chain fs ty = Inr (g ty)"
    by metis
  from load_types_ok [of blacklist_types "load_blacklist c root chain fs" g svc, OF g] u
  have "lists u = map (\<lambda>ty. (ty, g ty)) blacklist_types" by (simp add: load_four [OF assms(2)])
  with svc' g show "in_sync c root chain fs svc'" and "published svc'"
    by (auto simp: in_sync_def comp_def)
qed

lemma in_sync_loads:
  assumes "in_sync c root chain fs svc" and "map fst (lists svc0) = blacklist_types"
  shows "load_blacklists c root chain fs svc0 = (Inr (), svc0\<lparr>lists := lists svc, published := True\<rparr>)"
proof -
  let ?g = "\<lambda>ty. the (map_of (lists svc) ty)"
  have keys: "map fst (lists svc) = blacklist_types" using assms(1) by (simp add: in_sync_def)
  have "load_blacklist c root chain fs ty = Inr (?g ty)" if "ty \<in> set blacklist_types" for ty
  proof -
    from that keys obtain s where s: "map_of (lists svc) ty = Some s"
      by (metis list.set_map map_of_eq_None_iff option.exhaust)
    then have "(ty, s) \<in> set (lists svc)" by (rule map_of_SomeD)
    with assms(1) s show ?thesis by (auto simp: in_sync_def)
  qed
  from load_types_ok [of blacklist_types "load_blacklist c root chain fs" ?g svc0, OF this]
  have "load_types (load_blacklist c root chain fs) blacklist_types svc0 =
      (Inr (), svc0\<lparr>lists := map (\<lambda>ty. (ty, ?g ty)) blacklist_types\<rparr>)"
    by (simp add: load_four [OF assms(2)])
  moreover have "map (\<lambda>ty. (ty, ?g ty)) blacklist_types = lists svc"
    using keys by (auto simp: blacklist_types_def map_eq_Cons_conv)
  ultimately show ?thesis by (simp add: load_blacklists_def)
qed

end
