(* ===== verification/Blacklist_Properties.thy ===== *)
theory Blacklist_Properties
  imports Blacklist_Service "HOL-Library.Char_ord" "HOL-Library.List_Lexorder"
begin

text \<open>
  Correctness of the blacklists: what an update does in memory and on disk, that the files
  give back the memory after a restart, and where the files must lie to be read.
\<close>

lemma map_fst_update: "k \<in> set (map fst d) \<Longrightarrow> map fst (AList.update k v d) = map fst d"
  by (simp add: AList.update_keys)

lemma update_other_mem: "distinct (map fst d) \<Longrightarrow> (k', s) \<in> set (AList.update k v d) \<Longrightarrow>
    (k' = k \<and> s = v) \<or> (k' \<noteq> k \<and> (k', s) \<in> set d)"
proof (induction d)
  case (Cons x d)
  then show ?case by (cases x) (auto split: if_splits simp: rev_image_eqI)
qed simp

lemma blacklist_types_distinct: "distinct blacklist_types"
  by (simp add: blacklist_types_def)

lemma in_sync_update:
  assumes "in_sync c root chain fs svc"
    and "update_blacklist iter c root chain ty a (svc, fs) = (Inr (), svc', fs')"
    and "map_of (lists svc) ty = Some s" and "json_faithful c (JList (iter (insert (JStr a) s)))"
    and "set (iter (insert (JStr a) s)) = insert (JStr a) s" and "list_all hashable (iter (insert (JStr a) s))"
  shows "in_sync c root chain fs' svc'"
proof -
  let ?s = "insert (JStr a) s"
  have keys: "map fst (lists svc) = blacklist_types"
    and loads: "\<And>ty s. (ty, s) \<in> set (lists svc) \<Longrightarrow> load_blacklist c root chain fs ty = Inr s"
    using assms(1) by (auto simp: in_sync_def)
  have w: "write_json c (blacklist_path root chain ty) (JList (iter ?s)) fs = (Inr (), fs')"
    and svc': "svc' = svc\<lparr>lists := AList.update ty ?s (lists svc), published := True\<rparr>"
    using assms(2,3) by (auto simp: update_blacklist_def Let_def dict_index_def split: prod.splits)
  have "ty \<in> set (map fst (lists svc))" using assms(3) by (force dest: map_of_SomeD)
  then have "map fst (lists svc') = blacklist_types" using svc' keys by (simp add: map_fst_update)
  moreover have "load_blacklist c root chain fs' ty' = Inr u" if "(ty', u) \<in> set (lists svc')" for ty' u
  proof -
    have "distinct (map fst (lists svc))" using keys blacklist_types_distinct by simp
    with that svc' consider "ty' = ty" "u = ?s" | "ty' \<noteq> ty" "(ty', u) \<in> set (lists svc)"
      using update_other_mem by fastforce
    then show ?thesis
    proof cases
      case 1
      with load_blacklist_written [OF w assms(4,6)] assms(5) show ?thesis by simp
    next
      case 2
      with load_blacklist_other [OF w 2(1)] loads [OF 2(2)] show ?thesis by simp
    qed
  qed
  ultimately show ?thesis by (auto simp: in_sync_def)
qed

lemma string_listsD:
  "string_lists svc \<Longrightarrow> map_of (lists svc) ty = Some s \<Longrightarrow> finite s \<and> s \<subseteq> range JStr"
  unfolding string_lists_def by (drule map_of_SomeD, drule bspec, assumption, simp)

lemma string_lists_update:
  assumes "string_lists svc" and "update_blacklist iter c root chain ty a (svc, fs) = (r, svc', fs')"
  shows "string_lists svc'"
proof (cases "map_of (lists svc) ty")
  case None
  with assms show ?thesis by (simp add: update_blacklist_def dict_index_def)
next
  case (Some s)
  with assms(1) have "finite s \<and> s \<subseteq> range JStr" by (rule string_listsD)
  moreover have svc': "svc' = svc\<lparr>lists := AList.update ty (insert (JStr a) s) (lists svc), published := True\<rparr>"
    using assms(2) Some by (auto simp: update_blacklist_def dict_index_def Let_def split: prod.splits)
  ultimately have new: "finite (insert (JStr a) s) \<and> insert (JStr a) s \<subseteq> range JStr" by simp
  show ?thesis
    unfolding string_lists_def
  proof
    fix x assume "x \<in> set (lists svc')"
    with svc' set_update_subset [of ty "insert (JStr a) s" "lists svc"]
    consider "x = (ty, insert (JStr a) s)" | "x \<in> set (lists svc)" by auto
    then show "case x of (ty, s) \<Rightarrow> finite s \<and> s \<subseteq> range JStr"
    proof cases
      case 1
      with new show ?thesis by simp
    next
      case 2
      with assms(1) show ?thesis unfolding string_lists_def by (rule bspec)
    qed
  qed
qed

lemma strings_hashable: "set xs \<subseteq> range JStr \<Longrightarrow> list_all hashable xs \<and> (\<exists>ys. xs = map JStr ys)"
  by (induction xs) (auto simp: Cons_eq_map_conv)

lemma update_all_in_sync:
  assumes codec: "\<forall>xs. json_faithful c (JList (map JStr xs))" 
    and iter: "\<forall>s. finite s \<and> s \<subseteq> range JStr \<longrightarrow> set (iter s) = s"
    and "update_all iter c root chain us (svc, fs) = (Inr (), svc', fs')"
    and "in_sync c root chain fs svc" and "string_lists svc"
  shows "in_sync c root chain fs' svc'"
  using assms(3-)
proof (induction us arbitrary: svc fs)
  case (Cons u us)
  obtain ty a where u: "u = (ty, a)" by (cases u)
  with Cons.prems(1) obtain svc1 fs1 where step: "update_blacklist iter c root chain ty a (svc, fs) = (Inr (), svc1, fs1)"
    and rest: "update_all iter c root chain us (svc1, fs1) = (Inr (), svc', fs')"
    by (auto split: prod.splits sum.splits)
  obtain s where s: "map_of (lists svc) ty = Some s"
    using step by (cases "map_of (lists svc) ty") (auto simp: update_blacklist_def dict_index_def)
  have fin: "finite s" "s \<subseteq> range JStr" using string_listsD [OF Cons.prems(3) s] by simp_all
  let ?xs = "iter (insert (JStr a) s)"
  have set_xs: "set ?xs = insert (JStr a) s" using iter fin by simp
  with fin(2) have "set ?xs \<subseteq> range JStr" by auto
  from strings_hashable [OF this] codec have "json_faithful c (JList ?xs)" and "list_all hashable ?xs" by auto
  then have "in_sync c root chain fs1 svc1"
    using in_sync_update [OF Cons.prems(2) step s] set_xs by simp
  with Cons.IH [OF rest] string_lists_update [OF Cons.prems(3) step] show ?case by simp
qed simp

section \<open>A concrete installation\<close>

definition demo_root :: path where
  "demo_root = [''cream_bots'']"

definition demo_fs :: file_system where
  "demo_fs = [([''cream_bots''], Dir), ([''cream_bots'', ''app''], Dir),
     ([''cream_bots'', ''app'', ''data''], Dir), ([''cream_bots'', ''app'', ''data'', ''base''], Dir),
     ([''cream_bots'', ''data''], Dir), ([''cream_bots'', ''data'', ''base''], Dir)]"

text \<open>The sorted enumeration of a finite set of JSON strings.\<close>

definition json_text :: "json \<Rightarrow> string" where
  "json_text v = (case v of JStr x \<Rightarrow> x | _ \<Rightarrow> [])"

definition demo_enum :: "json set \<Rightarrow> json list" where
  "demo_enum s = map JStr (sorted_list_of_set (json_text ` s))"

lemma demo_enum_set: "finite s \<Longrightarrow> s \<subseteq> range JStr \<Longrightarrow> set (demo_enum s) = s"
  by (force simp: demo_enum_def json_text_def image_iff)

lemma demo_load: "load_blacklists demo_codec demo_root ''base'' demo_fs new_blacklist_service =
    (Inr (), new_blacklist_service\<lparr>published := True\<rparr>)"
  by (simp add: load_blacklists_def load_blacklist_def blacklist_types_def path_exists_def demo_fs_def
      blacklist_path_def blacklist_dir_def demo_root_def new_blacklist_service_def)

lemma demo_update:
  "update_blacklist demo_enum demo_codec demo_root ''base'' ''pools'' ''0xbad''
     (new_blacklist_service\<lparr>published := True\<rparr>, demo_fs) =
   (Inr (), \<lparr>lists = [(''arbs'', {}), (''deployers'', {}), (''pools'', {JStr ''0xbad''}), (''tokens'', {})],
             published = True\<rparr>,
    demo_fs @ [([''cream_bots'', ''app'', ''data'', ''base'', ''base_blacklist_pools.json''], File ''c0cxcbcacd.'')])"
  by (simp add: update_blacklist_def new_blacklist_service_def blacklist_types_def dict_index_def Let_def
      write_json_def blacklist_path_def blacklist_dir_def demo_root_def demo_fs_def demo_enum_def demo_codec_def
      demo_text_def json_text_def)

lemma new_string_lists: "string_lists (new_blacklist_service\<lparr>published := b\<rparr>)"
  by (simp add: string_lists_def new_blacklist_service_def)

section \<open>Properties\<close>

text \<open>
  C15: The blacklists survive a restart. After the lists were loaded and any sequence of updates
  went through, a fresh service that loads the files holds the same four sets as the old one.
\<close>

theorem blacklists_survive_restart:
  assumes "\<forall>xs. json_faithful c (JList (map JStr xs))" 
    and "\<forall>s. finite s \<and> s \<subseteq> range JStr \<longrightarrow> set (iter s) = s"
    and "load_blacklists c root chain fs new_blacklist_service = (Inr (), svc)" and "string_lists svc"
    and "update_all iter c root chain us (svc, fs) = (Inr (), svc', fs')"
  shows "load_blacklists c root chain fs' new_blacklist_service =
           (Inr (), \<lparr>lists = lists svc', published = True\<rparr>)"
proof -
  have keys: "map fst (lists new_blacklist_service) = blacklist_types"
    by (simp add: new_blacklist_service_def comp_def)
  from load_blacklists_Inr(1) [OF assms(3) keys] have "in_sync c root chain fs svc" .
  with update_all_in_sync [OF assms(1,2,5)] assms(4) have "in_sync c root chain fs' svc'" by simp
  from in_sync_loads [OF this keys] show ?thesis by (simp add: new_blacklist_service_def)
qed

theorem blacklists_survive_restart_witness:
  "\<exists>fs'. load_blacklists demo_codec demo_root ''base'' fs' new_blacklist_service =
     (Inr (), \<lparr>lists = [(''arbs'', {}), (''deployers'', {}), (''pools'', {JStr ''0xbad''}), (''tokens'', {})],
               published = True\<rparr>)"
proof -
  have "update_all demo_enum demo_codec demo_root ''base'' [(''pools'', ''0xbad'')]
      (new_blacklist_service\<lparr>published := True\<rparr>, demo_fs) =
    (Inr (), snd (update_blacklist demo_enum demo_codec demo_root ''base'' ''pools'' ''0xbad''
       (new_blacklist_service\<lparr>published := True\<rparr>, demo_fs)))"
    by (simp add: demo_update)
  from blacklists_survive_restart [OF _ _ demo_load new_string_lists this [unfolded demo_update snd_conv]]
  show ?thesis using demo_codec_faithful demo_enum_set by auto
qed

text \<open>
  An update of a known type, however the file operation ends, makes exactly the given address
  blacklisted in exactly that type, for the service and for the bot that shares its
  dictionary; an unknown type raises \<open>KeyError\<close> and changes nothing.
\<close>

theorem update_blacklist_spec:
  assumes "map fst (lists svc) = blacklist_types"
    and "update_blacklist iter c root chain ty a (svc, fs) = (r, svc', fs')"
  shows "if ty \<in> set blacklist_types
         then bot_view svc' = Some (lists svc') \<and>
              (\<forall>ty'\<in>set blacklist_types. \<forall>b. is_blacklisted svc' ty' b =
                 (if ty' = ty \<and> b = a then Inr True else is_blacklisted svc ty' b))
         else r = Inl KeyError \<and> svc' = svc \<and> fs' = fs"
proof (cases "map_of (lists svc) ty")
  case None
  then have "ty \<notin> set blacklist_types" using assms(1) by (metis list.set_map map_of_eq_None_iff)
  with None assms(2) show ?thesis by (simp add: update_blacklist_def dict_index_def)
next
  case (Some s)
  then have "ty \<in> set blacklist_types" using assms(1) by (metis list.set_map map_of_eq_None_iff option.distinct(1))
  moreover have svc': "svc' = svc\<lparr>lists := AList.update ty (insert (JStr a) s) (lists svc), published := True\<rparr>"
    using assms(2) Some by (auto simp: update_blacklist_def dict_index_def Let_def split: prod.splits)
  ultimately show ?thesis
    using Some by (auto simp: bot_view_def is_blacklisted_def dict_index_def update_conv)
qed

theorem update_blacklist_spec_witness:
  "is_blacklisted (fst (snd (update_blacklist demo_enum demo_codec demo_root ''base'' ''pools'' ''0xbad''
     (new_blacklist_service\<lparr>published := True\<rparr>, demo_fs)))) ''pools'' ''0xbad'' = Inr True"
proof -
  have "map fst (lists (new_blacklist_service\<lparr>published := True\<rparr>)) = blacklist_types"
    by (simp add: new_blacklist_service_def comp_def)
  from update_blacklist_spec [OF this demo_update] show ?thesis
    by (simp add: demo_update blacklist_types_def)
qed

text \<open>
  An update of a known type whose directory is missing raises \<open>FileNotFoundError\<close> with the address
  already blacklisted in memory, and no file changes: memory and files then disagree.
\<close>

theorem update_without_directory:
  assumes "map_of (lists svc) ty = Some s" and "map_of fs (blacklist_dir root chain_name) = None"
  shows "update_blacklist iter c root chain_name ty a (svc, fs) =
           (Inl FileNotFoundError,
            svc\<lparr>lists := AList.update ty (insert (JStr a) s) (lists svc), published := True\<rparr>, fs)"
  using assms by (simp add: update_blacklist_def dict_index_def Let_def write_json_def blacklist_path_def)

theorem update_without_directory_witness:
  "fst (update_blacklist demo_enum demo_codec demo_root ''base'' ''pools'' ''0xbad'' (new_blacklist_service, [])) =
     Inl FileNotFoundError"
  using update_without_directory [of new_blacklist_service "''pools''" "{}" "[]" demo_root "''base''"
      demo_enum demo_codec "''0xbad''"]
  by (simp add: new_blacklist_service_def blacklist_types_def)

text \<open>
  Blacklist files in the data directory of the other parts (\<open>cream_bots/data/<chain>\<close>) are
  not read: whatever document is written below it, loading the blacklists gives the same.
\<close>

theorem data_dir_blacklists_ignored:
  "load_blacklists c root chain_name (snd (write_json c (root @ ''data'' # sub) v fs)) svc =
     load_blacklists c root chain_name fs svc"
proof -
  have "load_blacklist c root chain_name (snd (write_json c (root @ ''data'' # sub) v fs)) =
      load_blacklist c root chain_name fs"
  proof
    fix ty
    have "blacklist_path root chain_name ty \<noteq> root @ ''data'' # sub"
      by (simp add: blacklist_path_def blacklist_dir_def butlast_append)
    then show "load_blacklist c root chain_name (snd (write_json c (root @ ''data'' # sub) v fs)) ty =
        load_blacklist c root chain_name fs ty"
      by (simp add: load_blacklist_def Let_def files.read_other files.stored_other)
  qed
  then show ?thesis by (simp add: load_blacklists_def)
qed

end
