(* ===== verification/Builder_Files.thy ===== *)
theory Builder_Files
  imports Py_Files
begin

text \<open>
  What the scripts of builders/ have in common: the data directory beside their package, one
  directory per chain in it, and the loop over the chain of the command line or all chains.
  \<open>root\<close> is the directory of the package; the scripts live in \<open>root/builders\<close>.
\<close>

text \<open>\<open>Path(__file__).resolve().parent.parent / "data"\<close>\<close>

definition builder_dir :: "path \<Rightarrow> path" where
  "builder_dir root = butlast (butlast (root @ [''builders'', ''main.py''])) @ [''data'']"

text \<open>\<open>data_dir / chain_name / f"{chain_name}{name}"\<close>\<close>

definition chain_file :: "path \<Rightarrow> string \<Rightarrow> string \<Rightarrow> path" where
  "chain_file root chain_name name = builder_dir root @ [chain_name, chain_name @ name]"

text \<open>\<open>{**d, **e}\<close>, and what \<open>d.update(e)\<close> leaves in \<open>d\<close>\<close>

definition merge_dicts :: "('k, 'v) dict \<Rightarrow> ('k, 'v) dict \<Rightarrow> ('k, 'v) dict" where
  "merge_dicts d e = dict_fill fst snd e d"

text \<open>
  \<open>main\<close>: the chain named on the command line, or all of them; \<open>chain_table\<close> is the imported
  \<open>chain_data\<close>.
\<close>

definition selected_chains :: "(string, json) dict \<Rightarrow> string option \<Rightarrow> (string, json) dict res" where
  "selected_chains chain_table chain_arg =
     (case chain_arg of
        None \<Rightarrow> Inr chain_table
      | Some name \<Rightarrow> if name = [] then Inr chain_table
                     else res_bind (dict_index chain_table name) (\<lambda>chain. Inr [(name, chain)]))"

definition for_chains ::
  "path \<Rightarrow> (string \<Rightarrow> json \<Rightarrow> (file_system, unit) act) \<Rightarrow> (string, json) dict \<Rightarrow> string option \<Rightarrow>
     (file_system, unit) act" where
  "for_chains root body chain_table chain_arg =
     act_bind (act_lift (selected_chains chain_table chain_arg)) (\<lambda>chains_to_process.
     act_bind (mkdir (builder_dir root)) (\<lambda>_.
     act_each (\<lambda>(chain_name, _).
       act_bind (act_lift (dict_index chain_table chain_name)) (body chain_name)) chains_to_process))"

end
