(* ===== verification/Block_Ranges.thy ===== *)
theory Block_Ranges
  imports CB_Prelude
begin

text \<open>
  The block windows with which the fetchers query the chain, and what a set of windows has to
  give: every block of the range is in a window. Reading all events through windows is a
  locale, so that completeness of the fetched data is proved once.
\<close>

section \<open>The fixed windows of the pool fetchers\<close>

definition BLOCK_SPAN :: int where
  "BLOCK_SPAN = 10000"

lemma BLOCK_SPAN_pos [simp]: "0 < BLOCK_SPAN" "0 \<le> BLOCK_SPAN" "BLOCK_SPAN \<noteq> 0"
  by (simp_all add: BLOCK_SPAN_def)

text \<open>
  \<open>for i in range(previous_block + 1, current_block + 1, BLOCK_SPAN)\<close> with the \<open>end_block\<close> of
  each turn.
\<close>

function lp_windows :: "int \<Rightarrow> int \<Rightarrow> (int \<times> int) list" where
  "lp_windows i current =
     (if current < i then []
      else (i, if i + BLOCK_SPAN > current then current else i + BLOCK_SPAN)
             # lp_windows (i + BLOCK_SPAN) current)"
  by pat_completeness auto
termination
  by (relation "measure (\<lambda>(i, current). nat (current + 1 - i))") (auto simp: BLOCK_SPAN_def)

declare lp_windows.simps [simp del]

definition inside :: "int \<Rightarrow> int \<times> int \<Rightarrow> bool" where
  "inside b w \<longleftrightarrow> fst w \<le> b \<and> b \<le> snd w"

lemma inside_pair [simp]: "inside b (i, e) \<longleftrightarrow> i \<le> b \<and> b \<le> e"
  by (simp add: inside_def)

section \<open>Scanning through windows\<close>

text \<open>
  \<open>scans a b ws\<close>: the windows \<open>ws\<close> may be the ones used for the blocks from \<open>a\<close> to \<open>b\<close>. A node
  answers a window with the events of its blocks.
\<close>

definition scan :: "('e \<Rightarrow> int) \<Rightarrow> 'e list \<Rightarrow> (int \<times> int) list \<Rightarrow> 'e list" where
  "scan block events ws = concat (map (\<lambda>w. filter (\<lambda>e. inside (block e) w) events) ws)"

lemma scan_simps [simp]:
  "scan block events [] = []"
  "scan block events (w # ws) = filter (\<lambda>e. inside (block e) w) events @ scan block events ws"
  by (simp_all add: scan_def)

lemma set_scan_windows: "set (scan block events ws) = {e \<in> set events. \<exists>w\<in>set ws. inside (block e) w}"
  by (auto simp: scan_def)

locale block_scanner =
  fixes scans :: "int \<Rightarrow> int \<Rightarrow> (int \<times> int) list \<Rightarrow> bool"
  assumes covers: "scans a b ws \<Longrightarrow> a \<le> n \<Longrightarrow> n \<le> b \<Longrightarrow> \<exists>w\<in>set ws. inside n w"
    and within: "scans a b ws \<Longrightarrow> w \<in> set ws \<Longrightarrow> inside n w \<Longrightarrow> a \<le> n \<and> n \<le> b"
    and ascending: "scans a b ws \<Longrightarrow> sorted_wrt (\<lambda>v w. snd v \<le> fst w) ws"
begin

lemma set_scan: "scans a b ws \<Longrightarrow> set (scan block events ws) = {e \<in> set events. a \<le> block e \<and> block e \<le> b}"
  using covers within unfolding set_scan_windows by blast

lemma scan_sorted:
  assumes "scans a b ws" and "ws = us @ vs" and "sorted_wrt (\<lambda>x y. block x \<le> block y) events"
  shows "sorted_wrt (\<lambda>x y. block x \<le> block y) (scan block events us)"
proof -
  have "sorted_wrt (\<lambda>v w. snd v \<le> fst w) us"
    using ascending [OF assms(1)] assms(2) by (simp add: sorted_wrt_append)
  then show ?thesis
  proof (induction us)
    case (Cons v us)
    have "block x \<le> block y" if "inside (block x) v" "w \<in> set us" "inside (block y) w" for x y w
      using that Cons.prems by (force simp: inside_def)
    with Cons show ?case
      by (auto simp: sorted_wrt_append sorted_wrt_filter assms(3) set_scan_windows)
  qed simp
qed

end

text \<open>A scanner whose windows are disjoint reads every event once.\<close>

locale exact_scanner = block_scanner +
  assumes disjoint: "scans a b ws \<Longrightarrow> sorted_wrt (\<lambda>v w. snd v < fst w) ws"
begin

lemma scan_once:
  assumes "scans a b ws"
  shows "count_list (scan block events ws) e = (if a \<le> block e \<and> block e \<le> b then count_list events e else 0)"
proof (cases "a \<le> block e \<and> block e \<le> b")
  case False
  then have "e \<notin> set (scan block events ws)" using set_scan [OF assms, of block events] by auto
  with False show ?thesis by (auto simp: count_list_0_iff)
next
  case True
  have none: "count_list (scan block events ws) e = 0" if "\<forall>w\<in>set ws. \<not> inside (block e) w" for ws
    using that by (auto simp: count_list_0_iff set_scan_windows)
  have one: "count_list (filter (\<lambda>e. inside (block e) w) events) e = count_list events e"
    if "inside (block e) w" for w
    using that by (induction events) auto
  have "count_list (scan block events ws) e = count_list events e"
    if "sorted_wrt (\<lambda>v w. snd v < fst w) ws" and "\<exists>w\<in>set ws. inside (block e) w" for ws
    using that
  proof (induction ws)
    case (Cons v ws)
    show ?case
    proof (cases "inside (block e) v")
      case True
      then have "\<forall>w\<in>set ws. \<not> inside (block e) w" using Cons.prems(1) by (force simp: inside_def)
      with True show ?thesis by (simp add: one none count_list_append)
    next
      case False
      with Cons have "count_list (filter (\<lambda>e. inside (block e) v) events) e = 0"
        by (auto simp: count_list_0_iff)
      with False Cons show ?thesis by (simp add: count_list_append)
    qed
  qed simp
  from this [OF disjoint [OF assms] covers [OF assms]] True show ?thesis by simp
qed

end

section \<open>The windows of the pool fetchers scan completely\<close>

lemma lp_windows_bounds: "w \<in> set (lp_windows i current) \<Longrightarrow> i \<le> fst w \<and> fst w \<le> current \<and> snd w \<le> current"
  by (induction i current rule: lp_windows.induct)
    (subst (asm) (2) lp_windows.simps, fastforce simp: BLOCK_SPAN_def split: if_splits)

lemma lp_windows_cover: "i \<le> n \<Longrightarrow> n \<le> current \<Longrightarrow> \<exists>w\<in>set (lp_windows i current). inside n w"
proof (induction i current rule: lp_windows.induct)
  case (1 i current)
  then show ?case
    by (cases "n \<le> i + BLOCK_SPAN") (subst lp_windows.simps; force simp: inside_def)+
qed

lemma lp_windows_ascending: "sorted_wrt (\<lambda>v w. snd v \<le> fst w) (lp_windows i current)"
proof (induction i current rule: lp_windows.induct)
  case (1 i current)
  show ?case
  proof (cases "current < i")
    case True
    then show ?thesis by (simp add: lp_windows.simps)
  next
    case False
    have "snd (i, if i + BLOCK_SPAN > current then current else i + BLOCK_SPAN) \<le> fst w"
      if "w \<in> set (lp_windows (i + BLOCK_SPAN) current)" for w
      using lp_windows_bounds [OF that] by auto
    with 1 False show ?thesis by (subst lp_windows.simps) simp
  qed
qed

definition lp_scans :: "int \<Rightarrow> int \<Rightarrow> (int \<times> int) list \<Rightarrow> bool" where
  "lp_scans i current ws \<longleftrightarrow> ws = lp_windows i current"

interpretation lp: block_scanner lp_scans
proof
  fix w a b n ws assume "lp_scans a b ws" and "w \<in> set ws" and "inside n w"
  with lp_windows_bounds [of w a b] show "a \<le> n \<and> n \<le> b" by (auto simp: inside_def lp_scans_def)
qed (simp_all add: lp_windows_cover lp_windows_ascending lp_scans_def)

text \<open>The block at which one window ends and the next begins belongs to both.\<close>

lemma lp_windows_overlap:
  assumes "i + BLOCK_SPAN \<le> current"
  shows "\<exists>ws e. lp_windows i current = (i, i + BLOCK_SPAN) # (i + BLOCK_SPAN, e) # ws"
proof -
  have "lp_windows i current = (i, i + BLOCK_SPAN) # lp_windows (i + BLOCK_SPAN) current"
    using assms by (subst lp_windows.simps) (auto simp: BLOCK_SPAN_def)
  moreover have "\<exists>ws e. lp_windows (i + BLOCK_SPAN) current = (i + BLOCK_SPAN, e) # ws"
    using assms by (subst lp_windows.simps) simp
  ultimately show ?thesis by auto
qed

end
