(* ===== verification/Lp_Fetcher.thy ===== *)
theory Lp_Fetcher
  imports Builder_Files Block_Ranges
begin

text \<open>
  The pool fetchers (builders/lp_fetcher_v2.py and builders/lp_fetcher_v3.py): per factory they
  read the pools already on file, query the factory's creation events window by window from
  the block after the last known pool, append one entry per event, and write the file after
  every window.
\<close>

section \<open>Events and entries\<close>

text \<open>
  A decoded \<open>PairCreated\<close> or \<open>PoolCreated\<close> event; \<open>pe_fee\<close> is the fee argument of the latter
  and \<open>pe_unnamed\<close> what \<open>args.get("")\<close> gives for the former.
\<close>

record pool_event =
  pe_pool :: string
  pe_token0 :: string
  pe_token1 :: string
  pe_fee :: int
  pe_unnamed :: json
  pe_block :: int

text \<open>
  The node: the creation events of a factory between two blocks, its newest block when the
  factory is processed, and whether no signal has arrived before the window at a block.
\<close>

record lp_node =
  get_logs :: "json \<Rightarrow> int \<Rightarrow> int \<Rightarrow> pool_event list res"
  block_number :: "string \<Rightarrow> int res"
  keep_running :: "string \<Rightarrow> int \<Rightarrow> bool"
  keep_running_after :: "string \<Rightarrow> bool"

definition v2_entry :: "string \<Rightarrow> json \<Rightarrow> pool_event \<Rightarrow> json" where
  "v2_entry exchange_name fee event = JObj
     [(''pool_address'', JStr (pe_pool event)), (''fee'', fee), (''token0'', JStr (pe_token0 event)),
      (''token1'', JStr (pe_token1 event)), (''block_number'', JInt (pe_block event)),
      (''pool_id'', pe_unnamed event), (''type'', JStr ''UniswapV2''), (''exchange'', JStr exchange_name)]"

definition v3_entry :: "string \<Rightarrow> pool_event \<Rightarrow> json" where
  "v3_entry exchange_name event = JObj
     [(''pool_address'', JStr (pe_pool event)), (''fee'', JInt (pe_fee event)),
      (''token0'', JStr (pe_token0 event)), (''token1'', JStr (pe_token1 event)),
      (''block_number'', JInt (pe_block event)), (''type'', JStr ''UniswapV3''),
      (''exchange'', JStr exchange_name)]"

section \<open>One factory\<close>

text \<open>
  The entries on file. The scripts only ever write lists; another value in the file ends in an
  exception, which stands here for those of the later statements.
\<close>

definition stored_lps :: "json_codec \<Rightarrow> file_system \<Rightarrow> path \<Rightarrow> json list res" where
  "stored_lps c fs p =
     (if path_exists fs p
      then res_bind (read_json c fs p) (\<lambda>v. case v of JList xs \<Rightarrow> Inr xs | _ \<Rightarrow> Inl AttributeError)
      else Inr [])"

definition json_int :: "json \<Rightarrow> int res" where
  "json_int v = (case v of JInt n \<Rightarrow> Inr n | JBool b \<Rightarrow> Inr (of_bool b) | _ \<Rightarrow> Inl TypeError)"

definition previous_block :: "json list \<Rightarrow> json \<Rightarrow> int res" where
  "previous_block lp_data factory_deployment_block =
     (if lp_data = [] then json_int factory_deployment_block
      else res_bind (json_get (last lp_data) ''block_number'') json_int)"

text \<open>
  The loop over the windows. A signal leaves it before the next query; every window ends with
  a write of all entries found so far.
\<close>

fun fetch_windows ::
  "(int \<Rightarrow> int \<Rightarrow> pool_event list res) \<Rightarrow> (int \<Rightarrow> bool) \<Rightarrow> (pool_event \<Rightarrow> json) \<Rightarrow> json_codec \<Rightarrow> path \<Rightarrow>
     (int \<times> int) list \<Rightarrow> json list \<Rightarrow> (file_system, json list) act" where
  "fetch_windows logs keep entry c p [] lp_data = act_return lp_data"
| "fetch_windows logs keep entry c p ((i, end_block) # ws) lp_data =
     (if \<not> keep i then act_return lp_data
      else act_bind (act_lift (logs i end_block)) (\<lambda>events.
           act_bind (write_json c p (JList (lp_data @ map entry events))) (\<lambda>_.
             fetch_windows logs keep entry c p ws (lp_data @ map entry events))))"

text \<open>
  The last entry is looked at before the node is asked for its newest block, and \<open>range\<close> rejects
  a previous block that is no number after that.
\<close>

definition fetch_factory ::
  "lp_node \<Rightarrow> (string \<Rightarrow> json \<Rightarrow> pool_event \<Rightarrow> json) \<Rightarrow> string \<Rightarrow> json_codec \<Rightarrow> path \<Rightarrow> string \<Rightarrow> string \<times> json \<Rightarrow>
     (file_system, unit) act" where
  "fetch_factory node entry version c root chain_name = (\<lambda>(exchange_name, details).
     act_bind (act_lift (json_get details ''factory_address'')) (\<lambda>factory_address.
     act_bind (act_lift (json_get details ''factory_deployment_block'')) (\<lambda>deployment_block.
     act_bind (act_lift (json_get details ''fee'')) (\<lambda>fee.
     act_bind (mkdir (builder_dir root @ [chain_name])) (\<lambda>_.
     let data_file = chain_file root chain_name (''_'' @ exchange_name @ version) in
     act_bind (\<lambda>fs. (stored_lps c fs data_file, fs)) (\<lambda>lp_data.
     act_bind (act_lift (if lp_data = [] then Inr JNull else json_get (last lp_data) ''block_number'')) (\<lambda>_.
     act_bind (act_lift (block_number node exchange_name)) (\<lambda>current_block.
     act_bind (act_lift (previous_block lp_data deployment_block)) (\<lambda>previous.
     act_bind (fetch_windows (get_logs node factory_address) (keep_running node exchange_name)
         (entry exchange_name fee) c data_file (lp_windows (previous + 1) current_block) lp_data) (\<lambda>found.
     if keep_running_after node exchange_name then act_return ()
     else write_json c data_file (JList found)))))))))))"

section \<open>The scripts\<close>

definition fetch_chain ::
  "lp_node \<Rightarrow> (string \<Rightarrow> json \<Rightarrow> pool_event \<Rightarrow> json) \<Rightarrow> string \<Rightarrow> string \<Rightarrow> json_codec \<Rightarrow> path \<Rightarrow> string \<Rightarrow> json \<Rightarrow>
     (file_system, unit) act" where
  "fetch_chain node entry dex version c root chain_name chain =
     act_bind (act_lift (res_bind (json_get chain ''factories'') (\<lambda>f. res_bind (json_get f dex) json_items))) (\<lambda>kvs.
       act_each (fetch_factory node entry version c root chain_name) kvs)"

definition lp_fetcher_v2 ::
  "lp_node \<Rightarrow> json_codec \<Rightarrow> path \<Rightarrow> (string, json) dict \<Rightarrow> string option \<Rightarrow> (file_system, unit) act" where
  "lp_fetcher_v2 node c root =
     for_chains root (fetch_chain node v2_entry ''v2'' ''_v2.json'' c root)"

definition lp_fetcher_v3 ::
  "lp_node \<Rightarrow> json_codec \<Rightarrow> path \<Rightarrow> (string, json) dict \<Rightarrow> string option \<Rightarrow> (file_system, unit) act" where
  "lp_fetcher_v3 node c root =
     for_chains root (fetch_chain node (\<lambda>name _. v3_entry name) ''v3'' ''_v3.json'' c root)"

end
