(* ===== verification/Lp_Fetcher_Properties.thy ===== *)
theory Lp_Fetcher_Properties
  imports Lp_Fetcher
begin

text \<open>
  The pool fetchers miss no pool: whatever interrupts them, the file is complete up to the block
  of its last entry, and an undisturbed run reaches the newest block. What they get wrong is
  the boundary block of two windows, which is read twice.
\<close>

section \<open>A run over a prefix of the windows\<close>

abbreviation in_windows :: "pool_event list \<Rightarrow> (int \<times> int) list \<Rightarrow> pool_event list" where
  "in_windows evs ws \<equiv> scan pe_block evs ws"

text \<open>A node that answers truthfully when it answers.\<close>

definition truthful :: "pool_event list \<Rightarrow> (int \<Rightarrow> int \<Rightarrow> pool_event list res) \<Rightarrow> bool" where
  "truthful evs logs \<longleftrightarrow> (\<forall>i e es. logs i e = Inr es \<longrightarrow> es = filter (\<lambda>x. inside (pe_block x) (i, e)) evs)"

definition faithful_for :: "json_codec \<Rightarrow> json set \<Rightarrow> bool" where
  "faithful_for c X \<longleftrightarrow> (\<forall>xs. set xs \<subseteq> X \<longrightarrow> json_faithful c (JList xs))"

lemma stored_lps_fetch:
  "files.fetch c (JList []) fs p = Inr (JList xs) \<Longrightarrow> stored_lps c fs p = Inr xs"
  by (auto simp: files.fetch_def stored_lps_def split: if_splits)

lemma write_list:
  assumes "writable fs p" and "faithful_for c X" and "set xs \<subseteq> X"
  obtains fs' where "write_json c p (JList xs) fs = (Inr (), fs')" and "stored_lps c fs' p = Inr xs" and "writable fs' p"
proof -
  from assms(2,3) have good: "json_faithful c (JList xs)" by (simp add: faithful_for_def)
  obtain r fs' where w: "write_json c p (JList xs) fs = (r, fs')" by (cases "write_json c p (JList xs) fs")
  with files.write_ok [OF assms(1) good] have r: "r = Inr ()" by simp
  have "files.fetch c (JList []) fs' p = Inr (JList xs)"
    using files.fetch_written [of c p "JList xs" fs "JList []"] w r good by simp
  moreover have "writable fs' p" using files.open_written [OF assms(1), of c p "JList xs"] w by simp
  ultimately show thesis using that w r stored_lps_fetch by blast
qed

lemma fetch_windows_prefix:
  assumes "truthful evs logs" and "faithful_for c X" and "entry ` set evs \<subseteq> X"
    and "set lp \<subseteq> X" and "writable fs p" and "stored_lps c fs p = Inr lp"
    and "fetch_windows logs keep entry c p ws lp fs = (r, fs')"
  shows "\<exists>us vs. ws = us @ vs \<and> stored_lps c fs' p = Inr (lp @ map entry (in_windows evs us)) \<and> writable fs' p \<and>
     (\<forall>x. r = Inr x \<longrightarrow> x = lp @ map entry (in_windows evs us)) \<and>
     ((\<forall>i. keep i) \<and> (\<forall>i e. \<exists>es. logs i e = Inr es) \<longrightarrow> vs = [] \<and> (\<exists>x. r = Inr x))"
  using assms(4-)
proof (induction ws arbitrary: lp fs)
  case Nil
  then have "r = Inr lp" and "fs' = fs" by (auto simp: act_return_def)
  with Nil.prems(2,3) show ?case by (intro exI [of _ "[]"]) simp
next
  case (Cons w ws)
  obtain i e where w: "w = (i, e)" by (cases w)
  show ?case
  proof (cases "keep i")
    case False
    with Cons.prems w show ?thesis by (intro exI [of _ "[]"] exI [of _ "w # ws"]) (auto simp: act_return_def)
  next
    case True
    show ?thesis
    proof (cases "logs i e")
      case (Inl x)
      then have "\<not> (\<forall>i e. \<exists>es. logs i e = Inr es)" by (metis sum.distinct(1))
      with Inl True Cons.prems w show ?thesis
        by (intro exI [of _ "[]"] exI [of _ "w # ws"]) (auto simp: act_raise_def)
    next
      case (Inr es)
      let ?lp = "lp @ map entry es"
      have es: "es = filter (\<lambda>x. inside (pe_block x) w) evs" using assms(1) Inr w by (simp add: truthful_def)
      then have X: "set ?lp \<subseteq> X" using Cons.prems(1) assms(3) by auto
      obtain fs1 where 1: "write_json c p (JList ?lp) fs = (Inr (), fs1)" "stored_lps c fs1 p = Inr ?lp" "writable fs1 p"
        by (rule write_list [OF Cons.prems(2) assms(2) X])
      have "fetch_windows logs keep entry c p ws ?lp fs1 = (r, fs')"
        using Cons.prems(4) w True Inr 1(1) by (simp add: act_bind_def act_lift_def)
      from Cons.IH [OF X 1(3,2) this] obtain us vs where
        "ws = us @ vs" "stored_lps c fs' p = Inr (?lp @ map entry (in_windows evs us))" "writable fs' p"
        "\<forall>x. r = Inr x \<longrightarrow> x = ?lp @ map entry (in_windows evs us)"
        "(\<forall>i. keep i) \<and> (\<forall>i e. \<exists>es. logs i e = Inr es) \<longrightarrow> vs = [] \<and> (\<exists>x. r = Inr x)" by blast
      then show ?thesis by (intro exI [of _ "w # us"] exI [of _ vs]) (simp add: es)
    qed
  qed
qed

section \<open>Complete up to the last entry\<close>

lemma lp_windows_prefix_cover:
  "lp_windows i current = us @ vs \<Longrightarrow> us \<noteq> [] \<Longrightarrow> i \<le> n \<Longrightarrow> n \<le> snd (last us) \<Longrightarrow> \<exists>w\<in>set us. inside n w"
proof (induction i current arbitrary: us rule: lp_windows.induct)
  case (1 i current)
  let ?e = "if i + BLOCK_SPAN > current then current else i + BLOCK_SPAN"
  have le: "\<not> current < i" using "1.prems"(1,2) by (auto simp: lp_windows.simps)
  then have eq: "lp_windows i current = (i, ?e) # lp_windows (i + BLOCK_SPAN) current"
    by (subst lp_windows.simps) simp
  with "1.prems"(1,2) obtain us' where us: "us = (i, ?e) # us'" "lp_windows (i + BLOCK_SPAN) current = us' @ vs"
    by (cases us) auto
  show ?case
  proof (cases "n \<le> ?e")
    case True
    with us "1.prems"(3) show ?thesis by (auto simp: inside_def)
  next
    case False
    show ?thesis
    proof (cases "us' = []")
      case True
      with False us "1.prems"(4) show ?thesis by simp
    next
      case ne: False
      have "?e = i + BLOCK_SPAN"
      proof (rule ccontr)
        assume "?e \<noteq> i + BLOCK_SPAN"
        then have "lp_windows (i + BLOCK_SPAN) current = []" by (subst lp_windows.simps) (auto split: if_splits)
        with us(2) ne show False by simp
      qed
      with False have "i + BLOCK_SPAN \<le> n" by simp
      moreover have "n \<le> snd (last us')" using "1.prems"(4) us(1) ne by simp
      ultimately have "\<exists>w\<in>set us'. inside n w" by (rule "1.IH" [OF le us(2) ne])
      with us(1) show ?thesis by auto
    qed
  qed
qed

lemma lp_windows_snd: "w \<in> set (lp_windows i current) \<Longrightarrow> i \<le> snd w"
  using lp_windows_bounds [of w i current]
proof (induction i current rule: lp_windows.induct)
  case (1 i current)
  then show ?case
    using lp_windows_bounds [of w "i + BLOCK_SPAN" current]
    by (subst (asm) (2) lp_windows.simps) (auto simp: BLOCK_SPAN_def split: if_splits)
qed

lemma lp_windows_last: "lp_windows i current = us @ vs \<Longrightarrow> us \<noteq> [] \<Longrightarrow> w \<in> set us \<Longrightarrow> snd w \<le> snd (last us)"
proof (induction i current arbitrary: us rule: lp_windows.induct)
  case (1 i current)
  let ?e = "if i + BLOCK_SPAN > current then current else i + BLOCK_SPAN"
  have le: "\<not> current < i" using "1.prems"(1,2) by (auto simp: lp_windows.simps)
  then have "lp_windows i current = (i, ?e) # lp_windows (i + BLOCK_SPAN) current"
    by (subst lp_windows.simps) simp
  with "1.prems"(1,2) obtain us' where us: "us = (i, ?e) # us'" "lp_windows (i + BLOCK_SPAN) current = us' @ vs"
    by (cases us) auto
  show ?case
  proof (cases "us' = []")
    case True
    with us "1.prems"(3) show ?thesis by simp
  next
    case False
    have rest: "w \<in> set us' \<Longrightarrow> snd w \<le> snd (last us')" by (rule "1.IH" [OF le us(2) False])
    have "last us' \<in> set (lp_windows (i + BLOCK_SPAN) current)" using False us(2) by simp
    then have "?e \<le> snd (last us')"
      using lp_windows_snd [of "last us'" "i + BLOCK_SPAN" current] by auto
    with rest us(1) False "1.prems"(3) show ?thesis by auto
  qed
qed

text \<open>
  The entries are those of exactly the events after the deployment and up to the block the next
  run will resume from.
\<close>

definition complete_upto ::
  "pool_event list \<Rightarrow> (pool_event \<Rightarrow> json) \<Rightarrow> int \<Rightarrow> int \<Rightarrow> json list \<Rightarrow> bool" where
  "complete_upto evs entry deployment previous lp \<longleftrightarrow> previous_block lp (JInt deployment) = Inr previous \<and>
     deployment \<le> previous \<and>
     set lp = entry ` {e \<in> set evs. deployment < pe_block e \<and> pe_block e \<le> previous}"

definition dated :: "(pool_event \<Rightarrow> json) \<Rightarrow> bool" where
  "dated entry \<longleftrightarrow> (\<forall>e. json_get (entry e) ''block_number'' = Inr (JInt (pe_block e)))"

lemma entries_dated: "dated (v2_entry name fee)" "dated (v3_entry name)"
  by (simp_all add: dated_def v2_entry_def v3_entry_def)

lemma complete_upto_extend:
  assumes c: "complete_upto evs entry deployment previous lp" and dated: "dated entry"
    and sorted: "sorted_wrt (\<lambda>x y. pe_block x \<le> pe_block y) evs"
    and us: "lp_windows (previous + 1) current = us @ vs"
  shows "\<exists>later\<ge>previous. complete_upto evs entry deployment later (lp @ map entry (in_windows evs us)) \<and>
     (vs = [] \<longrightarrow> (\<forall>e\<in>set evs. later < pe_block e \<longrightarrow> current < pe_block e))"
proof (cases "in_windows evs us = []")
  case True
  have "current < pe_block e" if "vs = []" "e \<in> set evs" "previous < pe_block e" for e
  proof (rule ccontr)
    assume "\<not> current < pe_block e"
    with that(3) lp_windows_cover [of "previous + 1" "pe_block e" current] us that(1)
    obtain w where "w \<in> set us" "inside (pe_block e) w" by auto
    with that(2) have "e \<in> set (in_windows evs us)" by (auto simp: set_scan_windows)
    with True show False by simp
  qed
  with c True show ?thesis by auto
next
  case False
  let ?new = "in_windows evs us" and ?l = "lp @ map entry (in_windows evs us)"
  let ?later = "pe_block (last ?new)"
  have ne: "us \<noteq> []" using False by auto
  have ordered: "sorted_wrt (\<lambda>x y. pe_block x \<le> pe_block y) ?new"
    by (rule lp.scan_sorted [of "previous + 1" current "lp_windows (previous + 1) current", OF _ us sorted])
      (simp add: lp_scans_def)
  have new: "x \<in> set evs \<and> previous < pe_block x \<and> pe_block x \<le> ?later" if "x \<in> set ?new" for x
  proof -
    from that obtain w where w: "w \<in> set us" "x \<in> set evs" "inside (pe_block x) w" by (auto simp: set_scan_windows)
    then have "previous < pe_block x"
      using lp_windows_bounds [of w "previous + 1" current] us by (force simp: inside_def)
    moreover have "pe_block x \<le> ?later"
    proof -
      obtain ys z where z: "?new = ys @ [z]" using False by (metis append_butlast_last_id)
      with ordered that show ?thesis by (auto simp: sorted_wrt_append)
    qed
    ultimately show ?thesis using w(2) by simp
  qed
  have later: "?later \<le> snd (last us)"
  proof -
    have "last ?new \<in> set ?new" using False by simp
    then obtain w where "w \<in> set us" "inside (pe_block (last ?new)) w" by (auto simp: set_scan_windows)
    with lp_windows_last [OF us ne, of w] show ?thesis by (simp add: inside_def)
  qed
  have "previous < ?later" using new [of "last ?new"] False by simp
  have "set ?new = {e \<in> set evs. previous < pe_block e \<and> pe_block e \<le> ?later}"
  proof (intro equalityI subsetI)
    fix x assume "x \<in> {e \<in> set evs. previous < pe_block e \<and> pe_block e \<le> ?later}"
    then have x: "x \<in> set evs" "previous + 1 \<le> pe_block x" "pe_block x \<le> snd (last us)" using later by auto
    from lp_windows_prefix_cover [OF us ne x(2,3)] x(1) show "x \<in> set ?new" by (auto simp: set_scan_windows)
  qed (use new in auto)
  moreover have "{e \<in> set evs. deployment < pe_block e \<and> pe_block e \<le> ?later} =
      {e \<in> set evs. deployment < pe_block e \<and> pe_block e \<le> previous} \<union>
      {e \<in> set evs. previous < pe_block e \<and> pe_block e \<le> ?later}"
    using c \<open>previous < ?later\<close> by (auto simp: complete_upto_def)
  ultimately have "set ?l = entry ` {e \<in> set evs. deployment < pe_block e \<and> pe_block e \<le> ?later}"
    using c by (simp add: complete_upto_def image_Un)
  moreover have "previous_block ?l (JInt deployment) = Inr ?later"
    using False dated by (simp add: previous_block_def last_map dated_def json_int_def)
  moreover have "current < pe_block e" if "vs = []" "e \<in> set evs" "?later < pe_block e" for e
  proof (rule ccontr)
    assume "\<not> current < pe_block e"
    with that(3) \<open>previous < ?later\<close> lp_windows_cover [of "previous + 1" "pe_block e" current] us that(1)
    obtain w where "w \<in> set us" "inside (pe_block e) w" by auto
    with that(2) have "e \<in> set ?new" by (auto simp: set_scan_windows)
    with new that(3) show False by force
  qed
  ultimately show ?thesis
    using c \<open>previous < ?later\<close> by (intro exI [of _ ?later]) (auto simp: complete_upto_def)
qed

section \<open>One factory\<close>

text \<open>What the fetcher needs of the files: a directory, and a codec that keeps lists of entries.\<close>

definition fetch_ready ::
  "json_codec \<Rightarrow> pool_event list \<Rightarrow> (pool_event \<Rightarrow> json) \<Rightarrow> file_system \<Rightarrow> path \<Rightarrow> bool" where
  "fetch_ready c evs entry fs p \<longleftrightarrow> writable fs p \<and> faithful_for c (entry ` set evs) \<and> dated entry \<and>
     sorted_wrt (\<lambda>x y. pe_block x \<le> pe_block y) evs"

lemma fetch_factory_run:
  assumes ready: "fetch_ready c evs (entry name fee) fs (chain_file root chain (''_'' @ name @ version))"
    and truthful: "truthful evs (get_logs node addr)"
    and details: "json_get details ''factory_address'' = Inr addr"
      "json_get details ''factory_deployment_block'' = Inr (JInt deployment)" "json_get details ''fee'' = Inr fee"
    and old: "stored_lps c fs (chain_file root chain (''_'' @ name @ version)) = Inr lp"
      "complete_upto evs (entry name fee) deployment previous lp"
    and run: "fetch_factory node entry version c root chain (name, details) fs = (r, fs')"
  shows "\<exists>lp' previous'. stored_lps c fs' (chain_file root chain (''_'' @ name @ version)) = Inr lp' \<and>
     previous \<le> previous' \<and> complete_upto evs (entry name fee) deployment previous' lp' \<and>
     (\<forall>current. block_number node name = Inr current \<and> (\<forall>i. keep_running node name i) \<and>
        (\<forall>i e. \<exists>es. get_logs node addr i e = Inr es) \<longrightarrow>
        r = Inr () \<and> (\<forall>e\<in>set evs. previous' < pe_block e \<longrightarrow> current < pe_block e))"
proof -
  let ?p = "chain_file root chain (''_'' @ name @ version)" and ?e = "entry name fee"
  have w: "writable fs ?p" and dated: "dated ?e" and X: "faithful_for c (?e ` set evs)"
    and sorted: "sorted_wrt (\<lambda>x y. pe_block x \<le> pe_block y) evs"
    using ready by (auto simp: fetch_ready_def)
  have dir: "mkdir (builder_dir root @ [chain]) fs = (Inr (), fs)"
    using w by (simp add: mkdir_def writable_def chain_file_def butlast_append)
  have prev: "previous_block lp (JInt deployment) = Inr previous" using old(2) by (simp add: complete_upto_def)
  have lastok: "\<exists>v. (if lp = [] then Inr JNull else json_get (last lp) ''block_number'') = Inr v"
    using prev by (auto simp: previous_block_def res_bind_Inr_iff)
  show ?thesis
  proof (cases "block_number node name")
    case (Inl x)
    with run details dir old(1) lastok have "fs' = fs"
      by (auto simp: fetch_factory_def Let_def act_bind_def act_lift_def)
    with old Inl show ?thesis by auto
  next
    case (Inr current)
    obtain r1 fs1 where f: "fetch_windows (get_logs node addr) (keep_running node name) ?e c ?p
        (lp_windows (previous + 1) current) lp fs = (r1, fs1)"
      by (cases "fetch_windows (get_logs node addr) (keep_running node name) ?e c ?p
        (lp_windows (previous + 1) current) lp fs")
    have "set lp \<subseteq> ?e ` set evs" using old(2) by (auto simp: complete_upto_def)
    from fetch_windows_prefix [OF truthful X order_refl this w old(1) f] obtain us vs where
      us: "lp_windows (previous + 1) current = us @ vs"
      and st: "stored_lps c fs1 ?p = Inr (lp @ map ?e (in_windows evs us))" and w1: "writable fs1 ?p"
      and r1: "\<forall>x. r1 = Inr x \<longrightarrow> x = lp @ map ?e (in_windows evs us)"
      and all: "(\<forall>i. keep_running node name i) \<and> (\<forall>i e. \<exists>es. get_logs node addr i e = Inr es) \<longrightarrow> vs = [] \<and> (\<exists>x. r1 = Inr x)"
      by blast
    let ?l = "lp @ map ?e (in_windows evs us)"
    have X': "set ?l \<subseteq> ?e ` set evs" using old(2) by (auto simp: complete_upto_def set_scan_windows)
    have end_state: "stored_lps c fs' ?p = Inr ?l \<and> (\<forall>x. r1 = Inr x \<longrightarrow> r = Inr ())"
    proof (cases r1)
      case (Inl x)
      with run details dir old(1) lastok Inr prev f have "fs' = fs1"
        by (auto simp: fetch_factory_def Let_def act_bind_def act_lift_def)
      with st Inl show ?thesis by simp
    next
      case r1_ok: (Inr x)
      with r1 have x: "x = ?l" by simp
      obtain fs2 where w2: "write_json c ?p (JList ?l) fs1 = (Inr (), fs2)" "stored_lps c fs2 ?p = Inr ?l"
        by (rule write_list [OF w1 X X'])
      from run details dir old(1) lastok Inr prev f r1_ok
      have "(if keep_running_after node name then act_return () else write_json c ?p (JList x)) fs1 = (r, fs')"
        by (auto simp: fetch_factory_def Let_def act_bind_def act_lift_def)
      with w2 st x show ?thesis by (auto simp: act_return_def split: if_splits)
    qed
    from complete_upto_extend [OF old(2) dated sorted us] obtain later where
      "previous \<le> later" "complete_upto evs ?e deployment later ?l"
      "vs = [] \<longrightarrow> (\<forall>e\<in>set evs. later < pe_block e \<longrightarrow> current < pe_block e)" by blast
    with end_state all Inr show ?thesis by (intro exI [of _ ?l] exI [of _ later]) auto
  qed
qed

section \<open>A chain with one factory\<close>

definition tiny_events :: "pool_event list" where
  "tiny_events = [\<lparr>pe_pool = ''0xp1'', pe_token0 = ''W'', pe_token1 = ''A'', pe_fee = 500, pe_unnamed = JInt 1, pe_block = 7\<rparr>,
     \<lparr>pe_pool = ''0xp2'', pe_token0 = ''A'', pe_token1 = ''W'', pe_fee = 500, pe_unnamed = JInt 2, pe_block = 10001\<rparr>]"

definition tiny_entry :: "pool_event \<Rightarrow> json" where
  "tiny_entry = v2_entry ''uni'' (JInt 3)"

text \<open>A codec for lists of the two entries: one character for each.\<close>

definition tiny_codec :: json_codec where
  "tiny_codec = \<lparr>u_loads = (\<lambda>t. Inr (JList (map (\<lambda>x. tiny_entry (tiny_events ! (if x = CHR ''a'' then 0 else 1))) t))),
     u_dumps = (\<lambda>v. case v of
        JList xs \<Rightarrow> Inr (map (\<lambda>x. if x = tiny_entry (tiny_events ! 0) then CHR ''a'' else CHR ''b'') xs)
      | _ \<Rightarrow> Inl TypeError)\<rparr>"

definition tiny_node :: lp_node where
  "tiny_node = \<lparr>get_logs = (\<lambda>a i e. Inr (filter (\<lambda>x. inside (pe_block x) (i, e)) tiny_events)),
     block_number = (\<lambda>_. Inr 12000), keep_running = (\<lambda>_ _. True), keep_running_after = (\<lambda>_. True)\<rparr>"

definition tiny_details :: json where
  "tiny_details = JObj [(''factory_address'', JStr ''0xf''), (''factory_deployment_block'', JInt 0), (''fee'', JInt 3)]"

definition tiny_fs :: file_system where
  "tiny_fs = [([''cb''], Dir), ([''cb'', ''data''], Dir), ([''cb'', ''data'', ''base''], Dir)]"

definition tiny_path :: path where
  "tiny_path = chain_file [''cb''] ''base'' (''_'' @ ''uni'' @ ''_v2.json'')"

lemmas tiny_defs = tiny_events_def tiny_entry_def tiny_codec_def tiny_node_def tiny_details_def tiny_fs_def

lemma tiny_faithful: "faithful_for tiny_codec (tiny_entry ` set tiny_events)"
proof -
  have "map (\<lambda>x. tiny_entry (tiny_events ! (if (if x = tiny_entry (tiny_events ! 0) then CHR ''a'' else CHR ''b'') = CHR ''a'' then 0 else 1))) xs = xs"
    if "set xs \<subseteq> tiny_entry ` set tiny_events" for xs
    using that by (induction xs) (auto simp: tiny_events_def)
  then show ?thesis by (simp add: faithful_for_def json_faithful_def tiny_codec_def comp_def)
qed

lemma tiny_ready: "fetch_ready tiny_codec tiny_events tiny_entry tiny_fs tiny_path"
  using tiny_faithful entries_dated
  by (simp add: fetch_ready_def tiny_entry_def)
    (simp add: writable_def tiny_fs_def tiny_path_def chain_file_def builder_dir_def tiny_events_def)

lemma tiny_truthful: "truthful tiny_events (get_logs tiny_node (JStr ''0xf''))"
  by (simp add: truthful_def tiny_node_def)

lemma tiny_old: "stored_lps tiny_codec tiny_fs tiny_path = Inr []"
  by (simp add: stored_lps_def path_exists_def tiny_fs_def tiny_path_def chain_file_def builder_dir_def)

lemma tiny_complete: "complete_upto tiny_events tiny_entry 0 0 []"
  by (simp add: complete_upto_def previous_block_def json_int_def tiny_events_def)

section \<open>Properties\<close>

text \<open>
  C6: The pool file stays complete up to the block it will be resumed from, whatever ends a run: if the
  node answers truthfully when it answers, then after any run of a factory, interrupted by a
  signal, ended by an exception of the node or not at all, the file holds exactly the pools
  created after the deployment and up to the block of its last entry.
\<close>

theorem lp_file_stays_complete:
  assumes "fetch_ready c evs (entry name fee) fs (chain_file root chain (''_'' @ name @ version))"
    and "truthful evs (get_logs node addr)"
    and "json_get details ''factory_address'' = Inr addr"
    and "json_get details ''factory_deployment_block'' = Inr (JInt deployment)" and "json_get details ''fee'' = Inr fee"
    and "stored_lps c fs (chain_file root chain (''_'' @ name @ version)) = Inr lp"
    and "complete_upto evs (entry name fee) deployment previous lp"
    and "fetch_factory node entry version c root chain (name, details) fs = (r, fs')"
  shows "\<exists>lp' previous'. stored_lps c fs' (chain_file root chain (''_'' @ name @ version)) = Inr lp' \<and>
     previous_block lp' (JInt deployment) = Inr previous' \<and> previous \<le> previous' \<and>
     set lp' = entry name fee ` {e \<in> set evs. deployment < pe_block e \<and> pe_block e \<le> previous'}"
  using fetch_factory_run [OF assms] by (auto simp: complete_upto_def)

theorem lp_file_stays_complete_witness:
  "\<exists>r fs' lp'. fetch_factory (tiny_node\<lparr>keep_running := \<lambda>_ i. i < 5\<rparr>) v2_entry ''_v2.json'' tiny_codec [''cb''] ''base''
     (''uni'', tiny_details) tiny_fs = (r, fs') \<and> stored_lps tiny_codec fs' tiny_path = Inr lp'"
proof -
  let ?node = "tiny_node\<lparr>keep_running := \<lambda>_ i. i < 5\<rparr>"
  obtain r fs' where r: "fetch_factory ?node v2_entry ''_v2.json'' tiny_codec [''cb''] ''base'' (''uni'', tiny_details) tiny_fs
      = (r, fs')" by (cases "fetch_factory ?node v2_entry ''_v2.json'' tiny_codec [''cb''] ''base'' (''uni'', tiny_details) tiny_fs")
  have "truthful tiny_events (get_logs ?node (JStr ''0xf''))" using tiny_truthful by simp
  from lp_file_stays_complete [where entry = v2_entry and name = "''uni''" and fee = "JInt 3" and root = "[''cb'']" and chain = "''base''"
        and version = "''_v2.json''" and evs = tiny_events,
      OF tiny_ready [unfolded tiny_entry_def tiny_path_def] this _ _ _
      tiny_old [unfolded tiny_path_def] tiny_complete [unfolded tiny_entry_def] r]
  show ?thesis using r by (auto simp: tiny_details_def tiny_path_def)
qed

text \<open>
  C36: No pool is missed: when the node answers and no signal arrives, a run succeeds and the file
  then holds exactly the pools created after the deployment, up to the newest block.
\<close>

theorem lp_fetch_complete:
  assumes "fetch_ready c evs (entry name fee) fs (chain_file root chain (''_'' @ name @ version))"
    and "truthful evs (get_logs node addr)" and "\<forall>i e. \<exists>es. get_logs node addr i e = Inr es"
    and "\<forall>i. keep_running node name i" and "block_number node name = Inr current"
    and "json_get details ''factory_address'' = Inr addr"
    and "json_get details ''factory_deployment_block'' = Inr (JInt deployment)" and "json_get details ''fee'' = Inr fee"
    and "stored_lps c fs (chain_file root chain (''_'' @ name @ version)) = Inr lp"
    and "complete_upto evs (entry name fee) deployment previous lp" and "\<forall>e\<in>set evs. pe_block e \<le> current"
  shows "\<exists>fs' lp'. fetch_factory node entry version c root chain (name, details) fs = (Inr (), fs') \<and>
     stored_lps c fs' (chain_file root chain (''_'' @ name @ version)) = Inr lp' \<and>
     set lp' = entry name fee ` {e \<in> set evs. deployment < pe_block e}"
proof -
  obtain r fs' where r: "fetch_factory node entry version c root chain (name, details) fs = (r, fs')"
    by (cases "fetch_factory node entry version c root chain (name, details) fs")
  from fetch_factory_run [OF assms(1,2,6-10) r] assms(3-5) obtain lp' previous' where
    l: "stored_lps c fs' (chain_file root chain (''_'' @ name @ version)) = Inr lp'"
      "complete_upto evs (entry name fee) deployment previous' lp'" "r = Inr ()"
      "\<forall>e\<in>set evs. previous' < pe_block e \<longrightarrow> current < pe_block e" by blast
  have "pe_block e \<le> previous'" if "e \<in> set evs" for e
    using l(4) assms(11) that by (meson linorder_not_le)
  with l r show ?thesis by (intro exI [of _ fs'] exI [of _ lp']) (auto simp: complete_upto_def)
qed

theorem lp_fetch_complete_witness:
  "\<exists>fs' lp'. fetch_factory tiny_node v2_entry ''_v2.json'' tiny_codec [''cb''] ''base'' (''uni'', tiny_details) tiny_fs = (Inr (), fs') \<and>
     stored_lps tiny_codec fs' tiny_path = Inr lp' \<and> set lp' = tiny_entry ` set tiny_events"
proof -
  have "\<exists>fs' lp'. fetch_factory tiny_node v2_entry ''_v2.json'' tiny_codec [''cb''] ''base'' (''uni'', tiny_details) tiny_fs = (Inr (), fs') \<and>
     stored_lps tiny_codec fs' (chain_file [''cb''] ''base'' (''_'' @ ''uni'' @ ''_v2.json'')) = Inr lp' \<and>
     set lp' = v2_entry ''uni'' (JInt 3) ` {e \<in> set tiny_events. 0 < pe_block e}"
    by (rule lp_fetch_complete [where entry = v2_entry and name = "''uni''" and fee = "JInt 3" and root = "[''cb'']" and chain = "''base''"
        and version = "''_v2.json''" and evs = tiny_events and current = 12000,
        OF tiny_ready [unfolded tiny_entry_def tiny_path_def] tiny_truthful _ _ _ _ _ _
        tiny_old [unfolded tiny_path_def] tiny_complete [unfolded tiny_entry_def]])
      (simp_all add: tiny_node_def tiny_details_def, simp_all add: tiny_events_def)
  moreover have "{e \<in> set tiny_events. 0 < pe_block e} = set tiny_events" by (auto simp: tiny_events_def)
  ultimately show ?thesis by (simp add: tiny_entry_def tiny_path_def)
qed

text \<open>
  C38: The block at which a window ends is queried again as the first block of the next window:
  every block of the range is in exactly one window, except the multiples of the span after
  its first block, which are in two.
\<close>

theorem lp_windows_multiplicity:
  assumes "i \<le> n" and "n \<le> current"
  shows "length (filter (inside n) (lp_windows i current)) = (if i < n \<and> BLOCK_SPAN dvd n - i then 2 else 1)"
  using assms
proof (induction i current rule: lp_windows.induct)
  case (1 i current)
  let ?e = "if i + BLOCK_SPAN > current then current else i + BLOCK_SPAN"
  let ?rest = "lp_windows (i + BLOCK_SPAN) current"
  from "1.prems" have le: "\<not> current < i" by simp
  then have eq: "lp_windows i current = (i, ?e) # ?rest" by (subst lp_windows.simps) simp
  consider "n < i + BLOCK_SPAN" | "i + BLOCK_SPAN \<le> n" by linarith
  then show ?case
  proof cases
    case 1
    have none: "filter (inside n) ?rest = []"
    proof (rule filter_False, rule ballI)
      fix w assume "w \<in> set ?rest"
      then show "\<not> inside n w" using lp_windows_bounds [of w "i + BLOCK_SPAN" current] 1 by (auto simp: inside_def)
    qed
    have "\<not> (i < n \<and> BLOCK_SPAN dvd n - i)" using 1 by (auto dest: zdvd_imp_le)
    with none eq "1.prems" 1 show ?thesis by simp
  next
    case 2
    with "1.IH" [OF le] "1.prems" have IH: "length (filter (inside n) ?rest) =
        (if i + BLOCK_SPAN < n \<and> BLOCK_SPAN dvd n - (i + BLOCK_SPAN) then 2 else 1)" by simp
    have dvd: "BLOCK_SPAN dvd n - (i + BLOCK_SPAN) \<longleftrightarrow> BLOCK_SPAN dvd n - i"
      by (metis diff_diff_eq dvd_diff_left_iff dvd_refl)
    have "i < n" using 2 by (smt (verit) BLOCK_SPAN_pos(1))
    show ?thesis
    proof (cases "n = i + BLOCK_SPAN")
      case True
      with IH eq "1.prems" \<open>i < n\<close> show ?thesis by simp
    next
      case False
      with 2 "1.prems" have "\<not> inside n (i, ?e)" by simp
      with IH eq dvd False 2 \<open>i < n\<close> show ?thesis by simp
    qed
  qed
qed

theorem lp_windows_multiplicity_witness:
  "length (filter (inside 10001) (lp_windows 1 12000)) = 2"
  using lp_windows_multiplicity [of 1 10001 12000] by (simp add: BLOCK_SPAN_def)

end
