(* ===== verification/Liquidity_Fetcher.thy ===== *)
theory Liquidity_Fetcher
  imports Builder_Files Block_Ranges
begin

text \<open>
  The V3 liquidity fetcher (builders/liquidity_fetcher.py): it queries the Mint and the Burn
  events of all pools from the block after its last snapshot, with a block span that shrinks
  when the node refuses and grows when it answers, groups them by pool, and applies them per
  pool in the order of block and transaction. This theory ends with the updates in the order
  in which they are handed over; \<open>Liquidity_Snapshot\<close> has the pool object that takes them, the merging
  of its tick data into the snapshot, and the script.
\<close>

section \<open>Positions in the chain\<close>

text \<open>The sort key \<open>(block, tx_index)\<close>, with the order of Python's tuples.\<close>

datatype event_pos = Event_Pos (pos_block: int) (pos_tx: int)

instantiation event_pos :: linorder
begin

definition less_eq_event_pos :: "event_pos \<Rightarrow> event_pos \<Rightarrow> bool" where
  "less_eq_event_pos p q \<longleftrightarrow> pos_block p < pos_block q \<or> (pos_block p = pos_block q \<and> pos_tx p \<le> pos_tx q)"

definition less_event_pos :: "event_pos \<Rightarrow> event_pos \<Rightarrow> bool" where
  "less_event_pos p q \<longleftrightarrow> pos_block p < pos_block q \<or> (pos_block p = pos_block q \<and> pos_tx p < pos_tx q)"

instance
  by standard (auto simp: less_eq_event_pos_def less_event_pos_def event_pos.expand)

end

section \<open>Events\<close>

text \<open>A decoded log as the loop reads it, and the tuple it appends.\<close>

record liq_log =
  ll_pool :: string
  ll_block :: int
  ll_tx :: int
  ll_burn :: bool
  ll_amount :: int
  ll_lower :: int
  ll_upper :: int

record liq_event =
  le_pos :: event_pos
  le_liquidity :: int
  le_lower :: int
  le_upper :: int

definition log_liquidity :: "liq_log \<Rightarrow> int" where
  "log_liquidity l = ll_amount l * (if ll_burn l then - 1 else 1)"

definition event_of :: "liq_log \<Rightarrow> liq_event" where
  "event_of l = \<lparr>le_pos = Event_Pos (ll_block l) (ll_tx l), le_liquidity = log_liquidity l,
     le_lower = ll_lower l, le_upper = ll_upper l\<rparr>"

text \<open>The inner loop over the logs of one answer.\<close>

fun add_logs :: "liq_log list \<Rightarrow> (string, liq_event list) dict \<Rightarrow> (string, liq_event list) dict" where
  "add_logs [] d = d"
| "add_logs (l # ls) d =
     (if log_liquidity l = 0 then add_logs ls d
      else let es = (case map_of d (ll_pool l) of None \<Rightarrow> [] | Some es \<Rightarrow> es)
           in add_logs ls (AList.update (ll_pool l) (es @ [event_of l]) d))"

section \<open>The query loop\<close>

text \<open>
  \<open>int(0.75 * span)\<close> and \<open>int(1.05 * span)\<close>: for spans far below \<open>2 ^ 50\<close> the rounding of the
  floating-point product does not reach an integer, so truncation is integer division.
\<close>

definition shrink :: "int \<Rightarrow> int" where
  "shrink block_span = 3 * block_span div 4"

definition grow :: "int \<Rightarrow> int" where
  "grow block_span = 21 * block_span div 20"

text \<open>
  \<open>logs k i e\<close> is the answer to the \<open>k\<close>-th query, for the blocks from \<open>i\<close> to \<open>e\<close>; any exception
  of the node shrinks the span and repeats. The result lists the answered windows with their
  logs; \<open>None\<close> means that the loop does not end.
\<close>

partial_function (option) query_loop ::
  "(nat \<Rightarrow> int \<Rightarrow> int \<Rightarrow> 'l list res) \<Rightarrow> int \<Rightarrow> int \<Rightarrow> int \<Rightarrow> nat \<Rightarrow> ((int \<times> int) \<times> 'l list) list option" where
  "query_loop logs newest_block start_block block_span k =
     (let end_block = min newest_block (start_block + block_span) in
      case logs k start_block end_block of
        Inl e \<Rightarrow> query_loop logs newest_block start_block (shrink block_span) (Suc k)
      | Inr ls \<Rightarrow>
          if end_block = newest_block then Some [((start_block, end_block), ls)]
          else Option.bind (query_loop logs newest_block (end_block + 1) (grow block_span) (Suc k))
                 (\<lambda>rest. Some (((start_block, end_block), ls) # rest)))"

declare query_loop.simps [code]

definition UNISWAPV3_START_BLOCK :: int where
  "UNISWAPV3_START_BLOCK = 1000"

definition start_block :: "int option \<Rightarrow> int" where
  "start_block snapshot_last_block = (case snapshot_last_block of
     None \<Rightarrow> UNISWAPV3_START_BLOCK | Some n \<Rightarrow> max UNISWAPV3_START_BLOCK (n + 1))"

text \<open>The Mint events and then the Burn events, each from the start block with the full span.\<close>

definition fetch_liquidity ::
  "(nat \<Rightarrow> int \<Rightarrow> int \<Rightarrow> liq_log list res) \<Rightarrow> (nat \<Rightarrow> int \<Rightarrow> int \<Rightarrow> liq_log list res) \<Rightarrow> int option \<Rightarrow> int \<Rightarrow>
     (string, liq_event list) dict option" where
  "fetch_liquidity mints burns snapshot_last_block newest_block =
     Option.bind (query_loop mints newest_block (start_block snapshot_last_block) BLOCK_SPAN 0) (\<lambda>ms.
     Option.bind (query_loop burns newest_block (start_block snapshot_last_block) BLOCK_SPAN 0) (\<lambda>bs.
       Some (add_logs (concat (map snd bs)) (add_logs (concat (map snd ms)) []))))"

section \<open>Pool data, snapshot and updates\<close>

fun add_lps :: "json list \<Rightarrow> (json, json) dict \<Rightarrow> (json, json) dict res" where
  "add_lps [] d = Inr d"
| "add_lps (lp # lps) d =
     res_bind (json_key lp ''pool_address'') (\<lambda>a.
       if hashable a then add_lps lps (AList.update a lp d) else Inl TypeError)"

text \<open>The pool files; \<open>None\<close> is the early return of the script when one of them is missing.\<close>

fun read_lps ::
  "json_codec \<Rightarrow> file_system \<Rightarrow> path list \<Rightarrow> (json, json) dict \<Rightarrow> (json, json) dict option res" where
  "read_lps c fs [] d = Inr (Some d)"
| "read_lps c fs (p # ps) d =
     (if path_exists fs p
      then res_bind (res_bind (read_json c fs p) json_iter) (\<lambda>xs.
           res_bind (add_lps xs d) (read_lps c fs ps))
      else Inr None)"

text \<open>
  The last block of the snapshot file: a file that cannot be read or parsed counts as absent; a
  snapshot at or beyond the newest block fails an assertion. The block number is an integer,
  as the script writes it; \<open>load_snapshot\<close> reads the rest of the file.
\<close>

definition snapshot_block :: "json_codec \<Rightarrow> file_system \<Rightarrow> path \<Rightarrow> int \<Rightarrow> int option res" where
  "snapshot_block c fs p newest_block =
     (case read_json c fs p of
        Inl e \<Rightarrow> Inr None
      | Inr v \<Rightarrow> (case v of
          JObj kvs \<Rightarrow> res_bind (dict_index kvs ''snapshot_block'') (\<lambda>b. case b of
              JInt n \<Rightarrow> if n < newest_block then Inr (Some n) else Inl AssertionError
            | _ \<Rightarrow> Inl TypeError)
        | JList xs \<Rightarrow> Inl TypeError
        | _ \<Rightarrow> Inl AttributeError))"

definition TICKSPACING_BY_FEE :: "(int \<times> int) list" where
  "TICKSPACING_BY_FEE =
     [(100, 1), (200, 4), (300, 6), (400, 8), (500, 10), (2500, 50), (3000, 60), (10000, 200)]"

text \<open>What one pool's object is set up with, and the updates it is given, in order.\<close>

record pool_plan =
  plan_pool :: string
  plan_fee :: json
  plan_spacing :: int
  plan_updates :: "(int \<times> int \<times> int \<times> int) list"

definition sorted_events :: "liq_event list \<Rightarrow> liq_event list" where
  "sorted_events es = sort_key le_pos es"

definition update_of :: "liq_event \<Rightarrow> int \<times> int \<times> int \<times> int" where
  "update_of e = (pos_block (le_pos e), le_liquidity e, le_lower e, le_upper e)"

definition tick_spacing :: "json \<Rightarrow> int res" where
  "tick_spacing fee = (case fee of
     JInt n \<Rightarrow> dict_index TICKSPACING_BY_FEE n
   | v \<Rightarrow> if hashable v then Inl KeyError else Inl TypeError)"

text \<open>The loop over the pools with events: pools without data are passed over.\<close>

fun plan_pools :: "(json, json) dict \<Rightarrow> (string, liq_event list) dict \<Rightarrow> pool_plan list res" where
  "plan_pools lp_data [] = Inr []"
| "plan_pools lp_data ((pool_address, es) # rest) =
     (case map_of lp_data (JStr pool_address) of
        None \<Rightarrow> plan_pools lp_data rest
      | Some lp \<Rightarrow>
          if \<not> truthy lp then plan_pools lp_data rest
          else res_bind (json_key lp ''fee'') (\<lambda>fee. res_bind (tick_spacing fee) (\<lambda>spacing.
               res_bind (plan_pools lp_data rest) (\<lambda>plans.
                 Inr (\<lparr>plan_pool = pool_address, plan_fee = fee, plan_spacing = spacing,
                       plan_updates = map update_of (sorted_events es)\<rparr> # plans)))))"

section \<open>One chain\<close>

text \<open>
  How the work on one chain ends when it does not raise: a pool file is missing and the script
  returns, a query loop does not end, or the pools get their updates.
\<close>

datatype liq_outcome = Lp_File_Missing | Does_Not_End | Planned (plans_of: "pool_plan list")

text \<open>
  The body of the loop over the chains, up to the calls of the pool object. \<open>lp_bound\<close> says whether an
  earlier chain has bound the variable \<open>lp\<close>, which the set-up of the pool object uses after
  the loops over the pool files.
\<close>

definition liquidity_chain ::
  "json_codec \<Rightarrow> file_system \<Rightarrow> path \<Rightarrow> string \<Rightarrow> json \<Rightarrow> bool \<Rightarrow> int \<Rightarrow>
   (nat \<Rightarrow> int \<Rightarrow> int \<Rightarrow> liq_log list res) \<Rightarrow> (nat \<Rightarrow> int \<Rightarrow> int \<Rightarrow> liq_log list res) \<Rightarrow> liq_outcome res" where
  "liquidity_chain c fs root chain_name chain lp_bound newest_block mints burns =
     res_bind (res_bind (json_get chain ''factories'') (\<lambda>f. res_bind (json_get f ''v3'') json_items)) (\<lambda>kvs.
     res_bind (read_lps c fs (map (\<lambda>(name, _). chain_file root chain_name (''_'' @ name @ ''_v3.json'')) kvs) []) (\<lambda>r.
     case r of
       None \<Rightarrow> Inr Lp_File_Missing
     | Some lp_data \<Rightarrow>
         res_bind (snapshot_block c fs (chain_file root chain_name ''_v3_liquidity_snapshot.json'') newest_block) (\<lambda>last.
         case fetch_liquidity mints burns last newest_block of
           None \<Rightarrow> Inr Does_Not_End
         | Some liquidity_events \<Rightarrow>
             if lp_data = [] \<and> \<not> lp_bound then Inl UnboundLocalError
             else res_bind (plan_pools lp_data liquidity_events) (\<lambda>plans. Inr (Planned plans)))))"

end
