(* ===== verification/Liquidity_Properties.thy ===== *)
theory Liquidity_Properties
  imports Liquidity_Fetcher "HOL-Library.Multiset"
begin

text \<open>
  The adaptive query loop reads every block of its range exactly once when it ends; it ends
  when the node answers small queries, and never when the node refuses all. The updates
  handed to a pool are its non-zero events in chain order.
\<close>

section \<open>The answered windows are contiguous\<close>

fun contiguous :: "int \<Rightarrow> int \<Rightarrow> (int \<times> int) list \<Rightarrow> bool" where
  "contiguous a b [] = False"
| "contiguous a b [w] = (w = (a, b))"
| "contiguous a b (w # v # ws) = (fst w = a \<and> a \<le> snd w \<and> snd w < b \<and> contiguous (snd w + 1) b (v # ws))"

lemma contiguous_ConsI:
  "contiguous (e + 1) b ws \<Longrightarrow> a \<le> e \<Longrightarrow> e < b \<Longrightarrow> contiguous a b ((a, e) # ws)"
  by (cases ws) auto

lemma contiguous_bounds: "contiguous a b ws \<Longrightarrow> w \<in> set ws \<Longrightarrow> a \<le> fst w \<and> snd w \<le> b"
  by (induction a b ws rule: contiguous.induct) force+

lemma contiguous_covers: "contiguous a b ws \<Longrightarrow> a \<le> n \<Longrightarrow> n \<le> b \<Longrightarrow> \<exists>w\<in>set ws. inside n w"
proof (induction a b ws rule: contiguous.induct)
  case (3 a b w v ws)
  then show ?case by (cases "n \<le> snd w") (auto simp: inside_def)
qed (auto simp: inside_def)

lemma contiguous_disjoint: "contiguous a b ws \<Longrightarrow> sorted_wrt (\<lambda>v w. snd v < fst w) ws"
proof (induction a b ws rule: contiguous.induct)
  case (3 a b w v ws)
  then have "\<forall>x\<in>set (v # ws). snd w < fst x"
    using contiguous_bounds [of "snd w + 1" b "v # ws"] by force
  with 3 show ?case by simp
qed auto

lemma contiguous_increasing: "contiguous a b ws \<Longrightarrow> a \<le> b \<Longrightarrow> w \<in> set ws \<Longrightarrow> fst w \<le> snd w"
  by (induction a b ws rule: contiguous.induct) auto

lemma spans_nonneg: "0 \<le> s \<Longrightarrow> 0 \<le> shrink s" "0 \<le> s \<Longrightarrow> 0 \<le> grow s"
  by (simp_all add: shrink_def grow_def)

lemma query_loop_contiguous:
  assumes "query_loop logs newest start span k = Some tr" and "0 \<le> span"
  shows "contiguous start newest (map fst tr)"
proof -
  have "0 \<le> span \<longrightarrow> contiguous start newest (map fst tr)"
  proof (rule query_loop.raw_induct [OF _ assms(1)])
    fix loop :: "(nat \<Rightarrow> int \<Rightarrow> int \<Rightarrow> 'a list res) \<Rightarrow> int \<Rightarrow> int \<Rightarrow> int \<Rightarrow> nat \<Rightarrow> ((int \<times> int) \<times> 'a list) list option"
      and logs newest start span k tr
    assume IH: "\<And>logs newest start span k tr. loop logs newest start span k = Some tr \<Longrightarrow>
        0 \<le> span \<longrightarrow> contiguous start newest (map fst tr)"
      and step: "(let end_block = min newest (start + span) in
         case logs k start end_block of
           Inl e \<Rightarrow> loop logs newest start (shrink span) (Suc k)
         | Inr ls \<Rightarrow> if end_block = newest then Some [((start, end_block), ls)]
             else Option.bind (loop logs newest (end_block + 1) (grow span) (Suc k))
                    (\<lambda>rest. Some (((start, end_block), ls) # rest))) = Some tr"
    show "0 \<le> span \<longrightarrow> contiguous start newest (map fst tr)"
    proof
      assume span: "0 \<le> span"
      define e where "e = min newest (start + span)"
      note step' = step [unfolded Let_def, folded e_def]
      show "contiguous start newest (map fst tr)"
      proof (cases "logs k start e")
        case (Inl x)
        with step' have "loop logs newest start (shrink span) (Suc k) = Some tr" by simp
        from IH [OF this] span show ?thesis by (simp add: spans_nonneg)
      next
        case (Inr ls)
        show ?thesis
        proof (cases "e = newest")
          case True
          with step' Inr show ?thesis by auto
        next
          case False
          with step' Inr obtain rest where r: "loop logs newest (e + 1) (grow span) (Suc k) = Some rest"
            "tr = ((start, e), ls) # rest" by (auto simp: bind_eq_Some_conv)
          from IH [OF r(1)] span have "contiguous (e + 1) newest (map fst rest)" by (simp add: spans_nonneg)
          moreover from False span have "start \<le> e" "e < newest" by (auto simp: e_def)
          ultimately show ?thesis using r(2) by (auto intro!: contiguous_ConsI)
        qed
      qed
    qed
  qed
  with assms(2) show ?thesis by simp
qed

text \<open>The windows some run of the query loop is answered for.\<close>

definition liq_scans ::
  "(nat \<Rightarrow> int \<Rightarrow> int \<Rightarrow> liq_log list res) \<Rightarrow> int \<Rightarrow> int \<Rightarrow> (int \<times> int) list \<Rightarrow> bool" where
  "liq_scans logs a b ws \<longleftrightarrow> (\<exists>span k tr. 0 \<le> span \<and> query_loop logs b a span k = Some tr \<and> ws = map fst tr)"

lemma liq_scans_contiguous: "liq_scans logs a b ws \<Longrightarrow> contiguous a b ws"
  by (auto simp: liq_scans_def query_loop_contiguous)

interpretation liq: exact_scanner "liq_scans logs" for logs
proof
  fix a b n w ws
  assume s: "liq_scans logs a b ws"
  then have c: "contiguous a b ws" by (rule liq_scans_contiguous)
  show "a \<le> n \<Longrightarrow> n \<le> b \<Longrightarrow> \<exists>w\<in>set ws. inside n w" by (rule contiguous_covers [OF c])
  show "w \<in> set ws \<Longrightarrow> inside n w \<Longrightarrow> a \<le> n \<and> n \<le> b"
    using contiguous_bounds [OF c, of w] by (auto simp: inside_def)
  show d: "sorted_wrt (\<lambda>v w. snd v < fst w) ws" by (rule contiguous_disjoint [OF c])
  show "sorted_wrt (\<lambda>v w. snd v \<le> fst w) ws" by (rule sorted_wrt_mono_rel [OF _ d]) simp
qed

section \<open>The answers\<close>

definition log_truthful :: "liq_log list \<Rightarrow> (nat \<Rightarrow> int \<Rightarrow> int \<Rightarrow> liq_log list res) \<Rightarrow> bool" where
  "log_truthful chain logs \<longleftrightarrow>
     (\<forall>k i e ls. logs k i e = Inr ls \<longrightarrow> ls = filter (\<lambda>l. inside (ll_block l) (i, e)) chain)"

lemma query_loop_answers:
  assumes "query_loop logs newest start span k = Some tr" and "log_truthful chain logs"
  shows "concat (map snd tr) = scan ll_block chain (map fst tr)"
proof -
  have "log_truthful chain logs \<longrightarrow> concat (map snd tr) = scan ll_block chain (map fst tr)"
  proof (rule query_loop.raw_induct [OF _ assms(1)])
    fix loop :: "(nat \<Rightarrow> int \<Rightarrow> int \<Rightarrow> liq_log list res) \<Rightarrow> int \<Rightarrow> int \<Rightarrow> int \<Rightarrow> nat \<Rightarrow>
        ((int \<times> int) \<times> liq_log list) list option"
      and logs newest start span k tr
    assume IH: "\<And>logs newest start span k tr. loop logs newest start span k = Some tr \<Longrightarrow>
        log_truthful chain logs \<longrightarrow> concat (map snd tr) = scan ll_block chain (map fst tr)"
      and step: "(let end_block = min newest (start + span) in
         case logs k start end_block of
           Inl e \<Rightarrow> loop logs newest start (shrink span) (Suc k)
         | Inr ls \<Rightarrow> if end_block = newest then Some [((start, end_block), ls)]
             else Option.bind (loop logs newest (end_block + 1) (grow span) (Suc k))
                    (\<lambda>rest. Some (((start, end_block), ls) # rest))) = Some tr"
    show "log_truthful chain logs \<longrightarrow> concat (map snd tr) = scan ll_block chain (map fst tr)"
    proof
      assume truth: "log_truthful chain logs"
      define e where "e = min newest (start + span)"
      note step' = step [unfolded Let_def, folded e_def]
      show "concat (map snd tr) = scan ll_block chain (map fst tr)"
      proof (cases "logs k start e")
        case (Inl x)
        with step' IH truth show ?thesis by simp
      next
        case (Inr ls)
        then have ls: "ls = filter (\<lambda>l. inside (ll_block l) (start, e)) chain"
          using truth unfolding log_truthful_def by blast
        show ?thesis
        proof (cases "e = newest")
          case True
          with step' Inr ls show ?thesis by auto
        next
          case False
          with step' Inr obtain rest where r: "loop logs newest (e + 1) (grow span) (Suc k) = Some rest"
            "tr = ((start, e), ls) # rest" by (auto simp: bind_eq_Some_conv)
          from IH [OF r(1)] truth r(2) ls show ?thesis by simp
        qed
      qed
    qed
  qed
  with assms(2) show ?thesis by simp
qed

lemma mset_conv_count: "mset xs = mset ys \<longleftrightarrow> (\<forall>x. count_list xs x = count_list ys x)"
  by (simp add: multiset_eq_iff count_mset)

text \<open>Over the whole range the answers are the events of the range, each as often as it occurs.\<close>

lemma query_loop_events:
  assumes "query_loop logs newest start span k = Some tr" and "log_truthful chain logs" and "0 \<le> span"
  shows "mset (concat (map snd tr)) = mset (filter (\<lambda>l. start \<le> ll_block l \<and> ll_block l \<le> newest) chain)"
proof -
  have s: "liq_scans logs start newest (map fst tr)" using assms(1,3) by (auto simp: liq_scans_def)
  have "count_list (filter P xs) x = (if P x then count_list xs x else 0)" for P and xs :: "liq_log list" and x
    by (induction xs) auto
  with liq.scan_once [OF s, of ll_block chain] show ?thesis
    unfolding query_loop_answers [OF assms(1,2)] mset_conv_count by simp
qed

section \<open>The loop ends\<close>

text \<open>A node that answers every query over at most \<open>L\<close> blocks after the first.\<close>

lemma query_loop_ends:
  assumes "\<forall>k i e. e - i \<le> L \<longrightarrow> (\<exists>ls. logs k i e = Inr ls)" and "0 \<le> L" and "0 \<le> span"
  shows "\<exists>tr. query_loop logs newest start span k = Some tr"
  using assms(3)
proof (induction "nat (newest - start)" arbitrary: start span k rule: less_induct)
  case outer: less
  show ?case
    using outer.prems
  proof (induction "nat span" arbitrary: span k rule: less_induct)
    case inner: less
    let ?e = "min newest (start + span)"
    show ?case
    proof (cases "logs k start ?e")
      case (Inl x)
      have "L < span"
      proof (rule ccontr)
        assume "\<not> L < span"
        then have "?e - start \<le> L" by linarith
        with assms(1) Inl show False by (metis sum.distinct(1))
      qed
      with assms(2) have "nat (shrink span) < nat span" by (simp add: shrink_def)
      from inner.hyps [OF this, of "Suc k"] inner.prems obtain tr where
        "query_loop logs newest start (shrink span) (Suc k) = Some tr" by (auto simp: spans_nonneg)
      with Inl show ?thesis by (subst query_loop.simps) (simp add: Let_def)
    next
      case (Inr ls)
      show ?thesis
      proof (cases "?e = newest")
        case True
        with Inr show ?thesis by (subst query_loop.simps) (simp add: Let_def)
      next
        case False
        then have e: "?e = start + span" "start + span < newest" by auto
        have "nat (newest - (?e + 1)) < nat (newest - start)" using e inner.prems by linarith
        from outer.hyps [OF this, of "grow span" "Suc k"] e inner.prems obtain tr where
          "query_loop logs newest (?e + 1) (grow span) (Suc k) = Some tr" by (auto simp: spans_nonneg)
        with Inr False show ?thesis by (subst query_loop.simps) (simp add: Let_def)
      qed
    qed
  qed
qed

lemma query_loop_hangs:
  assumes "\<forall>k e. \<exists>x. logs k start e = Inl x"
  shows "query_loop logs newest start span k = None"
proof -
  have "query_loop logs newest start span k = Some tr \<Longrightarrow> start = a \<and> logs = l \<longrightarrow> (\<exists>k e ls. l k a e = Inr ls)" for a l tr
  proof (erule query_loop.raw_induct [rotated])
    fix loop :: "(nat \<Rightarrow> int \<Rightarrow> int \<Rightarrow> 'a list res) \<Rightarrow> int \<Rightarrow> int \<Rightarrow> int \<Rightarrow> nat \<Rightarrow> ((int \<times> int) \<times> 'a list) list option"
      and logs newest start span k tr
    assume IH: "\<And>logs newest start span k tr. loop logs newest start span k = Some tr \<Longrightarrow>
        start = a \<and> logs = l \<longrightarrow> (\<exists>k e ls. l k a e = Inr ls)"
      and step: "(let end_block = min newest (start + span) in
         case logs k start end_block of
           Inl e \<Rightarrow> loop logs newest start (shrink span) (Suc k)
         | Inr ls \<Rightarrow> if end_block = newest then Some [((start, end_block), ls)]
             else Option.bind (loop logs newest (end_block + 1) (grow span) (Suc k))
                    (\<lambda>rest. Some (((start, end_block), ls) # rest))) = Some tr"
    show "start = a \<and> logs = l \<longrightarrow> (\<exists>k e ls. l k a e = Inr ls)"
    proof (cases "logs k start (min newest (start + span))")
      case (Inl e)
      with step IH show ?thesis by (simp add: Let_def)
    next
      case (Inr ls)
      then show ?thesis by blast
    qed
  qed
  from this [of _ start logs] assms show ?thesis
    by (cases "query_loop logs newest start span k") (auto, metis sum.distinct(1))
qed

section \<open>Grouping and ordering\<close>

definition logs_of :: "string \<Rightarrow> liq_log list \<Rightarrow> liq_event list" where
  "logs_of p ls = map event_of (filter (\<lambda>l. ll_pool l = p \<and> log_liquidity l \<noteq> 0) ls)"

lemma add_logs_get:
  "map_of (add_logs ls d) p =
     (if logs_of p ls = [] then map_of d p
      else Some ((case map_of d p of None \<Rightarrow> [] | Some es \<Rightarrow> es) @ logs_of p ls))"
proof (induction ls arbitrary: d)
  case Nil
  then show ?case by (simp add: logs_of_def)
next
  case (Cons l ls)
  then show ?case by (auto simp: logs_of_def Let_def update_conv split: option.split)
qed

lemma plan_pools_updates:
  assumes "plan_pools lp_data events = Inr plans" and "plan \<in> set plans"
  shows "\<exists>es. (plan_pool plan, es) \<in> set events \<and> plan_updates plan = map update_of (sorted_events es) \<and>
     (\<exists>lp. map_of lp_data (JStr (plan_pool plan)) = Some lp \<and> truthy lp \<and> json_key lp ''fee'' = Inr (plan_fee plan)) \<and>
     tick_spacing (plan_fee plan) = Inr (plan_spacing plan)"
  using assms
proof (induction lp_data events arbitrary: plans rule: plan_pools.induct)
  case (2 lp_data p es rest)
  show ?case
  proof (cases "\<exists>lp. map_of lp_data (JStr p) = Some lp \<and> truthy lp")
    case False
    then have r: "plan_pools lp_data rest = Inr plans"
      using "2.prems"(1) by (cases "map_of lp_data (JStr p)") auto
    from False consider "map_of lp_data (JStr p) = None" | x where "map_of lp_data (JStr p) = Some x" "\<not> truthy x" by fastforce
    then show ?thesis
    proof cases
      case 1
      from "2.IH"(1) [OF 1 r "2.prems"(2)] show ?thesis by auto
    next
      case (2 x)
      from "2.IH"(2) [OF 2 r "2.prems"(2)] show ?thesis by auto
    qed
  next
    case True
    then obtain lp where lp: "map_of lp_data (JStr p) = Some lp" "truthy lp" by blast
    with "2.prems"(1) obtain fee spacing plans' where p: "json_key lp ''fee'' = Inr fee" "tick_spacing fee = Inr spacing"
      "plan_pools lp_data rest = Inr plans'"
      "plans = \<lparr>plan_pool = p, plan_fee = fee, plan_spacing = spacing, plan_updates = map update_of (sorted_events es)\<rparr> # plans'"
      by (auto simp: res_bind_Inr_iff)
    from "2.IH"(3) [OF lp(1) _ p(3)] p lp "2.prems"(2) show ?thesis by auto
  qed
qed simp

text \<open>Conversely every pool with data that has events gets a plan.\<close>

lemma plan_pools_complete:
  assumes "plan_pools lp_data events = Inr plans" and "(p, es) \<in> set events"
    and "map_of lp_data (JStr p) = Some lp" and "truthy lp"
  shows "p \<in> plan_pool ` set plans"
  using assms
proof (induction lp_data events arbitrary: plans rule: plan_pools.induct)
  case (2 lp_data q es' rest)
  show ?case
  proof (cases "map_of lp_data (JStr q)")
    case None
    with 2 show ?thesis by auto
  next
    case (Some x)
    show ?thesis
    proof (cases "truthy x")
      case False
      with Some 2 show ?thesis by auto
    next
      case True
      from Some True "2.prems"(1) obtain plans' fee spacing where r: "plan_pools lp_data rest = Inr plans'"
        "plans = \<lparr>plan_pool = q, plan_fee = fee, plan_spacing = spacing, plan_updates = map update_of (sorted_events es')\<rparr> # plans'"
        by (auto simp: res_bind_Inr_iff)
      show ?thesis
      proof (cases "p = q")
        case True
        with r(2) show ?thesis by simp
      next
        case False
        with "2.prems"(2) have "(p, es) \<in> set rest" by auto
        with "2.IH"(3) [OF Some _ r(1)] True "2.prems"(3,4) r(2) show ?thesis by auto
      qed
    qed
  qed
qed simp

lemma plan_pools_distinct:
  "plan_pools lp_data events = Inr plans \<Longrightarrow> distinct (map fst events) \<Longrightarrow>
     distinct (map plan_pool plans) \<and> plan_pool ` set plans \<subseteq> fst ` set events"
proof (induction lp_data events arbitrary: plans rule: plan_pools.induct)
  case (2 lp_data q es' rest)
  then show ?case by (auto simp: res_bind_Inr_iff split: option.splits if_splits) blast+
qed simp

lemma add_logs_distinct: "distinct (map fst d) \<Longrightarrow> distinct (map fst (add_logs ls d))"
  by (induction ls d rule: add_logs.induct) (auto simp: Let_def distinct_update)

section \<open>The events of one chain\<close>

text \<open>The events of a pool that the script is to apply: the non-zero ones after the snapshot.\<close>

definition due :: "int option \<Rightarrow> int \<Rightarrow> string \<Rightarrow> liq_log \<Rightarrow> bool" where
  "due last_block newest p l \<longleftrightarrow>
     ll_pool l = p \<and> log_liquidity l \<noteq> 0 \<and> start_block last_block \<le> ll_block l \<and> ll_block l \<le> newest"

lemma mset_logs_of:
  assumes "mset ls = mset (filter (\<lambda>l. start_block last_block \<le> ll_block l \<and> ll_block l \<le> newest) chain)"
  shows "mset (logs_of p ls) = image_mset event_of (filter_mset (due last_block newest p) (mset chain))"
proof -
  have "mset (logs_of p ls) = image_mset event_of (filter_mset (\<lambda>l. ll_pool l = p \<and> log_liquidity l \<noteq> 0) (mset ls))"
    by (simp add: logs_of_def)
  also have "filter_mset (\<lambda>l. ll_pool l = p \<and> log_liquidity l \<noteq> 0) (mset ls) = filter_mset (due last_block newest p) (mset chain)"
    unfolding assms mset_filter filter_filter_mset by (rule filter_mset_cong) (auto simp: due_def)
  finally show ?thesis .
qed

lemma fetch_liquidity_events:
  assumes "fetch_liquidity mints burns last_block newest = Some events"
    and "log_truthful mint_chain mints" and "log_truthful burn_chain burns"
  shows "distinct (map fst events)"
    and "\<exists>es. mset es = image_mset event_of (filter_mset (due last_block newest p) (mset (mint_chain @ burn_chain))) \<and>
           map_of events p = (if es = [] then None else Some es)"
proof -
  from assms(1) obtain ms bs where m: "query_loop mints newest (start_block last_block) BLOCK_SPAN 0 = Some ms"
    and b: "query_loop burns newest (start_block last_block) BLOCK_SPAN 0 = Some bs"
    and e: "events = add_logs (concat (map snd bs)) (add_logs (concat (map snd ms)) [])"
    by (auto simp: fetch_liquidity_def bind_eq_Some_conv)
  show "distinct (map fst events)" unfolding e by (simp add: add_logs_distinct)
  let ?ms = "logs_of p (concat (map snd ms))" and ?bs = "logs_of p (concat (map snd bs))"
  have "map_of events p = (if ?ms @ ?bs = [] then None else Some (?ms @ ?bs))"
    unfolding e by (auto simp: add_logs_get)
  moreover have "mset ?ms = image_mset event_of (filter_mset (due last_block newest p) (mset mint_chain))"
    by (rule mset_logs_of [OF query_loop_events [OF m assms(2)]]) simp
  moreover have "mset ?bs = image_mset event_of (filter_mset (due last_block newest p) (mset burn_chain))"
    by (rule mset_logs_of [OF query_loop_events [OF b assms(3)]]) simp
  ultimately show "\<exists>es. mset es = image_mset event_of (filter_mset (due last_block newest p) (mset (mint_chain @ burn_chain))) \<and>
           map_of events p = (if es = [] then None else Some es)"
    by (intro exI [of _ "?ms @ ?bs"]) simp
qed

lemma liquidity_chain_planned:
  assumes "liquidity_chain c fs root chain_name chain lp_bound newest mints burns = Inr (Planned plans)"
    and "snapshot_block c fs (chain_file root chain_name ''_v3_liquidity_snapshot.json'') newest = Inr last_block"
  obtains kvs lp_data events where
    "res_bind (json_get chain ''factories'') (\<lambda>f. res_bind (json_get f ''v3'') json_items) = Inr kvs"
    "read_lps c fs (map (\<lambda>(name, _). chain_file root chain_name (''_'' @ name @ ''_v3.json'')) kvs) [] = Inr (Some lp_data)"
    "fetch_liquidity mints burns last_block newest = Some events" "plan_pools lp_data events = Inr plans"
proof -
  from assms(1) obtain kvs where
    k: "res_bind (json_get chain ''factories'') (\<lambda>f. res_bind (json_get f ''v3'') json_items) = Inr kvs"
    unfolding liquidity_chain_def by (rule res_bind_InrE)
  note chain = assms(1) [unfolded liquidity_chain_def k assms(2) res_bind_simps]
  from chain obtain r where
    r: "read_lps c fs (map (\<lambda>(name, _). chain_file root chain_name (''_'' @ name @ ''_v3.json'')) kvs) [] = Inr r"
    by (rule res_bind_InrE)
  note rest = chain [unfolded r res_bind_simps]
  from rest obtain lp_data events where "r = Some lp_data" "fetch_liquidity mints burns last_block newest = Some events"
    "plan_pools lp_data events = Inr plans"
    by (auto simp: res_bind_Inr_iff split: option.splits if_splits)
  with k r show ?thesis using that by blast
qed

section \<open>Properties\<close>

text \<open>
  Example: the first mint query is refused and the span shrinks; two pools have events, one of
  them has a pool file entry, with a burn in a later transaction of the block of a mint.
\<close>

definition pond_log :: "string \<Rightarrow> int \<Rightarrow> int \<Rightarrow> bool \<Rightarrow> int \<Rightarrow> liq_log" where
  "pond_log p b t burn n = \<lparr>ll_pool = p, ll_block = b, ll_tx = t, ll_burn = burn, ll_amount = n, ll_lower = - 60, ll_upper = 60\<rparr>"

definition pond_mints :: "liq_log list" where
  "pond_mints = [pond_log ''0xp'' 1500 0 False 9, pond_log ''0xq'' 1600 2 False 4, pond_log ''0xp'' 9800 1 False 5]"

definition pond_burns :: "liq_log list" where
  "pond_burns = [pond_log ''0xp'' 9800 0 True 3, pond_log ''0xp'' 9900 0 True 0]"

definition pond_node :: "liq_log list \<Rightarrow> nat \<Rightarrow> int \<Rightarrow> int \<Rightarrow> liq_log list res" where
  "pond_node chain k i e =
     (if e - i \<le> 8000 then Inr (filter (\<lambda>l. inside (ll_block l) (i, e)) chain) else Inl (OtherError ''timeout''))"

definition pond_codec :: json_codec where
  "pond_codec = \<lparr>u_loads = (\<lambda>t. Inr (JList [JObj [(''pool_address'', JStr ''0xp''), (''fee'', JInt 3000)]])),
     u_dumps = (\<lambda>v. Inr [])\<rparr>"

definition pond_fs :: file_system where
  "pond_fs = [(chain_file [''cb''] ''base'' ''_uni_v3.json'', File ''x'')]"

definition pond_chain :: json where
  "pond_chain = JObj [(''factories'', JObj [(''v3'', JObj [(''uni'', JNull)])])]"

definition pond_run :: "liq_outcome res" where
  "pond_run = liquidity_chain pond_codec pond_fs [''cb''] ''base'' pond_chain False 10900 (pond_node pond_mints) (pond_node pond_burns)"

definition pond_plan :: pool_plan where
  "pond_plan = \<lparr>plan_pool = ''0xp'', plan_fee = JInt 3000, plan_spacing = 60,
     plan_updates = [(1500, 9, - 60, 60), (9800, - 3, - 60, 60), (9800, 5, - 60, 60)]\<rparr>"

lemma pond_run: "pond_run = Inr (Planned [pond_plan])"
  by code_simp

lemma pond_snapshot: "snapshot_block pond_codec pond_fs (chain_file [''cb''] ''base'' ''_v3_liquidity_snapshot.json'') 10900 = Inr None"
  by code_simp

lemma pond_truthful: "log_truthful chain (pond_node chain)"
  by (auto simp: log_truthful_def pond_node_def split: if_splits)

text \<open>
  When the run on a chain succeeds, the updates handed to a pool are, ordered by block and
  transaction index, exactly the non-zero Mint and Burn events of that pool after the snapshot
  up to the newest block, each as often as it occurs on the chain, whatever queries the node
  refused in between.
\<close>

theorem liquidity_updates_exact:
  assumes "liquidity_chain c fs root chain_name chain lp_bound newest mints burns = Inr (Planned plans)"
    and "snapshot_block c fs (chain_file root chain_name ''_v3_liquidity_snapshot.json'') newest = Inr last_block"
    and "log_truthful mint_chain mints" and "log_truthful burn_chain burns"
    and "plan \<in> set plans"
  shows "\<exists>es. plan_updates plan = map update_of es \<and> sorted (map le_pos es) \<and>
           mset es = image_mset event_of (filter_mset (due last_block newest (plan_pool plan)) (mset (mint_chain @ burn_chain)))"
proof -
  obtain kvs lp_data events where f: "fetch_liquidity mints burns last_block newest = Some events"
    and p: "plan_pools lp_data events = Inr plans"
    using liquidity_chain_planned [OF assms(1,2)] by blast
  from plan_pools_updates [OF p assms(5)] obtain es where es: "(plan_pool plan, es) \<in> set events"
    "plan_updates plan = map update_of (sorted_events es)" by blast
  have "map_of events (plan_pool plan) = Some es"
    using es(1) fetch_liquidity_events(1) [OF f assms(3,4)] by simp
  then have "mset es = image_mset event_of (filter_mset (due last_block newest (plan_pool plan)) (mset (mint_chain @ burn_chain)))"
    using fetch_liquidity_events(2) [OF f assms(3,4), of "plan_pool plan"] by (auto split: if_splits)
  with es(2) show ?thesis by (intro exI [of _ "sorted_events es"]) (simp add: sorted_events_def)
qed

theorem liquidity_updates_exact_witness:
  "\<exists>es. plan_updates pond_plan = map update_of es \<and> sorted (map le_pos es) \<and>
     mset es = image_mset event_of (filter_mset (due None 10900 ''0xp'') (mset (pond_mints @ pond_burns)))"
  using liquidity_updates_exact [OF pond_run [unfolded pond_run_def] pond_snapshot pond_truthful pond_truthful, of pond_plan]
  by (simp add: pond_plan_def)

text \<open>
  When the run on a chain succeeds, the pools that get updates are exactly those with data
  in the pool files and at least one non-zero event after the snapshot, each of them once.
\<close>

theorem liquidity_pools_planned:
  assumes "liquidity_chain c fs root chain_name chain lp_bound newest mints burns = Inr (Planned plans)"
    and "snapshot_block c fs (chain_file root chain_name ''_v3_liquidity_snapshot.json'') newest = Inr last_block"
    and "log_truthful mint_chain mints" and "log_truthful burn_chain burns"
  shows "\<exists>kvs lp_data. res_bind (json_get chain ''factories'') (\<lambda>f. res_bind (json_get f ''v3'') json_items) = Inr kvs \<and>
           read_lps c fs (map (\<lambda>(name, _). chain_file root chain_name (''_'' @ name @ ''_v3.json'')) kvs) [] = Inr (Some lp_data) \<and>
           distinct (map plan_pool plans) \<and>
           plan_pool ` set plans = {p. (\<exists>lp. map_of lp_data (JStr p) = Some lp \<and> truthy lp) \<and>
             (\<exists>l\<in>set (mint_chain @ burn_chain). due last_block newest p l)}"
proof -
  obtain kvs lp_data events where k: "res_bind (json_get chain ''factories'') (\<lambda>f. res_bind (json_get f ''v3'') json_items) = Inr kvs"
    "read_lps c fs (map (\<lambda>(name, _). chain_file root chain_name (''_'' @ name @ ''_v3.json'')) kvs) [] = Inr (Some lp_data)"
    and f: "fetch_liquidity mints burns last_block newest = Some events" and p: "plan_pools lp_data events = Inr plans"
    using liquidity_chain_planned [OF assms(1,2)] by blast
  note d = fetch_liquidity_events(1) [OF f assms(3,4)]
  have known: "p \<in> fst ` set events \<longleftrightarrow> (\<exists>l\<in>set (mint_chain @ burn_chain). due last_block newest p l)" for p
  proof -
    obtain es where es: "mset es = image_mset event_of (filter_mset (due last_block newest p) (mset (mint_chain @ burn_chain)))"
      "map_of events p = (if es = [] then None else Some es)" using fetch_liquidity_events(2) [OF f assms(3,4), of p] by blast
    have "p \<in> fst ` set events \<longleftrightarrow> es \<noteq> []" using es(2) by (cases "es = []") (auto simp: map_of_eq_None_iff, force dest: map_of_SomeD)
    also have "\<dots> \<longleftrightarrow> filter_mset (due last_block newest p) (mset (mint_chain @ burn_chain)) \<noteq> {#}"
      using es(1) by (metis image_mset_is_empty_iff mset_zero_iff)
    finally show ?thesis by auto
  qed
  have "plan_pool ` set plans = {p. (\<exists>lp. map_of lp_data (JStr p) = Some lp \<and> truthy lp) \<and> p \<in> fst ` set events}"
  proof (intro equalityI subsetI)
    fix q assume "q \<in> plan_pool ` set plans"
    then show "q \<in> {p. (\<exists>lp. map_of lp_data (JStr p) = Some lp \<and> truthy lp) \<and> p \<in> fst ` set events}"
      using plan_pools_updates [OF p] by force
  next
    fix q assume "q \<in> {p. (\<exists>lp. map_of lp_data (JStr p) = Some lp \<and> truthy lp) \<and> p \<in> fst ` set events}"
    then show "q \<in> plan_pool ` set plans" using plan_pools_complete [OF p] by force
  qed
  with k plan_pools_distinct [OF p d] show ?thesis unfolding known by blast
qed

theorem liquidity_pools_planned_witness:
  "\<exists>kvs lp_data. res_bind (json_get pond_chain ''factories'') (\<lambda>f. res_bind (json_get f ''v3'') json_items) = Inr kvs \<and>
     read_lps pond_codec pond_fs (map (\<lambda>(name, _). chain_file [''cb''] ''base'' (''_'' @ name @ ''_v3.json'')) kvs) [] = Inr (Some lp_data) \<and>
     {''0xp''} = {p. (\<exists>lp. map_of lp_data (JStr p) = Some lp \<and> truthy lp) \<and>
       (\<exists>l\<in>set (pond_mints @ pond_burns). due None 10900 p l)}"
  using liquidity_pools_planned [OF pond_run [unfolded pond_run_def] pond_snapshot pond_truthful pond_truthful]
  by (simp add: pond_plan_def)

text \<open>
  A node that answers every query over few enough blocks, at whatever limit, makes the run
  on a chain end: the span shrinks below the limit before it can stick.
\<close>

theorem liquidity_chain_ends:
  assumes "\<forall>k i e. e - i \<le> L \<longrightarrow> (\<exists>ls. mints k i e = Inr ls)"
    and "\<forall>k i e. e - i \<le> L \<longrightarrow> (\<exists>ls. burns k i e = Inr ls)" and "0 \<le> L"
  shows "liquidity_chain c fs root chain_name chain lp_bound newest mints burns \<noteq> Inr Does_Not_End"
proof
  assume a: "liquidity_chain c fs root chain_name chain lp_bound newest mints burns = Inr Does_Not_End"
  have "fetch_liquidity mints burns last_block newest \<noteq> None" for last_block
    using query_loop_ends [OF assms(1,3), where start = "start_block last_block" and span = BLOCK_SPAN and k = 0 and newest = newest]
      query_loop_ends [OF assms(2,3), where start = "start_block last_block" and span = BLOCK_SPAN and k = 0 and newest = newest]
    by (auto simp: fetch_liquidity_def)
  with a show False
    by (auto simp: liquidity_chain_def res_bind_Inr_iff split: option.splits if_splits)
qed

theorem liquidity_chain_ends_witness:
  "liquidity_chain pond_codec pond_fs [''cb''] ''base'' pond_chain False 10900 (pond_node pond_mints) (pond_node pond_burns)
     \<noteq> Inr Does_Not_End"
  by (rule liquidity_chain_ends [of 8000]) (simp_all add: pond_node_def)

text \<open>
  A node that refuses every query from the start block keeps the script in its loop for ever.
\<close>

theorem dead_node_never_ends:
  assumes "\<forall>k e. \<exists>x. mints k (start_block last_block) e = Inl x"
  shows "fetch_liquidity mints burns last_block newest = None"
  by (simp add: fetch_liquidity_def query_loop_hangs [where logs = mints and start = "start_block last_block"] assms)

theorem dead_node_never_ends_witness:
  "fetch_liquidity (\<lambda>k i e. Inl (OtherError ''closed'')) burns None 10900 = None"
  by (rule dead_node_never_ends) simp

text \<open>A span that has shrunk below twenty blocks never grows again, however well the node answers.\<close>

lemma small_spans_stay: "0 \<le> s \<Longrightarrow> s < 20 \<Longrightarrow> grow s = s"
  by (simp add: grow_def)

end
