(* ===== verification/Liquidity_Snapshot.thy ===== *)
theory Liquidity_Snapshot
  imports Liquidity_Fetcher PyText "HOL-Library.List_Lexorder" "HOL-Library.Char_ord"
begin

text \<open>
  The second half of the V3 liquidity fetcher (builders/liquidity_fetcher.py): the tick data of
  the snapshot file is read, one pool object takes the updates of every pool in turn, its tick
  data is merged into the snapshot, and the snapshot is written with the newest block. The classes of
  degenbot that hold and update tick data are parameters.
\<close>

section \<open>Tick data\<close>

text \<open>
  \<open>UniswapV3BitmapAtWord(**v)\<close> and \<open>UniswapV3LiquidityAtTick(**v)\<close>, their \<open>to_dict()\<close> as printed with
  sorted keys, and the attribute \<open>bitmap\<close>.
\<close>

record ('bm, 'lt) v3_types =
  bitmap_at_word :: "json \<Rightarrow> 'bm res"
  liquidity_at_tick :: "json \<Rightarrow> 'lt res"
  bitmap_dict :: "'bm \<Rightarrow> json"
  liquidity_dict :: "'lt \<Rightarrow> json"
  bitmap_bits :: "'bm \<Rightarrow> int"

text \<open>The entry of one pool in \<open>liquidity_snapshot\<close>.\<close>

record ('bm, 'lt) tick_snapshot =
  snap_bitmap :: "(int, 'bm) dict"
  snap_data :: "(int, 'lt) dict"

text \<open>\<open>{int(k): f(v) for k, v in d.items()}\<close>\<close>

definition read_ticks :: "(json \<Rightarrow> 'a res) \<Rightarrow> json \<Rightarrow> (int, 'a) dict res" where
  "read_ticks f d = res_bind (json_items d) (\<lambda>kvs.
     res_bind (res_map (\<lambda>(k, v). res_bind (py_int10 k) (\<lambda>n. res_bind (f v) (\<lambda>x. Inr (n, x)))) kvs) (\<lambda>xs.
       Inr (dict_fill fst snd xs [])))"

definition read_tick_snapshot :: "('bm, 'lt) v3_types \<Rightarrow> json \<Rightarrow> ('bm, 'lt) tick_snapshot res" where
  "read_tick_snapshot T snapshot =
     res_bind (res_bind (json_key snapshot ''tick_bitmap'') (read_ticks (bitmap_at_word T))) (\<lambda>bs.
     res_bind (res_bind (json_key snapshot ''tick_data'') (read_ticks (liquidity_at_tick T))) (\<lambda>ls.
       Inr \<lparr>snap_bitmap = bs, snap_data = ls\<rparr>))"

text \<open>
  The pools of a snapshot file whose block \<open>snapshot_block\<close> has accepted; the key of the block
  itself is popped. No file, no pools.
\<close>

definition load_snapshot ::
  "('bm, 'lt) v3_types \<Rightarrow> json_codec \<Rightarrow> file_system \<Rightarrow> path \<Rightarrow> (string, ('bm, 'lt) tick_snapshot) dict res" where
  "load_snapshot T c fs p =
     (case read_json c fs p of
        Inl e \<Rightarrow> Inr []
      | Inr v \<Rightarrow> res_bind (json_items v) (\<lambda>kvs.
          res_bind (res_map (\<lambda>(a, s). res_bind (read_tick_snapshot T s) (\<lambda>t. Inr (a, t)))
            (AList.delete ''snapshot_block'' kvs)) (\<lambda>xs. Inr (dict_fill fst snd xs []))))"

section \<open>The pool object\<close>

text \<open>
  The attributes of \<open>lp_helper\<close> that the script sets or reads, and the rest of its state.
  \<open>given_data\<close> and \<open>given_bitmap\<close> are the dictionary objects the script handed over, in their present
  state: an update may change them in place or put fresh dictionaries into the attributes.
\<close>

record ('bm, 'lt, 'h) v3_helper =
  h_address :: string
  h_liquidity :: int
  tick_data :: "(int, 'lt) dict"
  tick_bitmap :: "(int, 'bm) dict"
  given_data :: "(int, 'lt) dict"
  given_bitmap :: "(int, 'bm) dict"
  h_update_block :: int
  liquidity_update_block :: int
  h_tick :: int
  h_fee :: json
  h_spacing :: int
  h_hidden :: 'h

text \<open>\<open>snapshot_last_block or UNISWAPV3_START_BLOCK\<close>\<close>

definition update_block :: "int option \<Rightarrow> int" where
  "update_block snapshot_last_block = (case snapshot_last_block of
     None \<Rightarrow> UNISWAPV3_START_BLOCK | Some n \<Rightarrow> if n = 0 then UNISWAPV3_START_BLOCK else n)"

definition previous_ticks :: "(string, ('bm, 'lt) tick_snapshot) dict \<Rightarrow> string \<Rightarrow> ('bm, 'lt) tick_snapshot" where
  "previous_ticks snapshot pool_address =
     (case map_of snapshot pool_address of None \<Rightarrow> \<lparr>snap_bitmap = [], snap_data = []\<rparr> | Some s \<Rightarrow> s)"

definition set_helper ::
  "int option \<Rightarrow> ('bm, 'lt) tick_snapshot \<Rightarrow> json \<Rightarrow> int \<Rightarrow> ('bm, 'lt, 'h) v3_helper \<Rightarrow> ('bm, 'lt, 'h) v3_helper" where
  "set_helper snapshot_last_block previous fee spacing lp_helper = lp_helper
     \<lparr>h_address := ''0x0000000000000000000000000000000000000000'', h_liquidity := 2 ^ 256,
      tick_data := snap_data previous, tick_bitmap := snap_bitmap previous,
      given_data := snap_data previous, given_bitmap := snap_bitmap previous,
      h_update_block := update_block snapshot_last_block,
      liquidity_update_block := update_block snapshot_last_block,
      h_tick := 0, h_fee := fee, h_spacing := spacing\<rparr>"

text \<open>\<open>external_update\<close> of one update: the block, and liquidity change, lower and upper tick.\<close>

type_synonym ('bm, 'lt, 'h) update_op =
  "int \<times> int \<times> int \<times> int \<Rightarrow> ('bm, 'lt, 'h) v3_helper \<Rightarrow> ('bm, 'lt, 'h) v3_helper res"

fun apply_updates ::
  "('bm, 'lt, 'h) update_op \<Rightarrow> (int \<times> int \<times> int \<times> int) list \<Rightarrow> ('bm, 'lt, 'h) v3_helper \<Rightarrow>
     ('bm, 'lt, 'h) v3_helper res" where
  "apply_updates external_update [] h = Inr h"
| "apply_updates external_update (u # us) h = res_bind (external_update u h) (apply_updates external_update us)"

text \<open>
  The merge: the dictionaries of a pool that was in the snapshot are those handed over, another
  pool gets new ones.
\<close>

definition merge_pool ::
  "string \<Rightarrow> ('bm, 'lt, 'h) v3_helper \<Rightarrow> (string, ('bm, 'lt) tick_snapshot) dict \<Rightarrow>
     (string, ('bm, 'lt) tick_snapshot) dict" where
  "merge_pool pool_address h snapshot =
     (let known = map_of snapshot pool_address \<noteq> None
      in AList.update pool_address
          \<lparr>snap_bitmap = merge_dicts (if known then given_bitmap h else []) (tick_bitmap h),
           snap_data = merge_dicts (if known then given_data h else []) (tick_data h)\<rparr> snapshot)"

text \<open>The loop over the pools with events, with what each pool's object was given.\<close>

fun update_pools ::
  "('bm, 'lt, 'h) update_op \<Rightarrow> int option \<Rightarrow> (json, json) dict \<Rightarrow> (string, liq_event list) dict \<Rightarrow>
     ('bm, 'lt, 'h) v3_helper \<Rightarrow> (string, ('bm, 'lt) tick_snapshot) dict \<Rightarrow>
     (pool_plan list \<times> (string, ('bm, 'lt) tick_snapshot) dict) res" where
  "update_pools external_update snapshot_last_block lp_data [] h snapshot = Inr ([], snapshot)"
| "update_pools external_update snapshot_last_block lp_data ((pool_address, es) # rest) h snapshot =
     (case map_of lp_data (JStr pool_address) of
        None \<Rightarrow> update_pools external_update snapshot_last_block lp_data rest h snapshot
      | Some lp \<Rightarrow>
          if \<not> truthy lp then update_pools external_update snapshot_last_block lp_data rest h snapshot
          else res_bind (json_key lp ''fee'') (\<lambda>fee. res_bind (tick_spacing fee) (\<lambda>spacing.
               let h0 = set_helper snapshot_last_block (previous_ticks snapshot pool_address) fee spacing h;
                   us = map update_of (sorted_events es)
               in res_bind (apply_updates external_update us h0) (\<lambda>h1.
                  res_bind (update_pools external_update snapshot_last_block lp_data rest h1
                    (merge_pool pool_address h1 snapshot)) (\<lambda>(plans, result).
                    Inr (\<lparr>plan_pool = pool_address, plan_fee = fee, plan_spacing = spacing, plan_updates = us\<rparr> # plans, result))))))"

section \<open>The snapshot file\<close>

text \<open>The dictionaries of \<open>to_dict()\<close> values, printed with integer keys as text, in sorted order.\<close>

definition ticks_json :: "('a \<Rightarrow> json) \<Rightarrow> (int, 'a) dict \<Rightarrow> json" where
  "ticks_json f d = JObj (map (\<lambda>(k, v). (py_str k, f v)) (sort_key fst d))"

definition tick_snapshot_json :: "('bm, 'lt) v3_types \<Rightarrow> ('bm, 'lt) tick_snapshot \<Rightarrow> json" where
  "tick_snapshot_json T s = JObj
     [(''tick_bitmap'', ticks_json (bitmap_dict T) (filter (\<lambda>(k, v). bitmap_bits T v \<noteq> 0) (snap_bitmap s))),
      (''tick_data'', ticks_json (liquidity_dict T) (snap_data s))]"

definition snapshot_json ::
  "('bm, 'lt) v3_types \<Rightarrow> int \<Rightarrow> (string, ('bm, 'lt) tick_snapshot) dict \<Rightarrow> json" where
  "snapshot_json T newest_block snapshot =
     JObj (sort_key fst (AList.update ''snapshot_block'' (JInt newest_block)
       (map (\<lambda>(a, s). (a, tick_snapshot_json T s)) snapshot)))"

section \<open>The script\<close>

text \<open>What the script reads from the node of a chain: \<open>eth.block_number\<close> and the event logs.\<close>

record liq_node =
  newest :: int
  mint_logs :: "nat \<Rightarrow> int \<Rightarrow> int \<Rightarrow> liq_log list res"
  burn_logs :: "nat \<Rightarrow> int \<Rightarrow> int \<Rightarrow> liq_log list res"

definition chain_lps ::
  "json_codec \<Rightarrow> file_system \<Rightarrow> path \<Rightarrow> string \<Rightarrow> json \<Rightarrow> (json, json) dict option res" where
  "chain_lps c fs root chain_name chain =
     res_bind (res_bind (json_get chain ''factories'') (\<lambda>f. res_bind (json_get f ''v3'') json_items)) (\<lambda>kvs.
       read_lps c fs (map (\<lambda>(name, _). chain_file root chain_name (''_'' @ name @ ''_v3.json'')) kvs) [])"

abbreviation snapshot_file :: "path \<Rightarrow> string \<Rightarrow> path" where
  "snapshot_file root chain_name \<equiv> chain_file root chain_name ''_v3_liquidity_snapshot.json''"

text \<open>
  One turn of the loop over the chains. \<open>lp_helper\<close> is the object as its class and the first
  settings leave it; the result also says whether \<open>lp\<close> is bound for the turns that follow.
\<close>

definition fetch_chain_liquidity ::
  "('bm, 'lt) v3_types \<Rightarrow> ('bm, 'lt, 'h) update_op \<Rightarrow> ('bm, 'lt, 'h) v3_helper \<Rightarrow> json_codec \<Rightarrow> path \<Rightarrow> liq_node \<Rightarrow>
     string \<Rightarrow> json \<Rightarrow> bool \<Rightarrow> (file_system, liq_outcome \<times> bool) act" where
  "fetch_chain_liquidity T external_update lp_helper c root node chain_name chain lp_bound =
     act_bind (act_lift (json_get chain ''websocket_uri'')) (\<lambda>_.
     act_bind (mkdir (builder_dir root @ [chain_name])) (\<lambda>_.
     act_bind (\<lambda>fs. (chain_lps c fs root chain_name chain, fs)) (\<lambda>r. case r of
       None \<Rightarrow> act_return (Lp_File_Missing, lp_bound)
     | Some lp_data \<Rightarrow>
         act_bind (\<lambda>fs. (snapshot_block c fs (snapshot_file root chain_name) (newest node), fs)) (\<lambda>snapshot_last_block.
         act_bind (\<lambda>fs. (load_snapshot T c fs (snapshot_file root chain_name), fs)) (\<lambda>snapshot.
         case fetch_liquidity (mint_logs node) (burn_logs node) snapshot_last_block (newest node) of
           None \<Rightarrow> act_return (Does_Not_End, lp_bound)
         | Some liquidity_events \<Rightarrow>
             if lp_data = [] \<and> \<not> lp_bound then act_raise UnboundLocalError
             else act_bind (act_lift (update_pools external_update snapshot_last_block lp_data liquidity_events
                      lp_helper snapshot)) (\<lambda>(plans, result).
                  act_bind (write_json c (snapshot_file root chain_name) (snapshot_json T (newest node) result)) (\<lambda>_.
                    act_return (Planned plans, True))))))))"

text \<open>
  The loop stops for good at a chain with a missing pool file or an endless query loop. The result lists
  how each chain that was begun has ended.
\<close>

fun fetch_chains ::
  "(string \<Rightarrow> json \<Rightarrow> bool \<Rightarrow> (file_system, liq_outcome \<times> bool) act) \<Rightarrow> (string, json) dict \<Rightarrow>
     (string \<times> json) list \<Rightarrow> bool \<Rightarrow> (file_system, (string \<times> liq_outcome) list) act" where
  "fetch_chains body chain_table [] lp_bound = act_return []"
| "fetch_chains body chain_table ((chain_name, _) # rest) lp_bound =
     act_bind (act_lift (dict_index chain_table chain_name)) (\<lambda>chain.
     act_bind (body chain_name chain lp_bound) (\<lambda>(outcome, lp_bound). case outcome of
       Planned plans \<Rightarrow>
         act_bind (fetch_chains body chain_table rest lp_bound) (\<lambda>os. act_return ((chain_name, outcome) # os))
     | _ \<Rightarrow> act_return [(chain_name, outcome)]))"

definition liquidity_fetcher ::
  "('bm, 'lt) v3_types \<Rightarrow> ('bm, 'lt, 'h) update_op \<Rightarrow> ('bm, 'lt, 'h) v3_helper \<Rightarrow> json_codec \<Rightarrow> path \<Rightarrow>
     (string \<Rightarrow> liq_node) \<Rightarrow> (string, json) dict \<Rightarrow> string option \<Rightarrow>
     (file_system, (string \<times> liq_outcome) list) act" where
  "liquidity_fetcher T external_update lp_helper c root node chain_table chain_arg =
     act_bind (act_lift (selected_chains chain_table chain_arg)) (\<lambda>chains_to_process.
     act_bind (mkdir (builder_dir root)) (\<lambda>_.
       fetch_chains (\<lambda>name. fetch_chain_liquidity T external_update lp_helper c root (node name) name)
         chain_table chains_to_process False))"

end
