(* ===== verification/Liquidity_Runs.thy ===== *)
theory Liquidity_Runs
  imports Liquidity_Properties Liquidity_Snapshot
begin

text \<open>
  Runs of the V3 liquidity fetcher: what is written is what the next run reads, up to the
  order of the keys and empty bitmaps, and consecutive runs together hand every event to its
  pool once, provided that the pool was known when the run over its block was made.
\<close>

section \<open>Sorted dictionaries\<close>

lemma distinct_sort_key: "distinct (map fst d) \<Longrightarrow> distinct (map fst (sort_key f d))"
  by (metis distinct_map distinct_sort set_sort)

lemma map_of_sort_key:
  assumes "distinct (map fst d)"
  shows "map_of (sort_key f d) = map_of d"
  by (rule map_of_eqI) (use assms in \<open>auto simp: distinct_sort_key\<close>)

lemma dict_fill_pairs: "distinct (map fst xs) \<Longrightarrow> fst ` set xs \<inter> fst ` set d = {} \<Longrightarrow> dict_fill fst snd xs d = d @ xs"
proof (induction xs arbitrary: d)
  case (Cons x xs)
  have "AList.update (fst x) (snd x) d = d @ [x]" if "fst x \<notin> fst ` set d"
    using that by (induction d) auto
  with Cons show ?case by (cases x) auto
qed simp

lemmas dict_fill_same = dict_fill_pairs [where d = "[]", simplified]

lemma sort_key_map:
  "(\<And>x. f (g x) = h x) \<Longrightarrow> sort_key f (map g xs) = map g (sort_key h xs)"
  for f :: "'a \<Rightarrow> 'k::linorder"
proof (induction xs)
  case (Cons x xs)
  have "insort_key f (g x) (map g ys) = map g (insort_key h x ys)" for ys
    using Cons.prems by (induction ys) auto
  with Cons show ?case by simp
qed simp

lemma res_map_map: "res_map f (map g xs) = res_map (\<lambda>x. f (g x)) xs"
  by (induction xs) simp_all

section \<open>One run\<close>

lemma update_pools_plans:
  "update_pools upd last_block lp_data events h snap = Inr (plans, result) \<Longrightarrow> plan_pools lp_data events = Inr plans"
proof (induction lp_data events arbitrary: h snap plans rule: plan_pools.induct)
  case (2 lp_data p es rest)
  show ?case
  proof (cases "map_of lp_data (JStr p)")
    case None
    with 2 show ?thesis by simp
  next
    case (Some lp)
    show ?thesis
    proof (cases "truthy lp")
      case False
      with Some 2 show ?thesis by simp
    next
      case True
      with Some "2.prems" obtain fee spacing h1 plans' where
        "json_key lp ''fee'' = Inr fee" "tick_spacing fee = Inr spacing"
        "update_pools upd last_block lp_data rest h1 (merge_pool p h1 snap) = Inr (plans', result)"
        "plans = \<lparr>plan_pool = p, plan_fee = fee, plan_spacing = spacing, plan_updates = map update_of (sorted_events es)\<rparr> # plans'"
        by (auto simp: res_bind_Inr_iff Let_def)
      with "2.IH"(3) [OF Some _ this(3)] Some True show ?thesis by simp
    qed
  qed
qed simp

lemma chain_file_other: "chain_file root name x \<noteq> builder_dir root @ [name]"
  by (simp add: chain_file_def)

lemma mkdir_exists: "mkdir d fs = (r, fs') \<Longrightarrow> q \<noteq> d \<Longrightarrow> path_exists fs' q = path_exists fs q"
  by (auto simp: mkdir_def path_exists_def update_conv split: option.splits fs_node.splits if_splits)

lemma read_lps_mkdir:
  "mkdir d fs = (r, fs') \<Longrightarrow> d \<notin> set ps \<Longrightarrow> read_lps c fs' ps data = read_lps c fs ps data"
proof (induction ps arbitrary: data)
  case (Cons p ps)
  then have "read_lps c fs' ps = read_lps c fs ps" by (intro ext) simp
  moreover from Cons.prems(2) have "p \<noteq> d" by auto
  ultimately show ?case using mkdir_exists [OF Cons.prems(1), of p] mkdir_other [OF Cons.prems(1), of p c] by simp
qed simp

lemma chain_lps_mkdir:
  "mkdir (builder_dir root @ [name]) fs = (r, fs') \<Longrightarrow> chain_lps c fs' root name chain = chain_lps c fs root name chain"
  unfolding chain_lps_def by (intro arg_cong [where f = "res_bind _"] ext read_lps_mkdir) (auto simp: chain_file_other [symmetric])

lemma snapshot_block_cong:
  "read_json c fs p = read_json c fs' p \<Longrightarrow> snapshot_block c fs p n = snapshot_block c fs' p n"
  by (simp add: snapshot_block_def)

lemma load_snapshot_cong:
  "read_json c fs p = read_json c fs' p \<Longrightarrow> load_snapshot T c fs p = load_snapshot T c fs' p"
  by (simp add: load_snapshot_def)

text \<open>A run that reaches the end, in terms of the files it started with.\<close>

lemma planned_runE:
  assumes "fetch_chain_liquidity T upd h c root node name chain b fs = (Inr (Planned plans, b'), fs')"
  obtains dirs lp_data last_block old events result where
    "chain_lps c fs root name chain = Inr (Some lp_data)"
    "snapshot_block c fs (snapshot_file root name) (newest node) = Inr last_block"
    "load_snapshot T c fs (snapshot_file root name) = Inr old"
    "fetch_liquidity (mint_logs node) (burn_logs node) last_block (newest node) = Some events"
    "update_pools upd last_block lp_data events h old = Inr (plans, result)"
    "write_json c (snapshot_file root name) (snapshot_json T (newest node) result) dirs = (Inr (), fs')"
proof -
  from assms obtain r dirs lps where m: "mkdir (builder_dir root @ [name]) fs = (r, dirs)"
    and lps: "chain_lps c dirs root name chain = Inr lps"
    and rest: "(case lps of
       None \<Rightarrow> act_return (Lp_File_Missing, b)
     | Some lp_data \<Rightarrow>
         act_bind (\<lambda>fs. (snapshot_block c fs (snapshot_file root name) (newest node), fs)) (\<lambda>snapshot_last_block.
         act_bind (\<lambda>fs. (load_snapshot T c fs (snapshot_file root name), fs)) (\<lambda>snapshot.
         case fetch_liquidity (mint_logs node) (burn_logs node) snapshot_last_block (newest node) of
           None \<Rightarrow> act_return (Does_Not_End, b)
         | Some liquidity_events \<Rightarrow>
             if lp_data = [] \<and> \<not> b then act_raise UnboundLocalError
             else act_bind (act_lift (update_pools upd snapshot_last_block lp_data liquidity_events h snapshot)) (\<lambda>(plans, result).
                  act_bind (write_json c (snapshot_file root name) (snapshot_json T (newest node) result)) (\<lambda>_.
                    act_return (Planned plans, True)))))) dirs = (Inr (Planned plans, b'), fs')"
    unfolding fetch_chain_liquidity_def by (elim lift_InrE act_bind_InrD [where m = "mkdir _"] pure_InrE) blast
  from rest obtain lp_data where d: "lps = Some lp_data" by (cases lps) (auto simp: act_return_def)
  from rest [unfolded d option.case] obtain last_block old events where
    l: "snapshot_block c dirs (snapshot_file root name) (newest node) = Inr last_block"
    and o: "load_snapshot T c dirs (snapshot_file root name) = Inr old"
    and f: "fetch_liquidity (mint_logs node) (burn_logs node) last_block (newest node) = Some events"
    and u: "act_bind (act_lift (update_pools upd last_block lp_data events h old)) (\<lambda>(plans, result).
      act_bind (write_json c (snapshot_file root name) (snapshot_json T (newest node) result)) (\<lambda>_.
        act_return (Planned plans, True))) dirs = (Inr (Planned plans, b'), fs')"
    by (elim pure_InrE) (auto simp: act_return_def act_raise_def split: option.splits if_splits)
  from u obtain plans' result where p: "update_pools upd last_block lp_data events h old = Inr (plans', result)"
    and w: "act_bind (write_json c (snapshot_file root name) (snapshot_json T (newest node) result)) (\<lambda>_.
        act_return (Planned plans', True)) dirs = (Inr (Planned plans, b'), fs')"
    by (elim lift_InrE) (auto split: prod.splits)
  from w have "write_json c (snapshot_file root name) (snapshot_json T (newest node) result) dirs = (Inr (), fs')"
    and "plans' = plans" by (auto simp: act_return_def elim!: act_bind_InrD)
  moreover note p f
  moreover have "read_json c dirs (snapshot_file root name) = read_json c fs (snapshot_file root name)"
    by (rule mkdir_other [OF m chain_file_other])
  with l o have "snapshot_block c fs (snapshot_file root name) (newest node) = Inr last_block"
    "load_snapshot T c fs (snapshot_file root name) = Inr old"
    by (simp_all add: snapshot_block_def load_snapshot_def)
  moreover have "chain_lps c fs root name chain = Inr (Some lp_data)"
    using lps d chain_lps_mkdir [OF m] by simp
  ultimately show ?thesis using that by blast
qed

text \<open>
  How a run ends is decided before the pool object gets to work: the part of the run that
  \<open>liquidity_chain\<close> describes ends in the same way, with the same updates.
\<close>

lemma run_follows_chain:
  assumes "fetch_chain_liquidity T upd h c root node name chain b fs = (Inr (out, b'), fs')"
  shows "liquidity_chain c fs root name chain b (newest node) (mint_logs node) (burn_logs node) = Inr out"
proof -
  from assms obtain r dirs lps where m: "mkdir (builder_dir root @ [name]) fs = (r, dirs)"
    and lps: "chain_lps c dirs root name chain = Inr lps"
    and rest: "(case lps of
       None \<Rightarrow> act_return (Lp_File_Missing, b)
     | Some lp_data \<Rightarrow>
         act_bind (\<lambda>fs. (snapshot_block c fs (snapshot_file root name) (newest node), fs)) (\<lambda>snapshot_last_block.
         act_bind (\<lambda>fs. (load_snapshot T c fs (snapshot_file root name), fs)) (\<lambda>snapshot.
         case fetch_liquidity (mint_logs node) (burn_logs node) snapshot_last_block (newest node) of
           None \<Rightarrow> act_return (Does_Not_End, b)
         | Some liquidity_events \<Rightarrow>
             if lp_data = [] \<and> \<not> b then act_raise UnboundLocalError
             else act_bind (act_lift (update_pools upd snapshot_last_block lp_data liquidity_events h snapshot)) (\<lambda>(plans, result).
                  act_bind (write_json c (snapshot_file root name) (snapshot_json T (newest node) result)) (\<lambda>_.
                    act_return (Planned plans, True)))))) dirs = (Inr (out, b'), fs')"
    unfolding fetch_chain_liquidity_def by (elim lift_InrE act_bind_InrD [where m = "mkdir _"] pure_InrE) blast
  have lps': "chain_lps c fs root name chain = Inr lps" using lps chain_lps_mkdir [OF m] by simp
  have sb: "snapshot_block c dirs (snapshot_file root name) n = snapshot_block c fs (snapshot_file root name) n" for n
    by (rule snapshot_block_cong) (rule mkdir_other [OF m chain_file_other])
  have chain: "liquidity_chain c fs root name chain b n ms bs = res_bind (chain_lps c fs root name chain) (\<lambda>r. case r of
       None \<Rightarrow> Inr Lp_File_Missing
     | Some lp_data \<Rightarrow> res_bind (snapshot_block c fs (snapshot_file root name) n) (\<lambda>last_block.
         case fetch_liquidity ms bs last_block n of
           None \<Rightarrow> Inr Does_Not_End
         | Some events \<Rightarrow>
             if lp_data = [] \<and> \<not> b then Inl UnboundLocalError
             else res_bind (plan_pools lp_data events) (\<lambda>plans. Inr (Planned plans))))" for b n ms bs
    by (simp add: liquidity_chain_def chain_lps_def res_bind_def split: sum.split)
  show ?thesis
  proof (cases lps)
    case None
    with rest lps' show ?thesis by (simp add: chain act_return_def)
  next
    case (Some lp_data)
    from rest [unfolded Some option.case] obtain last_block old where
      l: "snapshot_block c fs (snapshot_file root name) (newest node) = Inr last_block"
      and rest': "(case fetch_liquidity (mint_logs node) (burn_logs node) last_block (newest node) of
           None \<Rightarrow> act_return (Does_Not_End, b)
         | Some liquidity_events \<Rightarrow>
             if lp_data = [] \<and> \<not> b then act_raise UnboundLocalError
             else act_bind (act_lift (update_pools upd last_block lp_data liquidity_events h old)) (\<lambda>(plans, result).
                  act_bind (write_json c (snapshot_file root name) (snapshot_json T (newest node) result)) (\<lambda>_.
                    act_return (Planned plans, True)))) dirs = (Inr (out, b'), fs')"
      by (elim pure_InrE) (auto simp: sb)
    show ?thesis
    proof (cases "fetch_liquidity (mint_logs node) (burn_logs node) last_block (newest node)")
      case None
      with rest' l lps' Some show ?thesis by (simp add: chain act_return_def)
    next
      case f: (Some events)
      with rest' obtain plans result where b: "\<not> (lp_data = [] \<and> \<not> b)" "out = Planned plans"
        "update_pools upd last_block lp_data events h old = Inr (plans, result)"
        by (auto simp: act_raise_def act_return_def act_lift_def split: if_splits elim!: act_bind_InrD)
      from update_pools_plans [OF this(3)] b(1,2) l lps' Some f show ?thesis by (simp add: chain)
    qed
  qed
qed

section \<open>Updates of one pool in one run\<close>

definition updates_for :: "string \<Rightarrow> pool_plan list \<Rightarrow> (int \<times> int \<times> int \<times> int) list" where
  "updates_for p plans = concat (map plan_updates (filter (\<lambda>plan. plan_pool plan = p) plans))"

definition known_lp :: "(json, json) dict \<Rightarrow> string \<Rightarrow> bool" where
  "known_lp lp_data p = (case map_of lp_data (JStr p) of None \<Rightarrow> False | Some lp \<Rightarrow> truthy lp)"

text \<open>The pool files of the chain have data of the pool.\<close>

definition known_pool :: "json_codec \<Rightarrow> file_system \<Rightarrow> path \<Rightarrow> string \<Rightarrow> json \<Rightarrow> string \<Rightarrow> bool" where
  "known_pool c fs root name chain p =
     (case chain_lps c fs root name chain of Inr (Some lp_data) \<Rightarrow> known_lp lp_data p | _ \<Rightarrow> False)"

lemma plan_pools_for:
  "plan_pools lp_data events = Inr plans \<Longrightarrow> distinct (map fst events) \<Longrightarrow>
     updates_for p plans = (if known_lp lp_data p
       then (case map_of events p of None \<Rightarrow> [] | Some es \<Rightarrow> map update_of (sorted_events es)) else [])"
proof (induction lp_data events arbitrary: plans rule: plan_pools.induct)
  case (1 lp_data)
  then show ?case by (simp add: updates_for_def)
next
  case (2 lp_data q es rest)
  show ?case
  proof (cases "known_lp lp_data q")
    case False
    then consider "map_of lp_data (JStr q) = None" | lp where "map_of lp_data (JStr q) = Some lp" "\<not> truthy lp"
      by (auto simp: known_lp_def split: option.splits)
    then have "updates_for p plans = (if known_lp lp_data p
       then (case map_of rest p of None \<Rightarrow> [] | Some es \<Rightarrow> map update_of (sorted_events es)) else [])"
    proof cases
      case 1
      with 2 show ?thesis by simp
    next
      case (2 lp)
      with "2.prems" "2.IH"(2) [OF 2] show ?thesis by simp
    qed
    with False show ?thesis by (cases "p = q") auto
  next
    case True
    then obtain lp where lp: "map_of lp_data (JStr q) = Some lp" "truthy lp"
      by (auto simp: known_lp_def split: option.splits)
    with "2.prems"(1) obtain fee spacing plans' where r: "plan_pools lp_data rest = Inr plans'"
      "plans = \<lparr>plan_pool = q, plan_fee = fee, plan_spacing = spacing, plan_updates = map update_of (sorted_events es)\<rparr> # plans'"
      by (auto simp: res_bind_Inr_iff)
    from "2.IH"(3) [OF lp(1) _ r(1)] lp(2) "2.prems"(2)
    have IH: "updates_for p plans' = (if known_lp lp_data p
       then (case map_of rest p of None \<Rightarrow> [] | Some es \<Rightarrow> map update_of (sorted_events es)) else [])" by simp
    show ?thesis
    proof (cases "p = q")
      case True
      then have "map_of rest p = None" using "2.prems"(2) by (simp add: map_of_eq_None_iff)
      with IH have "updates_for p plans' = []" by simp
      with True r(2) \<open>known_lp lp_data q\<close> show ?thesis by (simp add: updates_for_def)
    next
      case False
      with IH r(2) show ?thesis by (simp add: updates_for_def)
    qed
  qed
qed

lemma run_updates:
  assumes "fetch_chain_liquidity T upd h c root node name chain b fs = (Inr (Planned plans, b'), fs')"
    and "snapshot_block c fs (snapshot_file root name) (newest node) = Inr last_block"
    and "log_truthful mint_chain (mint_logs node)" and "log_truthful burn_chain (burn_logs node)"
  shows "\<exists>es. updates_for p plans = map update_of es \<and> sorted (map le_pos es) \<and>
    mset es = image_mset event_of (filter_mset
      (\<lambda>l. known_pool c fs root name chain p \<and> due last_block (newest node) p l) (mset (mint_chain @ burn_chain)))"
proof -
  from planned_runE [OF assms(1)] assms(2) obtain lp_data events result old where
    lps: "chain_lps c fs root name chain = Inr (Some lp_data)"
    and f: "fetch_liquidity (mint_logs node) (burn_logs node) last_block (newest node) = Some events"
    and u: "update_pools upd last_block lp_data events h old = Inr (plans, result)"
    by (metis sum.inject(2))
  note ev = fetch_liquidity_events [OF f assms(3,4)]
  from plan_pools_for [OF update_pools_plans [OF u] ev(1), of p]
  have up: "updates_for p plans = (if known_pool c fs root name chain p
       then (case map_of events p of None \<Rightarrow> [] | Some es \<Rightarrow> map update_of (sorted_events es)) else [])"
    by (simp add: known_pool_def lps)
  obtain es where es: "mset es = image_mset event_of (filter_mset (due last_block (newest node) p) (mset (mint_chain @ burn_chain)))"
    "map_of events p = (if es = [] then None else Some es)" using ev(2) by blast
  show ?thesis
  proof (cases "known_pool c fs root name chain p")
    case False
    with up show ?thesis by (intro exI [of _ "[]"]) simp
  next
    case True
    with up es show ?thesis by (intro exI [of _ "sorted_events es"]) (simp add: sorted_events_def)
  qed
qed

section \<open>The snapshot is read back\<close>

text \<open>The keys of the dictionaries are distinct, and updates of a pool object keep them so.\<close>

definition ticks_ok :: "('bm, 'lt) tick_snapshot \<Rightarrow> bool" where
  "ticks_ok s \<longleftrightarrow> distinct (map fst (snap_bitmap s)) \<and> distinct (map fst (snap_data s))"

definition snapshot_ok :: "(string, ('bm, 'lt) tick_snapshot) dict \<Rightarrow> bool" where
  "snapshot_ok snap \<longleftrightarrow> distinct (map fst snap) \<and> (\<forall>(a, s)\<in>set snap. ticks_ok s)"

definition given_ok :: "('bm, 'lt, 'h) v3_helper \<Rightarrow> bool" where
  "given_ok h \<longleftrightarrow> distinct (map fst (given_data h)) \<and> distinct (map fst (given_bitmap h))"

definition update_lawful :: "('bm, 'lt, 'h) update_op \<Rightarrow> bool" where
  "update_lawful upd \<longleftrightarrow> (\<forall>u h h'. upd u h = Inr h' \<longrightarrow> given_ok h \<longrightarrow> given_ok h')"

lemma apply_updates_ok: "update_lawful upd \<Longrightarrow> apply_updates upd us h = Inr h' \<Longrightarrow> given_ok h \<Longrightarrow> given_ok h'"
proof (induction us arbitrary: h)
  case (Cons u us)
  from Cons.prems(2) obtain h1 where h1: "upd u h = Inr h1" "apply_updates upd us h1 = Inr h'"
    by (auto simp: res_bind_Inr_iff)
  have "given_ok h1" using Cons.prems(1,3) h1(1) unfolding update_lawful_def by blast
  then show ?case by (rule Cons.IH [OF Cons.prems(1) h1(2)])
qed simp

lemma snapshot_ok_update: "snapshot_ok snap \<Longrightarrow> ticks_ok s \<Longrightarrow> snapshot_ok (AList.update p s snap)"
  using set_update_subset [of p s snap] by (auto simp: snapshot_ok_def distinct_update)

lemma merge_pool_ok: "snapshot_ok snap \<Longrightarrow> given_ok h \<Longrightarrow> snapshot_ok (merge_pool p h snap)"
  unfolding merge_pool_def Let_def
  by (rule snapshot_ok_update) (simp_all add: ticks_ok_def merge_dicts_def given_ok_def dict_fill_distinct)

lemma previous_ok: "snapshot_ok snap \<Longrightarrow> ticks_ok (previous_ticks snap p)"
  by (auto simp: previous_ticks_def snapshot_ok_def ticks_ok_def split: option.split dest: map_of_SomeD)

lemma update_pools_ok:
  "update_pools upd last_block lp_data events h snap = Inr (plans, result) \<Longrightarrow> update_lawful upd \<Longrightarrow>
     snapshot_ok snap \<Longrightarrow> snapshot_ok result"
proof (induction lp_data events arbitrary: h snap plans rule: plan_pools.induct)
  case (2 lp_data p es rest)
  show ?case
  proof (cases "known_lp lp_data p")
    case False
    then have "update_pools upd last_block lp_data rest h snap = Inr (plans, result)"
      using "2.prems"(1) by (auto simp: known_lp_def split: option.splits)
    with False 2 show ?thesis by (auto simp: known_lp_def split: option.splits)
  next
    case True
    then obtain lp where lp: "map_of lp_data (JStr p) = Some lp" "truthy lp"
      by (auto simp: known_lp_def split: option.splits)
    with "2.prems"(1) obtain fee spacing h1 plans' where
      h1: "apply_updates upd (map update_of (sorted_events es)) (set_helper last_block (previous_ticks snap p) fee spacing h) = Inr h1"
      and rest: "update_pools upd last_block lp_data rest h1 (merge_pool p h1 snap) = Inr (plans', result)"
      by (auto simp: res_bind_Inr_iff Let_def)
    have "given_ok (set_helper last_block (previous_ticks snap p) fee spacing h)"
      using previous_ok [OF "2.prems"(3), of p] by (simp add: given_ok_def set_helper_def ticks_ok_def)
    from apply_updates_ok [OF "2.prems"(2) h1 this] have "snapshot_ok (merge_pool p h1 snap)"
      by (rule merge_pool_ok [OF "2.prems"(3)])
    with "2.IH"(3) [OF lp(1) _ rest "2.prems"(2)] lp(2) show ?thesis by simp
  qed
qed simp

lemma read_ticks_ok: "read_ticks f d = Inr t \<Longrightarrow> distinct (map fst t)"
  by (auto simp: read_ticks_def res_bind_Inr_iff intro: dict_fill_distinct)

lemma read_tick_snapshot_ok: "read_tick_snapshot T v = Inr s \<Longrightarrow> ticks_ok s"
  by (auto simp: read_tick_snapshot_def res_bind_Inr_iff ticks_ok_def dest: read_ticks_ok)

lemma dict_fill_set: "set (dict_fill fst snd xs d) \<subseteq> set d \<union> set xs"
proof (induction xs arbitrary: d)
  case (Cons x xs)
  from Cons.IH [of "AList.update (fst x) (snd x) d"] set_update_subset [of "fst x" "snd x" d] show ?case by auto
qed simp

lemma res_map_set: "res_map f xs = Inr ys \<Longrightarrow> y \<in> set ys \<Longrightarrow> \<exists>x\<in>set xs. f x = Inr y"
  by (induction xs arbitrary: ys) (auto simp: res_bind_Inr_iff)

lemma load_snapshot_ok:
  assumes "load_snapshot T c fs p = Inr snap"
  shows "snapshot_ok snap"
proof (cases "read_json c fs p")
  case (Inl e)
  with assms show ?thesis by (simp add: load_snapshot_def snapshot_ok_def)
next
  case (Inr v)
  with assms obtain kvs xs where xs: "res_map (\<lambda>(a, s). res_bind (read_tick_snapshot T s) (\<lambda>t. Inr (a, t)))
      (AList.delete ''snapshot_block'' kvs) = Inr xs" "snap = dict_fill fst snd xs []"
    by (auto simp: load_snapshot_def res_bind_Inr_iff)
  have "ticks_ok s" if "(a, s) \<in> set xs" for a s
    using res_map_set [OF xs(1) that] by (auto simp: res_bind_Inr_iff dest: read_tick_snapshot_ok)
  with xs(2) dict_fill_set [of xs "[]"] show ?thesis by (auto simp: snapshot_ok_def intro: dict_fill_distinct)
qed

text \<open>Constructing from \<open>to_dict()\<close> gives the object back.\<close>

definition types_faithful :: "('bm, 'lt) v3_types \<Rightarrow> bool" where
  "types_faithful T \<longleftrightarrow> (\<forall>b. bitmap_at_word T (bitmap_dict T b) = Inr b) \<and>
     (\<forall>l. liquidity_at_tick T (liquidity_dict T l) = Inr l)"

lemma read_ticks_json:
  assumes "\<And>x. f (g x) = Inr x" and "distinct (map fst d)"
  shows "read_ticks f (ticks_json g d) = Inr (sort_key fst d)"
proof -
  have "res_map (\<lambda>(k, v). res_bind (py_int10 k) (\<lambda>n. res_bind (f v) (\<lambda>x. Inr (n, x))))
      (map (\<lambda>(k, v). (py_str k, g v)) (sort_key fst d)) = Inr (map (\<lambda>kv. kv) (sort_key fst d))"
    unfolding res_map_map by (rule res_map_all_Inr) (simp add: assms(1) py_int10_str split: prod.split)
  with assms(2) show ?thesis
    by (simp add: read_ticks_def ticks_json_def dict_fill_same distinct_sort_key)
qed

text \<open>What the next run reads of the tick data of a pool.\<close>

definition kept_ticks :: "('bm, 'lt) v3_types \<Rightarrow> ('bm, 'lt) tick_snapshot \<Rightarrow> ('bm, 'lt) tick_snapshot" where
  "kept_ticks T s = \<lparr>snap_bitmap = sort_key fst (filter (\<lambda>(k, b). bitmap_bits T b \<noteq> 0) (snap_bitmap s)),
     snap_data = sort_key fst (snap_data s)\<rparr>"

lemma read_tick_snapshot_json:
  assumes "types_faithful T" and "ticks_ok s"
  shows "read_tick_snapshot T (tick_snapshot_json T s) = Inr (kept_ticks T s)"
  using assms
  by (simp add: read_tick_snapshot_def tick_snapshot_json_def dict_index_def kept_ticks_def types_faithful_def
      ticks_ok_def read_ticks_json distinct_map_filter)

lemma snapshot_json_entries:
  assumes "types_faithful T" and "snapshot_ok snap"
  shows "res_map (\<lambda>(a, s). res_bind (read_tick_snapshot T s) (\<lambda>t. Inr (a, t)))
      (AList.delete k (sort_key fst (AList.update k v (map (\<lambda>(a, s). (a, tick_snapshot_json T s)) snap)))) =
    Inr (map (\<lambda>(a, s). (a, kept_ticks T s)) (sort_key fst (AList.delete k snap)))"
proof -
  let ?J = "\<lambda>(a, s). (a, tick_snapshot_json T s)"
  have del: "AList.delete k xs = filter (\<lambda>x. k \<noteq> fst x) xs" for xs :: "(string \<times> 'x) list"
    by (simp add: AList.delete_eq case_prod_unfold)
  have "AList.delete k (sort_key fst (AList.update k v (map ?J snap))) =
      sort_key fst (AList.delete k (AList.update k v (map ?J snap)))" by (simp only: del filter_sort)
  also have "\<dots> = sort_key fst (AList.delete k (map ?J snap))" by (simp only: AList.delete_update_same)
  also have "AList.delete k (map ?J snap) = map ?J (AList.delete k snap)"
    by (simp add: del filter_map comp_def case_prod_unfold)
  also have "sort_key fst (map ?J (AList.delete k snap)) = map ?J (sort_key fst (AList.delete k snap))"
    by (rule sort_key_map) (simp add: case_prod_unfold)
  finally have e: "AList.delete k (sort_key fst (AList.update k v (map ?J snap))) = map ?J (sort_key fst (AList.delete k snap))" .
  have ok: "ticks_ok s" if "(a, s) \<in> set (sort_key fst (AList.delete k snap))" for a s
    using assms(2) that by (auto simp: snapshot_ok_def del)
  show ?thesis
    unfolding e res_map_map
    by (rule res_map_all_Inr) (auto simp: read_tick_snapshot_json [OF assms(1)] ok split: prod.split)
qed

lemma snapshot_written_back:
  assumes "reads_back c" and "write_json c p (snapshot_json T n snap) fs = (Inr (), fs')" and "distinct (map fst snap)"
  obtains kvs where "read_json c fs' p = Inr (JObj kvs)" and "map_of kvs ''snapshot_block'' = Some (JInt n)"
    and "kvs = sort_key fst (AList.update ''snapshot_block'' (JInt n) (map (\<lambda>(a, s). (a, tick_snapshot_json T s)) snap))"
proof -
  let ?d = "AList.update ''snapshot_block'' (JInt n) (map (\<lambda>(a, s). (a, tick_snapshot_json T s)) snap)"
  have "map fst (map (\<lambda>(a, s). (a, tick_snapshot_json T s)) snap) = map fst snap" by (simp add: case_prod_unfold)
  with assms(3) have "distinct (map fst ?d)" by (metis distinct_update)
  then have "map_of (sort_key fst ?d) ''snapshot_block'' = Some (JInt n)" by (simp add: map_of_sort_key update_conv)
  from that [OF written_back [OF assms(1) assms(2) [unfolded snapshot_json_def]] this refl] show ?thesis .
qed

text \<open>The run after a run: its snapshot block is the newest block of the first.\<close>

lemma next_run_block:
  assumes "fetch_chain_liquidity T upd h c root node name chain b fs = (Inr (Planned plans, b'), fs1)"
    and "read_json c fs2 (snapshot_file root name) = read_json c fs1 (snapshot_file root name)"
    and "reads_back c" and "update_lawful upd"
  shows "snapshot_block c fs2 (snapshot_file root name) n =
    (if newest node < n then Inr (Some (newest node)) else Inl AssertionError)"
proof -
  obtain dirs lp_data last_block old events result where
    o: "load_snapshot T c fs (snapshot_file root name) = Inr old"
    and u: "update_pools upd last_block lp_data events h old = Inr (plans, result)"
    and w: "write_json c (snapshot_file root name) (snapshot_json T (newest node) result) dirs = (Inr (), fs1)"
    by (rule planned_runE [OF assms(1)])
  have "distinct (map fst result)"
    using update_pools_ok [OF u assms(4) load_snapshot_ok [OF o]] by (simp add: snapshot_ok_def)
  from snapshot_written_back [OF assms(3) w this] obtain kvs where
    "read_json c fs1 (snapshot_file root name) = Inr (JObj kvs)" "map_of kvs ''snapshot_block'' = Some (JInt (newest node))" by blast
  with assms(2) show ?thesis by (simp add: snapshot_block_def dict_index_def)
qed

lemma snapshot_block_before: "snapshot_block c fs p n = Inr (Some m) \<Longrightarrow> m < n"
  by (cases "read_json c fs p") (auto simp: snapshot_block_def res_bind_def split: sum.splits json.splits if_splits)

lemma due_split:
  assumes "\<forall>m. last_block = Some m \<longrightarrow> m < n1" and "n1 < n2"
  shows "due last_block n2 p l \<longleftrightarrow> due last_block n1 p l \<or> due (Some n1) n2 p l"
    and "due last_block n1 p l \<Longrightarrow> ll_block l \<le> n1" and "due (Some n1) n2 p l \<Longrightarrow> n1 < ll_block l"
  using assms by (cases last_block; force simp: due_def start_block_def)+

lemma filter_mset_disj:
  "(\<And>x. \<not> (P x \<and> Q x)) \<Longrightarrow> filter_mset P M + filter_mset Q M = filter_mset (\<lambda>x. P x \<or> Q x) M"
  by (induction M) auto

section \<open>Properties\<close>

text \<open>
  Example: two runs on the pond of \<open>Liquidity_Properties\<close>. The pool files know \<open>0xp\<close> in the first
  run, and \<open>0xq\<close> only in the second: its mint in block 1600 is lost. Tick data are plain numbers.
\<close>

definition pond_types :: "(int, int) v3_types" where
  "pond_types = \<lparr>bitmap_at_word = (\<lambda>v. case v of JInt n \<Rightarrow> Inr n | _ \<Rightarrow> Inl TypeError),
     liquidity_at_tick = (\<lambda>v. case v of JInt n \<Rightarrow> Inr n | _ \<Rightarrow> Inl TypeError),
     bitmap_dict = JInt, liquidity_dict = JInt, bitmap_bits = (\<lambda>n. n)\<rparr>"

definition add_at :: "int \<Rightarrow> int \<Rightarrow> (int, int) dict \<Rightarrow> (int, int) dict" where
  "add_at k n d = AList.update k (n + (case map_of d k of None \<Rightarrow> 0 | Some m \<Rightarrow> m)) d"

definition pond_update :: "(int, int, unit) update_op" where
  "pond_update = (\<lambda>(b, n, lower, upper) h. let d = add_at upper (- n) (add_at lower n (tick_data h));
       m = AList.update 0 0 (AList.update (- 1) 8 (tick_bitmap h)) in
     Inr (h\<lparr>tick_data := d, given_data := add_at upper (- n) (add_at lower n (given_data h)), tick_bitmap := m\<rparr>))"

definition pond_helper :: "(int, int, unit) v3_helper" where
  "pond_helper = \<lparr>h_address = [], h_liquidity = 0, tick_data = [], tick_bitmap = [], given_data = [], given_bitmap = [],
     h_update_block = 0, liquidity_update_block = 0, h_tick = 0, h_fee = JNull, h_spacing = 0, h_hidden = ()\<rparr>"

definition pond_snapshot_json :: "int \<Rightarrow> int \<Rightarrow> json" where
  "pond_snapshot_json n b = JObj [(''0xp'', JObj [(''tick_bitmap'', JObj [(''-1'', JInt 8)]),
       (''tick_data'', JObj [(''-60'', JInt n), (''60'', JInt (- n))])]), (''snapshot_block'', JInt b)]"

definition pond_lp :: "string \<Rightarrow> json" where
  "pond_lp p = JObj [(''pool_address'', JStr p), (''fee'', JInt 3000)]"

definition pond_files :: json_codec where
  "pond_files = \<lparr>u_loads = (\<lambda>t. if t = ''p'' then Inr (JList [pond_lp ''0xp''])
       else if t = ''pq'' then Inr (JList [pond_lp ''0xp'', pond_lp ''0xq''])
       else if t = ''one'' then Inr (pond_snapshot_json 9 9700)
       else if t = ''two'' then Inr (pond_snapshot_json 11 10900) else Inl ValueError),
     u_dumps = (\<lambda>v. if v = pond_snapshot_json 9 9700 then Inr ''one''
       else if v = pond_snapshot_json 11 10900 then Inr ''two'' else Inl ValueError)\<rparr>"

definition pond_at :: "int \<Rightarrow> liq_node" where
  "pond_at b = \<lparr>newest = b, mint_logs = pond_node pond_mints, burn_logs = pond_node pond_burns\<rparr>"

abbreviation pond_turn :: "int \<Rightarrow> (file_system, liq_outcome \<times> bool) act" where
  "pond_turn b \<equiv> fetch_chain_liquidity pond_types pond_update pond_helper pond_files [''cb''] (pond_at b) ''base'' pond_chain False"

definition pond_before :: file_system where
  "pond_before = [([''cb'', ''data''], Dir), (chain_file [''cb''] ''base'' ''_uni_v3.json'', File ''p'')]"

definition pond_between :: file_system where
  "pond_between = AList.update (chain_file [''cb''] ''base'' ''_uni_v3.json'') (File ''pq'') (snd (pond_turn 9700 pond_before))"

definition pond_plans :: "(int \<times> int \<times> int \<times> int) list \<Rightarrow> pool_plan list" where
  "pond_plans us = [\<lparr>plan_pool = ''0xp'', plan_fee = JInt 3000, plan_spacing = 60, plan_updates = us\<rparr>]"

lemma pond_first: "fst (pond_turn 9700 pond_before) = Inr (Planned (pond_plans [(1500, 9, - 60, 60)]), True)"
  by code_simp

lemma pond_second:
  "fst (pond_turn 10900 pond_between) = Inr (Planned (pond_plans [(9800, - 3, - 60, 60), (9800, 5, - 60, 60)]), True)"
  by code_simp

lemma pond_runs:
  "pond_turn 9700 pond_before = (Inr (Planned (pond_plans [(1500, 9, - 60, 60)]), True), snd (pond_turn 9700 pond_before))"
  "pond_turn 10900 pond_between =
     (Inr (Planned (pond_plans [(9800, - 3, - 60, 60), (9800, 5, - 60, 60)]), True), snd (pond_turn 10900 pond_between))"
  by (rule prod_eqI; simp only: pond_first pond_second prod.sel)+

lemma pond_kept:
  "read_json pond_files pond_between (snapshot_file [''cb''] ''base'') =
   read_json pond_files (snd (pond_turn 9700 pond_before)) (snapshot_file [''cb''] ''base'')"
  by code_simp

lemma pond_reads_back: "reads_back pond_files"
  by (auto simp: reads_back_def pond_files_def pond_snapshot_json_def split: if_splits)

lemma pond_lawful: "types_faithful pond_types" "update_lawful pond_update"
  by (auto simp: types_faithful_def pond_types_def update_lawful_def pond_update_def given_ok_def Let_def add_at_def distinct_update)

text \<open>
  C8: When a run of the liquidity fetcher on a chain succeeds, the next run reads from the snapshot file what
  this one has merged: the tick data of every pool, in the order of the keys, with the bitmaps that
  are not empty; and the events after the newest block of this run are those it will ask for.
\<close>

theorem liquidity_snapshot_reread:
  assumes "fetch_chain_liquidity T upd h c root node name chain b fs = (Inr (Planned plans, b'), fs')"
    and "reads_back c" and "types_faithful T" and "update_lawful upd"
  shows "\<exists>lp_data last_block old events result.
     chain_lps c fs root name chain = Inr (Some lp_data) \<and>
     snapshot_block c fs (snapshot_file root name) (newest node) = Inr last_block \<and>
     load_snapshot T c fs (snapshot_file root name) = Inr old \<and>
     fetch_liquidity (mint_logs node) (burn_logs node) last_block (newest node) = Some events \<and>
     update_pools upd last_block lp_data events h old = Inr (plans, result) \<and>
     load_snapshot T c fs' (snapshot_file root name) = Inr (map (\<lambda>(a, s). (a,
       \<lparr>snap_bitmap = sort_key fst (filter (\<lambda>(k, bits). bitmap_bits T bits \<noteq> 0) (snap_bitmap s)),
        snap_data = sort_key fst (snap_data s)\<rparr>)) (sort_key fst (AList.delete ''snapshot_block'' result))) \<and>
     snapshot_block c fs' (snapshot_file root name) (newest node + 1) = Inr (Some (newest node))"
proof -
  obtain dirs lp_data last_block old events result where
    l: "chain_lps c fs root name chain = Inr (Some lp_data)"
      "snapshot_block c fs (snapshot_file root name) (newest node) = Inr last_block"
    and o: "load_snapshot T c fs (snapshot_file root name) = Inr old"
      "fetch_liquidity (mint_logs node) (burn_logs node) last_block (newest node) = Some events"
    and u: "update_pools upd last_block lp_data events h old = Inr (plans, result)"
    and w: "write_json c (snapshot_file root name) (snapshot_json T (newest node) result) dirs = (Inr (), fs')"
    by (rule planned_runE [OF assms(1)])
  have ok: "snapshot_ok result" by (rule update_pools_ok [OF u assms(4) load_snapshot_ok [OF o(1)]])
  then have d: "distinct (map fst result)" by (simp add: snapshot_ok_def)
  let ?R = "map (\<lambda>(a, s). (a, kept_ticks T s)) (sort_key fst (AList.delete ''snapshot_block'' result))"
  have "distinct (map fst (sort_key fst (AList.delete ''snapshot_block'' result)))"
    by (intro distinct_sort_key AList.distinct_delete d)
  then have "dict_fill fst snd ?R [] = ?R" by (intro dict_fill_same) (simp add: case_prod_unfold comp_def)
  moreover from snapshot_written_back [OF assms(2) w d] obtain kvs where
    "read_json c fs' (snapshot_file root name) = Inr (JObj kvs)"
    "kvs = sort_key fst (AList.update ''snapshot_block'' (JInt (newest node)) (map (\<lambda>(a, s). (a, tick_snapshot_json T s)) result))" .
  ultimately have "load_snapshot T c fs' (snapshot_file root name) = Inr ?R"
    using snapshot_json_entries [OF assms(3) ok] by (simp only: load_snapshot_def sum.case json_items.simps res_bind_simps)
  moreover have "snapshot_block c fs' (snapshot_file root name) (newest node + 1) = Inr (Some (newest node))"
    using next_run_block [OF assms(1) refl assms(2,4), of "newest node + 1"] by simp
  ultimately show ?thesis using l o u unfolding kept_ticks_def by blast
qed

theorem liquidity_snapshot_reread_witness:
  "\<exists>lp_data last_block old events result.
     update_pools pond_update last_block lp_data events pond_helper old = Inr (pond_plans [(1500, 9, - 60, 60)], result) \<and>
     load_snapshot pond_types pond_files (snd (pond_turn 9700 pond_before)) (snapshot_file [''cb''] ''base'') =
       Inr (map (\<lambda>(a, s). (a,
       \<lparr>snap_bitmap = sort_key fst (filter (\<lambda>(k, bits). bitmap_bits pond_types bits \<noteq> 0) (snap_bitmap s)),
        snap_data = sort_key fst (snap_data s)\<rparr>)) (sort_key fst (AList.delete ''snapshot_block'' result))) \<and>
     snapshot_block pond_files (snd (pond_turn 9700 pond_before)) (snapshot_file [''cb''] ''base'') 9701 = Inr (Some 9700)"
proof -
  have n: "newest (pond_at 9700) = 9700" "9700 + 1 = (9701 :: int)" by (simp_all add: pond_at_def)
  from liquidity_snapshot_reread [OF pond_runs(1) pond_reads_back pond_lawful, unfolded n] show ?thesis by blast
qed

text \<open>
  C7: Two runs, whatever happens to the pool files between them, hand to a pool, ordered by block and
  transaction, each of its non-zero events after the first snapshot exactly once, if the pool
  files had data of the pool in the run that read the block of the event; an event of a
  pool that was not yet in the files is never handed over.
\<close>

theorem liquidity_runs_compose:
  assumes "fetch_chain_liquidity T upd h c root node name chain b fs = (Inr (Planned plans, b1), fs1)"
    and "read_json c fs2 (snapshot_file root name) = read_json c fs1 (snapshot_file root name)"
    and "fetch_chain_liquidity T upd h2 c root node2 name chain2 b2 fs2 = (Inr (Planned plans2, b3), fs3)"
    and "log_truthful mint_chain (mint_logs node)" and "log_truthful burn_chain (burn_logs node)"
    and "log_truthful mint_chain (mint_logs node2)" and "log_truthful burn_chain (burn_logs node2)"
    and "reads_back c" and "update_lawful upd"
    and "snapshot_block c fs (snapshot_file root name) (newest node) = Inr last_block"
  shows "\<exists>es. updates_for p plans @ updates_for p plans2 = map update_of es \<and> sorted (map le_pos es) \<and>
    mset es = image_mset event_of (filter_mset (\<lambda>l. due last_block (newest node2) p l \<and>
      (if ll_block l \<le> newest node then known_pool c fs root name chain p else known_pool c fs2 root name chain2 p))
      (mset (mint_chain @ burn_chain)))"
proof -
  let ?all = "mset (mint_chain @ burn_chain)" and ?n = "newest node" and ?m = "newest node2"
  obtain last2 where l2: "snapshot_block c fs2 (snapshot_file root name) ?m = Inr last2"
    using planned_runE [OF assms(3)] by metis
  with next_run_block [OF assms(1,2,8,9), of ?m] have m: "?n < ?m" "last2 = Some ?n" by (auto split: if_splits)
  obtain xs where xs: "updates_for p plans = map update_of xs" "sorted (map le_pos xs)"
    "mset xs = image_mset event_of (filter_mset (\<lambda>l. known_pool c fs root name chain p \<and> due last_block ?n p l) ?all)"
    using run_updates [OF assms(1,10,4,5)] by blast
  obtain ys where ys: "updates_for p plans2 = map update_of ys" "sorted (map le_pos ys)"
    "mset ys = image_mset event_of (filter_mset (\<lambda>l. known_pool c fs2 root name chain2 p \<and> due (Some ?n) ?m p l) ?all)"
    using run_updates [OF assms(3) l2 assms(6,7)] m(2) by blast
  have bound: "\<forall>k. last_block = Some k \<longrightarrow> k < ?n" using assms(10) by (auto intro: snapshot_block_before)
  note due = due_split [OF bound m(1)]
  have x: "pos_block (le_pos e) \<le> ?n" if "e \<in># mset xs" for e
    using that unfolding xs(3) by (auto simp: event_of_def dest: due(2))
  have y: "?n < pos_block (le_pos e)" if "e \<in># mset ys" for e
    using that unfolding ys(3) by (auto simp: event_of_def dest: due(3))
  have "le_pos e \<le> le_pos f" if "e \<in> set xs" "f \<in> set ys" for e f
    using x [of e] y [of f] that by (simp add: less_eq_event_pos_def)
  then have "sorted (map le_pos (xs @ ys))" using xs(2) ys(2) by (simp add: sorted_append)
  moreover have "mset (xs @ ys) = image_mset event_of (filter_mset (\<lambda>l. due last_block ?m p l \<and>
      (if ll_block l \<le> ?n then known_pool c fs root name chain p else known_pool c fs2 root name chain2 p)) ?all)"
  proof -
    have "(due last_block ?m p l \<and> (if ll_block l \<le> ?n then P else Q)) \<longleftrightarrow>
        (P \<and> due last_block ?n p l) \<or> (Q \<and> due (Some ?n) ?m p l)" for l P Q
      using due [of p l] by auto
    moreover have "\<not> (due last_block ?n p l \<and> due (Some ?n) ?m p l)" for l using due(2,3) [of p l] by fastforce
    ultimately show ?thesis
      unfolding mset_append xs(3) ys(3) image_mset_union [symmetric] by (subst filter_mset_disj) auto
  qed
  ultimately show ?thesis using xs(1) ys(1) by (intro exI [of _ "xs @ ys"]) simp
qed

theorem liquidity_runs_compose_witness:
  "(\<exists>es. [(1500, 9, - 60, 60), (9800, - 3, - 60, 60), (9800, 5, - 60, 60)] = map update_of es \<and> sorted (map le_pos es)) \<and>
   (\<exists>es. [] = map update_of es \<and> mset es = image_mset event_of (filter_mset (\<lambda>l. due None 10900 ''0xq'' l \<and>
      (if ll_block l \<le> 9700 then known_pool pond_files pond_before [''cb''] ''base'' pond_chain ''0xq''
       else known_pool pond_files pond_between [''cb''] ''base'' pond_chain ''0xq'')) (mset (pond_mints @ pond_burns))))"
proof -
  have none: "snapshot_block pond_files pond_before (snapshot_file [''cb''] ''base'') (newest (pond_at 9700)) = Inr None"
    by code_simp
  have truth: "log_truthful pond_mints (mint_logs (pond_at b))" "log_truthful pond_burns (burn_logs (pond_at b))" for b
    by (simp_all add: pond_at_def pond_truthful)
  note both = liquidity_runs_compose [OF pond_runs(1) pond_kept pond_runs(2) truth truth pond_reads_back pond_lawful(2) none]
  have n: "newest (pond_at b) = b" for b by (simp add: pond_at_def)
  have p: "updates_for ''0xp'' (pond_plans us) = us" "updates_for ''0xq'' (pond_plans us) = []" for us
    by (simp_all add: updates_for_def pond_plans_def)
  show ?thesis
  proof
    show "\<exists>es. [(1500, 9, - 60, 60), (9800, - 3, - 60, 60), (9800, 5, - 60, 60)] = map update_of es \<and> sorted (map le_pos es)"
      using both [of "''0xp''", unfolded p append.simps] by (elim exE conjE) (intro exI conjI)
  qed (use both [of "''0xq''", unfolded p n append.simps] in \<open>elim exE conjE, intro exI conjI\<close>)
qed

text \<open>
  C37: A node that answers every query over few enough blocks, at whatever limit, makes the run
  on a chain end: the span shrinks below the limit before it can stick.
\<close>

theorem liquidity_run_ends:
  assumes "\<forall>k i e. e - i \<le> L \<longrightarrow> (\<exists>ls. mint_logs node k i e = Inr ls)"
    and "\<forall>k i e. e - i \<le> L \<longrightarrow> (\<exists>ls. burn_logs node k i e = Inr ls)" and "0 \<le> L"
  shows "fst (fetch_chain_liquidity T upd h c root node name chain b fs) \<noteq> Inr (Does_Not_End, b')"
proof
  assume "fst (fetch_chain_liquidity T upd h c root node name chain b fs) = Inr (Does_Not_End, b')"
  then obtain fs' where run: "fetch_chain_liquidity T upd h c root node name chain b fs = (Inr (Does_Not_End, b'), fs')"
    by (metis prod.collapse)
  from run_follows_chain [OF run] liquidity_chain_ends [OF assms] show False by blast
qed

theorem liquidity_run_ends_witness:
  "fst (pond_turn 10900 pond_before) \<noteq> Inr (Does_Not_End, False)"
  by (rule liquidity_run_ends [of 8000]) (simp_all add: pond_at_def pond_node_def)

end
