(* ===== verification/Arbitrage_Choice.thy ===== *)
theory Arbitrage_Choice
  imports Arbitrage
begin

text \<open>
  The greedy choice of arbs without overlap: a reference definition, the refinement of the
  code's loop (which removes conflicting arbs one by one) to it, and the contract of a greedy
  choice as a locale that the loop interprets.
\<close>

section \<open>The removal loop is a filter\<close>

lemma drop_arbs_filter:
  "(\<forall>x\<in>set pre. \<not> P x) \<Longrightarrow>
     drop_arbs (filter P xs) (pre @ xs) = Inr (pre @ filter (\<lambda>x. \<not> P x) xs)"
proof (induction xs arbitrary: pre)
  case (Cons x xs)
  show ?case
  proof (cases "P x")
    case True
    with Cons.prems have "list_remove x (pre @ x # xs) = Inr (pre @ xs)"
      by (auto simp: list_remove_def remove1_append)
    with True Cons.IH [OF Cons.prems] show ?thesis by simp
  next
    case False
    with Cons.prems Cons.IH [of "pre @ [x]"] show ?thesis by simp
  qed
qed simp

lemma drop_conflicting: 
  "drop_arbs (conflicting_arbs m arbs) arbs = Inr (filter (\<lambda>h. \<not> overlaps m h) arbs)"
  using drop_arbs_filter [of "[]" "overlaps m" arbs] by (simp add: conflicting_arbs_def)

section \<open>The reference choice\<close>

function greedy_pick :: "('a \<Rightarrow> 'a \<Rightarrow> bool) \<Rightarrow> 'a list \<Rightarrow> 'a list" where
  "greedy_pick clash [] = []"
| "greedy_pick clash (x # xs) = x # greedy_pick clash (filter (\<lambda>y. \<not> clash x y) xs)"
  by pat_completeness auto
termination
  by (relation "measure (\<lambda>(clash, xs). length xs)") (auto simp: le_imp_less_Suc)

lemma arbs_without_overlap_Cons:
  "arbs_without_overlap (m # rest) chosen =
     (let rest' = filter (\<lambda>h. \<not> overlaps m h) rest in
      if rest' = [] then Inr (set_add m chosen) else arbs_without_overlap rest' (set_add m chosen))"
  by (simp add: drop_conflicting Let_def)

declare arbs_without_overlap.simps(2) [simp del]

lemma arbs_without_overlap_pick:
  "arbs \<noteq> [] \<Longrightarrow>
     arbs_without_overlap arbs chosen = Inr (fold set_add (greedy_pick overlaps arbs) chosen)"
proof (induction "length arbs" arbitrary: arbs chosen rule: less_induct)
  case less
  then obtain m rest where arbs: "arbs = m # rest" by (cases arbs) auto
  let ?rest = "filter (\<lambda>h. \<not> overlaps m h) rest"
  have "length ?rest < length arbs" using arbs by (simp add: le_imp_less_Suc)
  then show ?case
    using less.hyps [of ?rest "set_add m chosen"] arbs
    by (cases "?rest = []") (simp_all add: arbs_without_overlap_Cons)
qed

section \<open>The contract of a greedy choice\<close>

locale greedy_choice =
  fixes clash :: "'a \<Rightarrow> 'a \<Rightarrow> bool"
    and select :: "'a list \<Rightarrow> 'a list"
  assumes clash_sym: "clash x y \<Longrightarrow> clash y x"
    and select_Nil: "select [] = []"
    and select_Cons: "set (select (x # xs)) = insert x (set (select (filter (\<lambda>y. \<not> clash x y) xs)))"
    and select_distinct: "distinct (select xs)"
begin

lemma select_subset: "set (select xs) \<subseteq> set xs"
proof (induction "length xs" arbitrary: xs rule: less_induct)
  case less
  show ?case
  proof (cases xs)
    case (Cons x ys)
    then have "set (select (filter (\<lambda>y. \<not> clash x y) ys)) \<subseteq> set (filter (\<lambda>y. \<not> clash x y) ys)"
      by (intro less.hyps) (simp add: le_imp_less_Suc)
    with Cons show ?thesis by (auto simp: select_Cons)
  qed (simp add: select_Nil)
qed

lemma select_independent: "x \<in> set (select xs) \<Longrightarrow> y \<in> set (select xs) \<Longrightarrow> x \<noteq> y \<Longrightarrow> \<not> clash x y"
proof (induction "length xs" arbitrary: xs rule: less_induct)
  case less
  obtain z zs where xs: "xs = z # zs"
    using less.prems(1) select_Nil by (cases xs) auto
  let ?zs = "filter (\<lambda>y. \<not> clash z y) zs"
  have len: "length ?zs < length xs" using xs by (simp add: le_imp_less_Suc)
  have free: "\<not> clash z u" if "u \<in> set (select ?zs)" for u
    using that select_subset [of ?zs] by auto
  from less.prems xs consider "x \<in> set (select ?zs)" "y \<in> set (select ?zs)"
    | "x = z" "y \<in> set (select ?zs)" | "x \<in> set (select ?zs)" "y = z"
    by (auto simp: select_Cons)
  then show ?case
    using less.hyps [OF len] less.prems(3) free clash_sym by cases blast+
qed

text \<open>
  Whatever is not chosen clashes with something chosen that the ranking puts no lower.
\<close>

lemma select_dominates:
  "sorted_wrt R xs \<Longrightarrow> reflp R \<Longrightarrow> x \<in> set xs \<Longrightarrow>
     \<exists>y\<in>set (select xs). (y = x \<or> clash y x) \<and> R y x"
proof (induction "length xs" arbitrary: xs rule: less_induct)
  case less
  obtain z zs where xs: "xs = z # zs" using less.prems(3) by (cases xs) auto
  let ?zs = "filter (\<lambda>y. \<not> clash z y) zs"
  have len: "length ?zs < length xs" using xs by (simp add: le_imp_less_Suc)
  have R: "R z x" if "x \<in> set zs" using less.prems(1) xs that by simp
  have "sorted_wrt R ?zs" using less.prems(1) xs by (simp add: sorted_wrt_filter)
  note IH = less.hyps [OF len this less.prems(2)]
  show ?case
  proof (cases "x = z \<or> clash z x")
    case True
    with R less.prems(2,3) xs show ?thesis by (auto simp: select_Cons reflpD)
  next
    case False
    with less.prems(3) xs have "x \<in> set ?zs" by auto
    with IH xs show ?thesis by (auto simp: select_Cons)
  qed
qed

lemma select_hd: "xs \<noteq> [] \<Longrightarrow> hd xs \<in> set (select xs)"
  by (cases xs) (auto simp: select_Cons)

end

text \<open>The arbs the code's loop leaves in \<open>arbs_without_overlap\<close>, nothing for no arbs.\<close>

definition chosen_arbs :: "'p lp_cycle list \<Rightarrow> 'p lp_cycle list" where
  "chosen_arbs arbs = (case arbs_without_overlap arbs [] of Inr chosen \<Rightarrow> chosen | Inl _ \<Rightarrow> [])"

lemma set_set_add [simp]: "set (set_add x xs) = insert x (set xs)"
  by (auto simp: set_add_def)

lemma set_fold_set_add: "set (fold set_add xs ys) = set xs \<union> set ys"
  by (induction xs arbitrary: ys) auto

lemma distinct_fold_set_add: "distinct ys \<Longrightarrow> distinct (fold set_add xs ys)"
  by (induction xs arbitrary: ys) (auto simp: set_add_def)

lemma chosen_arbs_eq: "chosen_arbs arbs = fold set_add (greedy_pick overlaps arbs) []"
  by (cases arbs) (simp_all add: chosen_arbs_def arbs_without_overlap_pick)

lemma overlaps_sym: "overlaps a b = overlaps b a"
  by (auto simp: overlaps_def)

interpretation overlap: greedy_choice overlaps chosen_arbs
  by unfold_locales
    (auto simp: overlaps_sym chosen_arbs_eq set_fold_set_add distinct_fold_set_add)

lemma arbs_without_overlap_chosen:
  "arbs \<noteq> [] \<Longrightarrow> arbs_without_overlap arbs [] = Inr (chosen_arbs arbs)"
  by (simp add: chosen_arbs_eq arbs_without_overlap_pick)

end
