(* ===== verification/Arbitrage_Report.thy ===== *)
theory Arbitrage_Report
  imports Arbitrage_Choice
begin

text \<open>
  What \<open>process_onchain_arbs\<close> reports: which results, for which arbs, and when it raises. The
  properties rest on the contract of the greedy choice and on \<open>arbs_keyed\<close>, which loading
  establishes.
\<close>

definition cycle_of :: "(json, 'p arb_details) dict \<Rightarrow> calc_result \<Rightarrow> 'p lp_cycle" where
  "cycle_of arbs r = lp_cycle (the (map_of arbs (result_id r)))"

text \<open>Iterating over a set visits each of its elements once, in some order.\<close>

definition iter_ok :: "('a list \<Rightarrow> 'a list) \<Rightarrow> bool" where
  "iter_ok iter \<longleftrightarrow> (\<forall>xs. distinct xs \<longrightarrow> distinct (iter xs) \<and> set (iter xs) = set xs)"

section \<open>Ranking\<close>

lemma set_profitable_results [simp]:
  "set (profitable_results results) = {r \<in> set results. 0 \<le> profit_amount r}"
  by (auto simp: profitable_results_def)

lemma profitable_results_sorted:
  "sorted_wrt (\<lambda>a b. profit_amount b \<le> profit_amount a) (profitable_results results)"
proof -
  have "sorted (map (\<lambda>r. - profit_amount r) (profitable_results results))"
    by (simp add: profitable_results_def)
  then show ?thesis by (simp add: sorted_wrt_map)
qed

lemma profitable_arbs_simps:
  "profitable_arbs arbs [] = []"
  "profitable_arbs arbs (r # rs) = (case map_of arbs (result_id r) of
     None \<Rightarrow> profitable_arbs arbs rs | Some d \<Rightarrow> lp_cycle d # profitable_arbs arbs rs)"
  by (simp_all add: profitable_arbs_def List.map_filter_simps split: option.split)

lemma profitable_arbs_known:
  "(\<forall>r\<in>set rs. map_of arbs (result_id r) \<noteq> None) \<Longrightarrow> profitable_arbs arbs rs = map (cycle_of arbs) rs"
  by (induction rs) (auto simp: profitable_arbs_simps cycle_of_def)

lemma profitable_arbs_length_le: "length (profitable_arbs arbs rs) \<le> length rs"
  by (induction rs) (auto simp: profitable_arbs_simps split: option.split)

lemma profitable_arbs_length_iff:
  "length rs = length (profitable_arbs arbs rs) \<longleftrightarrow> (\<forall>r\<in>set rs. map_of arbs (result_id r) \<noteq> None)"
proof (induction rs)
  case (Cons r rs)
  then show ?case
    using profitable_arbs_length_le [of arbs rs]
    by (auto simp: profitable_arbs_simps split: option.splits)
qed (simp add: profitable_arbs_simps)

section \<open>Reports of the chosen arbs\<close>

definition unknown_result :: "(json, 'p arb_details) dict \<Rightarrow> calc_result list \<Rightarrow> bool" where
  "unknown_result arbs results \<longleftrightarrow>
     (\<exists>r\<in>set results. 0 \<le> profit_amount r \<and> map_of arbs (result_id r) = None)"

definition report_for ::
  "(json, 'p arb_details) dict \<Rightarrow> calc_result list \<Rightarrow> 'p lp_cycle \<Rightarrow> 'p report \<Rightarrow> bool" where
  "report_for arbs results h rep \<longleftrightarrow>
     (\<exists>d r. rep = (Some d, r) \<and> map_of arbs (result_id r) = Some d \<and> lp_cycle d = h \<and>
            result_id r = arb_id h \<and> r \<in> set results \<and> 0 \<le> profit_amount r)"

lemma result_lookup:
  assumes keyed: "arbs_keyed arbs" and known: "\<not> unknown_result arbs results"
    and h: "h \<in> set (map (cycle_of arbs) (profitable_results results))"
  defines "ranked \<equiv> profitable_results results"
  shows "\<exists>r. map_of (results_by_arb_id (zip ranked (map (cycle_of arbs) ranked))) (arb_id h) = Some r \<and>
             report_for arbs results h (map_of arbs (result_id r), r)"
proof -
  let ?pairs = "zip ranked (map (cycle_of arbs) ranked)"
  have known': "\<exists>d. map_of arbs (result_id r) = Some d \<and> cycle_of arbs r = lp_cycle d \<and>
      arb_id (lp_cycle d) = result_id r" if "r \<in> set ranked" for r
    using that known keyed
    by (cases "map_of arbs (result_id r)")
      (auto simp: ranked_def unknown_result_def cycle_of_def dest: arbs_keyedD)
  have pair: "r \<in> set ranked \<and> h' = cycle_of arbs r" if "(r, h') \<in> set ?pairs" for r h'
    using that by (auto simp: zip_map2 set_zip)
  from h have "arb_id h \<in> (\<lambda>(r, arb). arb_id arb) ` set ?pairs"
    by (force simp: ranked_def zip_map2 zip_same_conv_map)
  from dict_fill_ex [OF this, of fst "[]"] obtain p where p: "p \<in> set ?pairs"
    "(\<lambda>(r, arb). arb_id arb) p = arb_id h"
    "map_of (results_by_arb_id ?pairs) (arb_id h) = Some (fst p)"
    unfolding results_by_arb_id_def by blast
  obtain r h' where r: "p = (r, h')" by (cases p)
  with p pair have "r \<in> set ranked" and "arb_id (cycle_of arbs r) = arb_id h" by auto
  with known' obtain d where d: "map_of arbs (result_id r) = Some d" "result_id r = arb_id h"
    by fastforce
  from h known' obtain d' where "map_of arbs (arb_id h) = Some d'" "h = lp_cycle d'"
    by (fastforce simp: ranked_def)
  with d p(3) r \<open>r \<in> set ranked\<close> show ?thesis
    by (auto simp: report_for_def ranked_def)
qed

lemma report_arbs_char:
  assumes "arbs_keyed arbs" and "\<not> unknown_result arbs results"
    and "set hs \<subseteq> set (map (cycle_of arbs) (profitable_results results))"
  defines "ranked \<equiv> profitable_results results"
  shows "\<exists>reports. report_arbs arbs (results_by_arb_id (zip ranked (map (cycle_of arbs) ranked))) hs = Inr reports
           \<and> list_all2 (report_for arbs results) hs reports"
  using assms(3)
proof (induction hs)
  case Nil
  then show ?case by (simp add: report_arbs_def)
next
  case (Cons h hs)
  then obtain reports where IH: "report_arbs arbs
      (results_by_arb_id (zip ranked (map (cycle_of arbs) ranked))) hs = Inr reports"
    "list_all2 (report_for arbs results) hs reports" by auto
  from Cons.prems have "h \<in> set (map (cycle_of arbs) (profitable_results results))" by auto
  from result_lookup [OF assms(1,2) this] IH show ?case
    unfolding ranked_def by (auto simp: report_arbs_def dict_index_def)
qed

lemma rank_and_report_cases:
  assumes keyed: "arbs_keyed arbs" and iter: "iter_ok iter"
  shows "if unknown_result arbs results then rank_and_report iter arbs results = Inl ValueError
         else \<exists>reports. rank_and_report iter arbs results = Inr reports \<and>
                list_all2 (report_for arbs results)
                  (if profitable_results results = [] then []
                   else iter (chosen_arbs (map (cycle_of arbs) (profitable_results results)))) reports"
proof (cases "unknown_result arbs results")
  case True
  then have "length (profitable_results results) \<noteq> length (profitable_arbs arbs (profitable_results results))"
    by (auto simp: profitable_arbs_length_iff unknown_result_def)
  with True show ?thesis by (simp add: rank_and_report_def zip_strict_def Let_def)
next
  case False
  let ?ranked = "profitable_results results"
  let ?found = "map (cycle_of arbs) ?ranked"
  from False have "\<forall>r\<in>set ?ranked. map_of arbs (result_id r) \<noteq> None"
    by (auto simp: unknown_result_def)
  then have found: "profitable_arbs arbs ?ranked = ?found" by (rule profitable_arbs_known)
  have zip: "zip_strict ?ranked ?found = Inr (zip ?ranked ?found)" by (simp add: zip_strict_def)
  have "set (iter (chosen_arbs ?found)) \<subseteq> set ?found"
    using iter overlap.select_subset [of ?found] overlap.select_distinct [of ?found]
    by (simp add: iter_ok_def del: set_map)
  from report_arbs_char [OF keyed False this] False found zip show ?thesis
    by (auto simp: rank_and_report_def Let_def arbs_without_overlap_chosen)
qed

section \<open>Reports of the evaluation\<close>

lemma process_onchain_reports:
  assumes "arbs_keyed arbs" and "iter_ok (set_iter ops)"
    and "calculation_results ops helpers = Inr results"
    and "process_onchain_arbs ops arbs helpers = Inr reports" and "helpers \<noteq> []"
  defines "found \<equiv> map (cycle_of arbs) (profitable_results results)"
  obtains hs where "distinct hs" and "set hs = set (chosen_arbs found)"
    and "list_all2 (report_for arbs results) hs reports" and "\<not> unknown_result arbs results"
proof -
  from assms(3-5) have rr: "rank_and_report (set_iter ops) arbs results = Inr reports"
    by (simp add: process_onchain_arbs_def)
  with rank_and_report_cases [OF assms(1,2), of results]
  have known: "\<not> unknown_result arbs results" by (auto split: if_splits)
  show thesis
  proof (cases "profitable_results results = []")
    case True
    with rank_and_report_cases [OF assms(1,2), of results] rr known have "reports = []" by auto
    with True known show thesis
      by (intro that [of "[]"]) (simp_all add: found_def overlap.select_Nil)
  next
    case False
    with rank_and_report_cases [OF assms(1,2), of results] rr known
    have "list_all2 (report_for arbs results) (set_iter ops (chosen_arbs found)) reports"
      by (auto simp: found_def)
    moreover have "distinct (set_iter ops (chosen_arbs found))"
      "set (set_iter ops (chosen_arbs found)) = set (chosen_arbs found)"
      using assms(2) overlap.select_distinct by (auto simp: iter_ok_def)
    ultimately show thesis using known by (intro that)
  qed
qed

lemma reports_pairwise:
  assumes "distinct hs" and "set hs = set (chosen_arbs found)" and "list_all2 (report_for arbs results) hs reports"
    and "i < length reports" and "j < length reports" and "i \<noteq> j"
  shows "\<exists>d e. fst (reports ! i) = Some d \<and> fst (reports ! j) = Some e \<and>
           set (swap_pools (lp_cycle d)) \<inter> set (swap_pools (lp_cycle e)) = {}"
proof -
  have len: "i < length hs" "j < length hs" using assms(3-5) by (auto simp: list_all2_lengthD)
  then have "\<not> overlaps (hs ! i) (hs ! j)"
    using assms(1,2,6) by (metis nth_eq_iff_index_eq nth_mem overlap.select_independent)
  moreover have "report_for arbs results (hs ! i) (reports ! i)"
    "report_for arbs results (hs ! j) (reports ! j)"
    using assms(3) len by (auto simp: list_all2_nthD)
  ultimately show ?thesis by (auto simp: report_for_def overlaps_def)
qed

section \<open>Properties\<close>

text \<open>
  A small instance for the witnesses: three arbs over numbered pools, where the middle one
  overlaps both others and has the best profit, and a fourth that overlaps none.
\<close>

definition demo_cycle :: "json \<Rightarrow> nat list \<Rightarrow> nat lp_cycle" where
  "demo_cycle i ps = \<lparr>arb_id = i, input_token = ''weth'', swap_pools = ps, max_input = 10\<rparr>"

definition demo_arbs :: "(json, nat arb_details) dict" where
  "demo_arbs = map (\<lambda>c. (arb_id c, \<lparr>lp_cycle = c, status = ''load''\<rparr>))
     [demo_cycle (JStr ''a'') [1, 2], demo_cycle (JStr ''b'') [2, 3], demo_cycle (JStr ''c'') [3, 4], demo_cycle (JStr ''d'') [5, 6]]"

definition demo_profit :: "json \<Rightarrow> int" where
  "demo_profit i = (if i = (JStr ''a'') then 5 else if i = (JStr ''b'') then 9 else if i = (JStr ''c'') then 2 else 0)"

definition demo_ops :: "(nat, nat lp_cycle) calc_ops" where
  "demo_ops = \<lparr>calculate = Inr,
     await_result = (\<lambda>c. Inr \<lparr>result_id = arb_id c, profit_amount = demo_profit (arb_id c)\<rparr>),
     as_completed = rev, set_iter = (\<lambda>cs. cs)\<rparr>"

definition demo_helpers :: "nat lp_cycle list" where
  "demo_helpers = map (\<lambda>(_, d). lp_cycle d) demo_arbs"

definition demo_results :: "calc_result list" where
  "demo_results = map (\<lambda>i. \<lparr>result_id = i, profit_amount = demo_profit i\<rparr>) [(JStr ''d''), (JStr ''c''), (JStr ''b''), (JStr ''a'')]"

definition demo_reports :: "nat report list" where
  "demo_reports = map (\<lambda>i. (map_of demo_arbs i, \<lparr>result_id = i, profit_amount = demo_profit i\<rparr>)) [(JStr ''b''), (JStr ''d'')]"

lemmas demo_defs = demo_cycle_def demo_arbs_def demo_profit_def demo_ops_def demo_helpers_def
  demo_results_def demo_reports_def

lemma demo_keyed: "arbs_keyed demo_arbs"
  by (simp add: demo_defs arbs_keyed_def)

lemma demo_iter: "iter_ok (set_iter demo_ops)"
  by (simp add: demo_defs iter_ok_def)

lemma demo_calculation: "calculation_results demo_ops demo_helpers = Inr demo_results"
  by code_simp

lemma demo_process: "process_onchain_arbs demo_ops demo_arbs demo_helpers = Inr demo_reports"
  by code_simp

lemma demo_helpers_nonempty: "demo_helpers \<noteq> []"
  by (simp add: demo_defs)

text \<open>
  C4: Two different reports of one evaluation are for arbs that have no pool in common.
\<close>

theorem onchain_reports_disjoint:
  assumes "arbs_keyed arbs" and "iter_ok (set_iter ops)"
    and "process_onchain_arbs ops arbs helpers = Inr reports"
    and "i < length reports" and "j < length reports" and "i \<noteq> j"
  shows "\<exists>d e. fst (reports ! i) = Some d \<and> fst (reports ! j) = Some e \<and>
           set (swap_pools (lp_cycle d)) \<inter> set (swap_pools (lp_cycle e)) = {}"
proof -
  from assms(3,4) have "helpers \<noteq> []" by (auto simp: process_onchain_arbs_def)
  with assms(3) obtain results where "calculation_results ops helpers = Inr results"
    by (auto simp: process_onchain_arbs_def res_bind_Inr_iff)
  from process_onchain_reports [OF assms(1,2) this assms(3) \<open>helpers \<noteq> []\<close>]
  obtain hs where hs: "distinct hs"
    "set hs = set (chosen_arbs (map (cycle_of arbs) (profitable_results results)))"
    "list_all2 (report_for arbs results) hs reports" .
  then show ?thesis using assms(4-6) by (rule reports_pairwise)
qed

theorem onchain_reports_disjoint_witness:
  "\<exists>d e. fst (demo_reports ! 0) = Some d \<and> fst (demo_reports ! 1) = Some e \<and>
     set (swap_pools (lp_cycle d)) \<inter> set (swap_pools (lp_cycle e)) = {}"
  by (rule onchain_reports_disjoint [OF demo_keyed demo_iter demo_process]) (simp_all add: demo_reports_def)

text \<open>
  C10: Nothing profitable is lost for nothing: every result with a non-negative profit is
  itself reported, or its arb shares a pool with a reported arb of at least the same profit.
\<close>

theorem onchain_reports_dominate:
  assumes "arbs_keyed arbs" and "iter_ok (set_iter ops)"
    and "calculation_results ops helpers = Inr results" and "distinct (map result_id results)"
    and "process_onchain_arbs ops arbs helpers = Inr reports" and "helpers \<noteq> []"
    and "r \<in> set results" and "0 \<le> profit_amount r"
  shows "\<exists>d r'. (Some d, r') \<in> set reports \<and> profit_amount r \<le> profit_amount r' \<and>
           (r' = r \<or> (\<exists>e. map_of arbs (result_id r) = Some e \<and>
              set (swap_pools (lp_cycle d)) \<inter> set (swap_pools (lp_cycle e)) \<noteq> {}))"
proof -
  let ?ranked = "profitable_results results"
  let ?found = "map (cycle_of arbs) ?ranked"
  let ?prof = "\<lambda>h. profit_amount (the (find (\<lambda>r. result_id r = arb_id h) results))"
  from process_onchain_reports [OF assms(1,2,3,5,6)]
  obtain hs where hs: "set hs = set (chosen_arbs ?found)" "list_all2 (report_for arbs results) hs reports"
    and known: "\<not> unknown_result arbs results" .
  have uniq: "find (\<lambda>r. result_id r = result_id x) results = Some x" if "x \<in> set results" for x
    using that assms(4) by (induction results) (auto simp: rev_image_eqI)
  have cyc: "arb_id (cycle_of arbs x) = result_id x" if "x \<in> set ?ranked" for x
    using that known assms(1)
    by (cases "map_of arbs (result_id x)") (auto simp: unknown_result_def cycle_of_def dest: arbs_keyedD)
  have prof: "?prof (cycle_of arbs x) = profit_amount x" if "x \<in> set ?ranked" for x
    using that cyc [OF that] by (simp add: uniq)
  have sorted: "sorted_wrt (\<lambda>a b. ?prof b \<le> ?prof a) ?found"
    unfolding sorted_wrt_map
    by (rule sorted_wrt_mono_rel [OF _ profitable_results_sorted]) (simp only: prof)
  have refl: "reflp (\<lambda>a b. ?prof b \<le> ?prof a)" by (simp add: reflp_def)
  have r: "r \<in> set ?ranked" using assms(7,8) by simp
  then have "cycle_of arbs r \<in> set ?found" by simp
  from overlap.select_dominates [OF sorted refl this] hs(1)
  obtain y where y: "y \<in> set hs" "y = cycle_of arbs r \<or> overlaps y (cycle_of arbs r)"
    "?prof (cycle_of arbs r) \<le> ?prof y" by blast
  then obtain rep where "rep \<in> set reports" "report_for arbs results y rep"
    using hs(2) by (metis in_set_conv_nth list_all2_conv_all_nth)
  then obtain d r' where d: "(Some d, r') \<in> set reports" "lp_cycle d = y"
    "result_id r' = arb_id y" "r' \<in> set results" by (auto simp: report_for_def)
  have "?prof y = profit_amount r'" using uniq [OF d(4)] d(3) by simp
  moreover have "r' = r" if "y = cycle_of arbs r"
    using uniq [OF d(4)] uniq [OF assms(7)] cyc [OF r] d(3) that by simp
  moreover obtain e where "map_of arbs (result_id r) = Some e" "cycle_of arbs r = lp_cycle e"
    using known assms(7,8) by (fastforce simp: unknown_result_def cycle_of_def)
  ultimately show ?thesis using d y prof [OF r] by (auto simp: overlaps_def)
qed

theorem onchain_reports_dominate_witness:
  "\<exists>d r'. (Some d, r') \<in> set demo_reports \<and> 5 \<le> profit_amount r' \<and>
     (r' = \<lparr>result_id = (JStr ''a''), profit_amount = 5\<rparr> \<or> (\<exists>e. map_of demo_arbs (JStr ''a'') = Some e \<and>
        set (swap_pools (lp_cycle d)) \<inter> set (swap_pools (lp_cycle e)) \<noteq> {}))"
  using onchain_reports_dominate [OF demo_keyed demo_iter demo_calculation _ demo_process
      demo_helpers_nonempty, of "\<lparr>result_id = (JStr ''a''), profit_amount = 5\<rparr>"]
  by (simp add: demo_results_def demo_profit_def)

text \<open>
  Every report carries a result of the calculation with a non-negative profit, together
  with the stored details of the arb of that id.
\<close>

theorem onchain_reports_sound:
  assumes "arbs_keyed arbs" and "iter_ok (set_iter ops)"
    and "calculation_results ops helpers = Inr results"
    and "process_onchain_arbs ops arbs helpers = Inr reports" and "(od, r) \<in> set reports"
  shows "r \<in> set results \<and> 0 \<le> profit_amount r \<and>
         (\<exists>d. od = Some d \<and> map_of arbs (result_id r) = Some d \<and> arb_id (lp_cycle d) = result_id r)"
proof -
  from assms(4,5) have "helpers \<noteq> []" by (auto simp: process_onchain_arbs_def)
  from process_onchain_reports [OF assms(1-4) this]
  obtain hs where "list_all2 (report_for arbs results) hs reports" .
  with assms(5) obtain h where "report_for arbs results h (od, r)"
    by (metis in_set_conv_nth list_all2_conv_all_nth)
  then show ?thesis by (auto simp: report_for_def)
qed

theorem onchain_reports_sound_witness:
  "let r = \<lparr>result_id = (JStr ''b''), profit_amount = 9\<rparr> in
   r \<in> set demo_results \<and> 0 \<le> profit_amount r \<and>
   (\<exists>d. map_of demo_arbs (JStr ''b'') = Some d \<and> map_of demo_arbs (result_id r) = Some d \<and>
        arb_id (lp_cycle d) = result_id r)"
  using onchain_reports_sound [OF demo_keyed demo_iter demo_calculation demo_process,
      of "map_of demo_arbs (JStr ''b'')" "\<lparr>result_id = (JStr ''b''), profit_amount = 9\<rparr>"]
  by (simp add: demo_reports_def demo_profit_def)

text \<open>
  C26: Once the calculations are done, the evaluation raises exactly when a non-negative
  result has an id that is not stored, and then it is the \<open>ValueError\<close> of the strict zip:
  neither \<open>pop(0)\<close> nor \<open>remove\<close> nor the lookup of a chosen arb's result can fail.
\<close>

theorem onchain_errors:
  assumes "arbs_keyed arbs" and "iter_ok (set_iter ops)"
    and "calculation_results ops helpers = Inr results" and "helpers \<noteq> []"
  shows "process_onchain_arbs ops arbs helpers = Inl e \<longleftrightarrow>
           e = ValueError \<and> (\<exists>r\<in>set results. 0 \<le> profit_amount r \<and> result_id r \<notin> fst ` set arbs)"
proof -
  have "process_onchain_arbs ops arbs helpers = rank_and_report (set_iter ops) arbs results"
    using assms(3,4) by (simp add: process_onchain_arbs_def)
  moreover have "unknown_result arbs results \<longleftrightarrow>
      (\<exists>r\<in>set results. 0 \<le> profit_amount r \<and> result_id r \<notin> fst ` set arbs)"
    by (simp add: unknown_result_def map_of_eq_None_iff)
  ultimately show ?thesis
    using rank_and_report_cases [OF assms(1,2), of results] by (auto split: if_splits)
qed

theorem onchain_errors_witness:
  "process_onchain_arbs demo_ops (take 3 demo_arbs) demo_helpers = Inl ValueError"
  using onchain_errors [of "take 3 demo_arbs", OF _ demo_iter demo_calculation demo_helpers_nonempty,
      of ValueError]
  by (simp add: demo_defs arbs_keyed_def)

text \<open>
  C25: On a non-empty ranked list the loop that pops the most profitable arb and removes the
  conflicting ones one by one never raises. What it returns is the greedy choice (keep the
  first, filter what overlaps it, go on with the rest); it holds no arb twice and only arbs of
  the list, two different ones share no pool, and it is maximal in the order of the ranking:
  every arb of the list is chosen or comes after a chosen one that shares a pool with it.
\<close>

theorem overlap_loop_refines_greedy:
  assumes "arbs \<noteq> []"
  shows "\<exists>chosen. arbs_without_overlap arbs [] = Inr chosen \<and>
     chosen = fold set_add (greedy_pick overlaps arbs) [] \<and> distinct chosen \<and> set chosen \<subseteq> set arbs \<and>
     (\<forall>x\<in>set chosen. \<forall>y\<in>set chosen. x \<noteq> y \<longrightarrow> set (swap_pools x) \<inter> set (swap_pools y) = {}) \<and>
     (\<forall>x\<in>set arbs. x \<in> set chosen \<or>
        (\<exists>i j. i < j \<and> j < length arbs \<and> arbs ! j = x \<and> arbs ! i \<in> set chosen \<and>
           set (swap_pools (arbs ! i)) \<inter> set (swap_pools x) \<noteq> {}))"
proof -
  let ?before = "\<lambda>y x. y = x \<or> (\<exists>i j. i < j \<and> j < length arbs \<and> arbs ! i = y \<and> arbs ! j = x)"
  have sorted: "sorted_wrt ?before arbs" by (auto simp: sorted_wrt_iff_nth_less)
  have refl: "reflp ?before" by (simp add: reflp_def)
  have "x \<in> set (chosen_arbs arbs) \<or> (\<exists>i j. i < j \<and> j < length arbs \<and> arbs ! j = x \<and>
      arbs ! i \<in> set (chosen_arbs arbs) \<and> set (swap_pools (arbs ! i)) \<inter> set (swap_pools x) \<noteq> {})"
    if "x \<in> set arbs" for x
    using overlap.select_dominates [OF sorted refl that] by (fastforce simp: overlaps_def)
  moreover have "set (swap_pools x) \<inter> set (swap_pools y) = {}"
    if "x \<in> set (chosen_arbs arbs)" "y \<in> set (chosen_arbs arbs)" "x \<noteq> y" for x y
    using overlap.select_independent [OF that] by (simp add: overlaps_def)
  ultimately show ?thesis
    using assms overlap.select_subset [of arbs] overlap.select_distinct [of arbs]
    by (intro exI [of _ "chosen_arbs arbs"]) (simp add: arbs_without_overlap_chosen chosen_arbs_eq)
qed

theorem overlap_loop_refines_greedy_witness:
  "\<exists>chosen. arbs_without_overlap [demo_cycle JNull [2, 3], demo_cycle JNull [1, 2]] [] = Inr chosen \<and>
     distinct chosen \<and> demo_cycle JNull [2, 3] \<in> set chosen"
proof -
  have "[demo_cycle JNull [2, 3], demo_cycle JNull [1, 2]] \<noteq> []" by simp
  from overlap_loop_refines_greedy [OF this] show ?thesis by auto
qed

text \<open>
  The docstring of \<open>find_affected_arbs\<close> promises every cycle the pool is part of, but a cycle of
  three pools is passed over for its outer pools.
\<close>

lemma outer_pools_unnoticed:
  assumes "map_of arbs k = Some d" and "swap_pools (lp_cycle d) = [p, q, r]" and "addr q \<noteq> addr p"
  shows "lp_cycle d \<notin> set (find_affected_arbs addr arbs (addr p))"
  using assms by (auto simp: find_affected_arbs_def)

end
