(* ===== verification/Arbitrage_Backrun.thy ===== *)
theory Arbitrage_Backrun
  imports Arbitrage_Report
begin

text \<open>
  \<open>ArbitrageService.process_backrun_arbs\<close> (app/core/arbitrage_service.py): the evaluation of arbs
  against the state a pending transaction would leave. It repeats the steps of
  \<open>process_onchain_arbs\<close> with an override for the calculation, and reads the arbs from
  \<open>self.app_state\<close>, which no method sets.
\<close>

text \<open>
  \<open>app_arbs\<close> is \<open>self.app_state.all_arbs\<close>, \<open>None\<close> while the attribute is missing; \<open>get_raw\<close> is
  \<open>w3.eth.get_raw_transaction\<close>; the operations of the calculation take the override. The result
  lists the arbs for which the execution is logged, with their details and results.
\<close>

definition process_backrun_arbs ::
  "('o \<Rightarrow> ('p, 'f) calc_ops) \<Rightarrow> (json, 'p arb_details) dict option \<Rightarrow> (json \<Rightarrow> 'raw res) \<Rightarrow>
     'p lp_cycle list \<Rightarrow> 'o \<Rightarrow> json \<Rightarrow> 'p report list res" where
  "process_backrun_arbs ops app_arbs get_raw helpers override_state pending_transaction =
     (case app_arbs of
        None \<Rightarrow> Inl AttributeError
      | Some arbs \<Rightarrow>
          res_bind (json_key pending_transaction ''hash'') (\<lambda>transaction_hash.
          case get_raw transaction_hash of
            Inl e \<Rightarrow> if e = TransactionNotFound then Inr [] else Inl e
          | Inr raw_transaction \<Rightarrow>
              if length helpers = 0 then Inr []
              else res_bind (calculation_results (ops override_state) helpers)
                     (rank_and_report (set_iter (ops override_state)) arbs)))"

lemma backrun_unset: "process_backrun_arbs ops None get_raw helpers override_state tx = Inl AttributeError"
  by (simp add: process_backrun_arbs_def)

lemma backrun_found:
  assumes "json_key tx ''hash'' = Inr h" and "get_raw h = Inr raw"
  shows "process_backrun_arbs ops (Some arbs) get_raw helpers override_state tx =
           process_onchain_arbs (ops override_state) arbs helpers"
  using assms by (simp add: process_backrun_arbs_def process_onchain_arbs_def)

lemma backrun_not_found:
  assumes "json_key tx ''hash'' = Inr h" and "get_raw h = Inl e"
  shows "process_backrun_arbs ops (Some arbs) get_raw helpers override_state tx =
           (if e = TransactionNotFound then Inr [] else Inl e)"
  using assms by (simp add: process_backrun_arbs_def)

end
