(* ===== verification/Anvil_Service.thy ===== *)
theory Anvil_Service
  imports Bot_State
begin

text \<open>
  \<open>AnvilService.anvil_fork\<close> (app/core/anvil_service.py): a pending transaction is sent to a local
  fork of the chain, and its receipt says whether it succeeded there. Fork and node are
  parameters.
\<close>

text \<open>
  \<open>make_fork\<close> is \<open>AnvilFork(...)\<close> with the url, the block, the chain and the base fee;
  \<open>send_raw\<close> and \<open>wait_receipt\<close> are the two calls of its node.
\<close>

record 'f fork_ops =
  make_fork :: "json \<Rightarrow> json \<Rightarrow> json \<Rightarrow> json \<Rightarrow> 'f res"
  send_raw :: "json \<Rightarrow> 'f \<Rightarrow> json res \<times> 'f"
  wait_receipt :: "json \<Rightarrow> 'f \<Rightarrow> json res \<times> 'f"

text \<open>\<open>v == n\<close> for a number that JSON carries as an integer or a truth value.\<close>

definition equals_int :: "json \<Rightarrow> int \<Rightarrow> bool" where
  "equals_int v n \<longleftrightarrow> (case v of JInt m \<Rightarrow> m = n | JBool b \<Rightarrow> of_bool b = n | _ \<Rightarrow> False)"

text \<open>
  The variable \<open>transaction_receipt\<close> after the \<open>try\<close>: unbound when there was no transaction or one
  of the calls raised, which is logged.
\<close>

definition fork_receipt :: "'f fork_ops \<Rightarrow> json \<Rightarrow> 'f \<Rightarrow> json option res" where
  "fork_receipt ops transaction fork =
     (if \<not> truthy transaction then Inr None
      else case fst (act_bind (send_raw ops transaction) (wait_receipt ops) fork) of
             Inl e \<Rightarrow> if is_Exception e then Inr None else Inl e
           | Inr receipt \<Rightarrow> Inr (Some receipt))"

definition anvil_fork ::
  "'f fork_ops \<Rightarrow> ('p, 'm, 'w) bot_state \<Rightarrow> json \<Rightarrow> json \<Rightarrow> json \<Rightarrow> (bool list \<times> json list) res" where
  "anvil_fork ops st base_fee_next state_block transaction =
     res_bind (get_attr ''http_uri'' st) (\<lambda>http_uri.
     res_bind (get_attr ''chain_id'' st) (\<lambda>chain_id.
     res_bind (make_fork ops http_uri state_block chain_id base_fee_next) (\<lambda>fork.
     res_bind (fork_receipt ops transaction fork) (\<lambda>bound.
     case bound of
       None \<Rightarrow> Inl UnboundLocalError
     | Some transaction_receipt \<Rightarrow>
         res_bind (json_key transaction_receipt ''status'') (\<lambda>status.
           Inr ([equals_int status 1], [transaction_receipt]))))))"

text \<open>
  C39: The simulation returns exactly when the transaction was sent to the fork and its receipt,
  with a status, was received; it reports success exactly for the status 1. A transaction that
  is missing, refused or not mined in time never yields a result: it ends in an exception.
\<close>

theorem anvil_fork_returns_iff:
  "anvil_fork ops st base_fee_next state_block transaction = Inr (success, receipts) \<longleftrightarrow>
     (\<exists>uri chain_id fork h fork' receipt fork'' status.
        get_attr ''http_uri'' st = Inr uri \<and> get_attr ''chain_id'' st = Inr chain_id \<and>
        make_fork ops uri state_block chain_id base_fee_next = Inr fork \<and> truthy transaction \<and>
        send_raw ops transaction fork = (Inr h, fork') \<and> wait_receipt ops h fork' = (Inr receipt, fork'') \<and>
        json_key receipt ''status'' = Inr status \<and> success = [equals_int status 1] \<and> receipts = [receipt])"
proof -
  have receipt: "fork_receipt ops transaction fork = Inr (Some receipt) \<longleftrightarrow> truthy transaction \<and>
      (\<exists>h fork' fork''. send_raw ops transaction fork = (Inr h, fork') \<and> wait_receipt ops h fork' = (Inr receipt, fork''))"
    for fork receipt
  proof -
    obtain r fork' where s: "send_raw ops transaction fork = (r, fork')" by fastforce
    have ex: "fst q = r \<longleftrightarrow> (\<exists>fork''. q = (r, fork''))" for q and r :: "json res" by (cases q) auto
    show ?thesis
      by (cases r) (auto simp: fork_receipt_def act_bind_def s ex split: sum.splits if_splits)
  qed
  have bound: "(case b of None \<Rightarrow> Inl UnboundLocalError | Some x \<Rightarrow> f x) = Inr y \<longleftrightarrow> (\<exists>x. b = Some x \<and> f x = Inr y)"
    for b :: "json option" and f and y :: "bool list \<times> json list"
    by (cases b) auto
  have ex: "(\<exists>x. A x \<and> (\<exists>y. x = Some y \<and> P y)) \<longleftrightarrow> (\<exists>y. A (Some y) \<and> P y)" for A and P :: "json \<Rightarrow> bool"
    by auto
  show ?thesis
    unfolding anvil_fork_def res_bind_Inr_iff bound ex receipt by auto
qed

lemma anvil_fork_unbound:
  assumes "get_attr ''http_uri'' st = Inr uri" and "get_attr ''chain_id'' st = Inr chain_id"
    and "make_fork ops uri state_block chain_id base_fee_next = Inr fork" and "\<not> truthy transaction"
  shows "anvil_fork ops st base_fee_next state_block transaction = Inl UnboundLocalError"
  using assms by (simp add: anvil_fork_def fork_receipt_def)

end
