(* ===== verification/Arbs_2Pool.thy ===== *)
theory Arbs_2Pool
  imports Builder_Files
begin

text \<open>
  The builder of two-pool arbitrage paths (builders/arbs_2pool.py): it reads the pool files of
  the chain, indexes the pools by token, and writes one entry for every ordered pair of pools
  through which the wrapped token goes out and comes back.
\<close>

section \<open>Files\<close>

text \<open>\<open>{key: value for key, value in pool.items() if key != "pool_id"}\<close>\<close>

definition without_pool_id :: "json \<Rightarrow> json res" where
  "without_pool_id pool =
     res_bind (json_items pool) (\<lambda>kvs. Inr (JObj (filter (\<lambda>(k, v). k \<noteq> ''pool_id'') kvs)))"

fun add_lp_data :: "json list \<Rightarrow> (json, json) dict \<Rightarrow> (json, json) dict res" where
  "add_lp_data [] d = Inr d"
| "add_lp_data (pool # pools) d =
     res_bind (without_pool_id pool) (\<lambda>p. res_bind (json_get pool ''pool_address'') (\<lambda>a.
       if hashable a then add_lp_data pools (AList.update a p d) else Inl TypeError))"

fun read_lp_data ::
  "json_codec \<Rightarrow> file_system \<Rightarrow> path list \<Rightarrow> (json, json) dict \<Rightarrow> (json, json) dict res" where
  "read_lp_data c fs [] d = Inr d"
| "read_lp_data c fs (p # ps) d =
     res_bind (res_bind (read_json c fs p) json_iter) (\<lambda>pools.
     res_bind (add_lp_data pools d) (read_lp_data c fs ps))"

definition lp_files :: "path \<Rightarrow> string \<Rightarrow> string \<Rightarrow> json \<Rightarrow> path list res" where
  "lp_files root chain_name version version_factories =
     res_bind (json_items version_factories) (\<lambda>kvs.
       Inr (map (\<lambda>kv. chain_file root chain_name (''_'' @ fst kv @ version)) kvs))"

section \<open>Pools by token\<close>

text \<open>\<open>if k not in d: d[k] = []\<close> and \<open>d[k].append(p)\<close>\<close>

definition ensure_list :: "json \<Rightarrow> (json, json list) dict \<Rightarrow> (json, json list) dict" where
  "ensure_list k d = (if map_of d k = None then AList.update k [] d else d)"

definition append_to :: "json \<Rightarrow> json \<Rightarrow> (json, json list) dict \<Rightarrow> (json, json list) dict res" where
  "append_to k p d = res_bind (dict_index d k) (\<lambda>xs. Inr (AList.update k (xs @ [p]) d))"

fun index_pools :: "json list \<Rightarrow> (json, json list) dict \<Rightarrow> (json, json list) dict res" where
  "index_pools [] d = Inr d"
| "index_pools (pool # pools) d =
     res_bind (json_key pool ''token0'') (\<lambda>token0. res_bind (json_key pool ''token1'') (\<lambda>token1.
     if \<not> hashable token0 \<or> \<not> hashable token1 then Inl TypeError
     else res_bind (append_to token0 pool (ensure_list token1 (ensure_list token0 d))) (\<lambda>d1.
          res_bind (append_to token1 pool d1) (index_pools pools))))"

definition pools_of :: "(json, json list) dict \<Rightarrow> json \<Rightarrow> json list res" where
  "pools_of index token =
     res_bind (dict_get index token) (\<lambda>v. Inr (case v of None \<Rightarrow> [] | Some xs \<Rightarrow> xs))"

section \<open>Paths\<close>

text \<open>\<open>v[2:]\<close> of an address that is then joined into a string.\<close>

fun address_digits :: "json \<Rightarrow> string res" where
  "address_digits (JStr s) = Inr (drop 2 s)"
| "address_digits _ = Inl TypeError"

text \<open>\<open>keccak\<close> is \<open>w3.keccak(hexstr=...).hex()\<close>.\<close>

definition path_id :: "(string \<Rightarrow> string res) \<Rightarrow> json list \<Rightarrow> string res" where
  "path_id keccak pools =
     res_bind (res_map (\<lambda>p. res_bind (json_get p ''pool_address'') address_digits) pools)
       (\<lambda>digits. keccak (concat digits))"

fun json_string :: "json \<Rightarrow> string res" where
  "json_string (JStr s) = Inr s"
| "json_string _ = Inl TypeError"

text \<open>
  The entry of a path. The keys of \<open>pools\<close> are the addresses: \<open>path_id\<close> has already made sure
  that they are strings; equal addresses share one key.
\<close>

definition path_entry :: "string \<Rightarrow> json list \<Rightarrow> json res" where
  "path_entry id_hash pools =
     res_bind (res_map (\<lambda>p. json_get p ''pool_address'') pools) (\<lambda>addresses.
     res_bind (res_map json_string addresses) (\<lambda>keys.
       Inr (JObj [(''id'', JStr id_hash),
         (''pools'', JObj (dict_fill fst snd (zip keys pools) [])),
         (''arb_types'', JList [JStr ''cycle'']),
         (''path'', JList addresses)])))"

definition has_start :: "json \<Rightarrow> json \<Rightarrow> bool res" where
  "has_start start_token pool =
     res_bind (json_key pool ''token0'') (\<lambda>t0.
       if t0 = start_token then Inr True
       else res_bind (json_key pool ''token1'') (\<lambda>t1. Inr (t1 = start_token)))"

fun second_pools ::
  "(string \<Rightarrow> string res) \<Rightarrow> json \<Rightarrow> json \<Rightarrow> json list \<Rightarrow> (string, json) dict \<Rightarrow> (string, json) dict res" where
  "second_pools keccak start_token pool_a [] d = Inr d"
| "second_pools keccak start_token pool_a (pool_b # bs) d =
     res_bind (has_start start_token pool_b) (\<lambda>connects.
     if \<not> connects then second_pools keccak start_token pool_a bs d
     else res_bind (json_key pool_b ''pool_address'') (\<lambda>b. res_bind (json_key pool_a ''pool_address'') (\<lambda>a.
          if b = a then second_pools keccak start_token pool_a bs d
          else res_bind (path_id keccak [pool_a, pool_b]) (\<lambda>id_hash.
               res_bind (path_entry id_hash [pool_a, pool_b]) (\<lambda>entry.
                 second_pools keccak start_token pool_a bs (AList.update id_hash entry d))))))"

fun first_pools ::
  "(string \<Rightarrow> string res) \<Rightarrow> json \<Rightarrow> (json, json list) dict \<Rightarrow> json list \<Rightarrow> (string, json) dict \<Rightarrow>
     (string, json) dict res" where
  "first_pools keccak start_token index [] d = Inr d"
| "first_pools keccak start_token index (pool_a # as) d =
     res_bind (has_start start_token pool_a) (\<lambda>contains.
     if \<not> contains then first_pools keccak start_token index as d
     else res_bind (json_key pool_a ''token0'') (\<lambda>t0.
          res_bind (if t0 = start_token then json_key pool_a ''token1'' else json_key pool_a ''token0'') (\<lambda>other_token.
          res_bind (pools_of index other_token) (\<lambda>bs.
          res_bind (second_pools keccak start_token pool_a bs d)
            (first_pools keccak start_token index as)))))"

definition two_pool_arb_paths ::
  "(string \<Rightarrow> string res) \<Rightarrow> json \<Rightarrow> json list \<Rightarrow> (string, json) dict res" where
  "two_pool_arb_paths keccak start_token pools =
     res_bind (index_pools pools []) (\<lambda>index.
     res_bind (pools_of index start_token) (\<lambda>as. first_pools keccak start_token index as []))"

text \<open>
  One chain of the outer loop, for a chain whose node is reachable: the paths file is written
  only when all paths were found.
\<close>

definition build_chain ::
  "(string \<Rightarrow> string res) \<Rightarrow> json_codec \<Rightarrow> path \<Rightarrow> string \<Rightarrow> json \<Rightarrow> (file_system, unit) act" where
  "build_chain keccak c root chain_name chain =
     act_bind (act_lift (json_get chain ''wrapped_token'')) (\<lambda>wrapped_token.
     act_bind (act_lift (res_bind (json_get chain ''factories'') (\<lambda>f. json_get f ''v2''))) (\<lambda>v2_factories.
     act_bind (act_lift (res_bind (json_get chain ''factories'') (\<lambda>f. json_get f ''v3''))) (\<lambda>v3_factories.
     act_bind (mkdir (builder_dir root @ [chain_name])) (\<lambda>_.
     act_bind (act_lift (lp_files root chain_name ''_v2.json'' v2_factories)) (\<lambda>files2.
     act_bind (\<lambda>fs. (read_lp_data c fs files2 [], fs)) (\<lambda>v2_lp_data.
     act_bind (act_lift (lp_files root chain_name ''_v3.json'' v3_factories)) (\<lambda>files3.
     act_bind (\<lambda>fs. (read_lp_data c fs files3 [], fs)) (\<lambda>v3_lp_data.
     act_bind (act_lift (two_pool_arb_paths keccak wrapped_token (map snd (merge_dicts v2_lp_data v3_lp_data)))) (\<lambda>paths.
     write_json c (chain_file root chain_name ''_arb_paths_2.json'') (JObj paths))))))))))"

definition build_two_pool_arbs ::
  "(string \<Rightarrow> string res) \<Rightarrow> json_codec \<Rightarrow> path \<Rightarrow> (string, json) dict \<Rightarrow> string option \<Rightarrow> (file_system, unit) act" where
  "build_two_pool_arbs keccak c root = for_chains root (build_chain keccak c root)"

end
