(* ===== verification/Arbs_3Pool.thy ===== *)
theory Arbs_3Pool
  imports Arbs_2Pool
begin

text \<open>
  The builder of three-pool arbitrage paths (builders/arbs_3pool.py): it enters the pools as
  edges between their tokens into a multigraph, and writes two entries for every triangle of
  pools through the wrapped token, one for each direction. The multigraph of networkx is a
  parameter; the files are read as by the two-pool builder.
\<close>

section \<open>The graph\<close>

text \<open>The attributes of an edge.\<close>

record pool_edge =
  lp_address :: json
  pool_type :: string

text \<open>
  \<open>add_edge u v e g\<close> is \<open>G.add_edge(u, v, **e)\<close>, \<open>neighbors\<close> is \<open>list(G.neighbors(t))\<close>, \<open>has_edge\<close> is
  \<open>(u, v) in G.edges()\<close>, and \<open>edge_data\<close> the list of values of \<open>G.get_edge_data(u, v)\<close>.
\<close>

record 'g graph_ops =
  empty_graph :: 'g
  add_edge :: "json \<Rightarrow> json \<Rightarrow> pool_edge \<Rightarrow> 'g \<Rightarrow> 'g res"
  neighbors :: "json \<Rightarrow> 'g \<Rightarrow> json list res"
  degree :: "json \<Rightarrow> 'g \<Rightarrow> nat"
  has_edge :: "json \<Rightarrow> json \<Rightarrow> 'g \<Rightarrow> bool"
  edge_data :: "json \<Rightarrow> json \<Rightarrow> 'g \<Rightarrow> pool_edge list res"

text \<open>The tokens are collected into a set that is never used; it needs them hashable.\<close>

definition all_tokens :: "json list \<Rightarrow> json list \<Rightarrow> json set res" where
  "all_tokens v2 v3 =
     res_bind (res_map (\<lambda>lp. json_get lp ''token0'') v2) (\<lambda>a. res_bind (res_map (\<lambda>lp. json_get lp ''token1'') v2) (\<lambda>b.
     res_bind (res_map (\<lambda>lp. json_get lp ''token0'') v3) (\<lambda>c. res_bind (res_map (\<lambda>lp. json_get lp ''token1'') v3) (\<lambda>d.
       let ts = a @ b @ c @ d in if list_all hashable ts then Inr (set ts) else Inl TypeError))))"

fun add_edges :: "'g graph_ops \<Rightarrow> string \<Rightarrow> json list \<Rightarrow> 'g \<Rightarrow> 'g res" where
  "add_edges ops ty [] g = Inr g"
| "add_edges ops ty (pool # pools) g =
     res_bind (json_get pool ''token0'') (\<lambda>t0. res_bind (json_get pool ''token1'') (\<lambda>t1.
     res_bind (json_get pool ''pool_address'') (\<lambda>a.
     res_bind (add_edge ops t0 t1 \<lparr>lp_address = a, pool_type = ty\<rparr> g) (add_edges ops ty pools))))"

section \<open>Paths\<close>

text \<open>\<open>itertools.combinations(xs, 2)\<close>\<close>

fun combinations2 :: "'a list \<Rightarrow> ('a \<times> 'a) list" where
  "combinations2 [] = []"
| "combinations2 (x # xs) = map (Pair x) xs @ combinations2 xs"

definition pool_dict :: "(json, json) dict \<Rightarrow> (json, json) dict \<Rightarrow> pool_edge \<Rightarrow> json res" where
  "pool_dict v2_lp_data v3_lp_data edge =
     res_bind
       (if pool_type edge = ''UniswapV2'' then dict_get v2_lp_data (lp_address edge)
        else if pool_type edge = ''UniswapV3'' then dict_get v3_lp_data (lp_address edge)
        else Inl (OtherError ''Exception''))
       (\<lambda>v. Inr (case v of None \<Rightarrow> JNull | Some p \<Rightarrow> p))"

text \<open>One assignment to \<open>three_pool_arb_paths\<close>, for three edges with the data of their pools.\<close>

definition add_path ::
  "(string \<Rightarrow> string res) \<Rightarrow> (json \<times> json) list \<Rightarrow> (string, json) dict \<Rightarrow> (string, json) dict res" where
  "add_path keccak pools d =
     res_bind (res_map (\<lambda>(a, _). address_digits a) pools) (\<lambda>digits.
     res_bind (keccak (concat digits)) (\<lambda>id_hash.
     res_bind (res_map (\<lambda>(a, _). json_string a) pools) (\<lambda>keys.
       Inr (AList.update id_hash (JObj [(''id'', JStr id_hash),
         (''pools'', JObj (dict_fill fst snd (zip keys (map snd pools)) [])),
         (''arb_types'', JList [JStr ''cycle'', JStr ''flash_borrow_lp_swap'']),
         (''path'', JList (map fst pools))]) d))))"

fun add_triples ::
  "(string \<Rightarrow> string res) \<Rightarrow> (pool_edge \<Rightarrow> json res) \<Rightarrow> (pool_edge \<times> pool_edge \<times> pool_edge) list \<Rightarrow>
     (string, json) dict \<Rightarrow> (string, json) dict res" where
  "add_triples keccak data [] d = Inr d"
| "add_triples keccak data ((pool_a, pool_b, pool_c) # ts) d =
     res_bind (data pool_a) (\<lambda>a. res_bind (data pool_b) (\<lambda>b. res_bind (data pool_c) (\<lambda>c.
     res_bind (add_path keccak [(lp_address pool_a, a), (lp_address pool_b, b), (lp_address pool_c, c)] d) (\<lambda>d1.
     res_bind (add_path keccak [(lp_address pool_c, c), (lp_address pool_b, b), (lp_address pool_a, a)] d1)
       (add_triples keccak data ts)))))"

fun add_pairs ::
  "'g graph_ops \<Rightarrow> (string \<Rightarrow> string res) \<Rightarrow> (pool_edge \<Rightarrow> json res) \<Rightarrow> json \<Rightarrow> 'g \<Rightarrow> (json \<times> json) list \<Rightarrow>
     (string, json) dict \<Rightarrow> (string, json) dict res" where
  "add_pairs ops keccak data wrapped_token g [] d = Inr d"
| "add_pairs ops keccak data wrapped_token g ((token_a, token_b) # ps) d =
     (if \<not> has_edge ops token_a token_b g then add_pairs ops keccak data wrapped_token g ps d
      else res_bind (edge_data ops token_a wrapped_token g) (\<lambda>outside_a.
           res_bind (edge_data ops token_a token_b g) (\<lambda>inside.
           res_bind (edge_data ops token_b wrapped_token g) (\<lambda>outside_b.
           res_bind (add_triples keccak data (List.product outside_a (List.product inside outside_b)) d)
             (add_pairs ops keccak data wrapped_token g ps)))))"

definition three_pool_arb_paths ::
  "'g graph_ops \<Rightarrow> (string \<Rightarrow> string res) \<Rightarrow> json \<Rightarrow> (json, json) dict \<Rightarrow> (json, json) dict \<Rightarrow> (string, json) dict res" where
  "three_pool_arb_paths ops keccak wrapped_token v2_lp_data v3_lp_data =
     res_bind (all_tokens (map snd v2_lp_data) (map snd v3_lp_data)) (\<lambda>_.
     res_bind (add_edges ops ''UniswapV2'' (map snd v2_lp_data) (empty_graph ops)) (\<lambda>g2.
     res_bind (add_edges ops ''UniswapV3'' (map snd v3_lp_data) g2) (\<lambda>g.
     res_bind (neighbors ops wrapped_token g) (\<lambda>all_tokens_with_weth_pool.
     let filtered_tokens = filter (\<lambda>token. 1 < degree ops token g) all_tokens_with_weth_pool in
     add_pairs ops keccak (pool_dict v2_lp_data v3_lp_data) wrapped_token g (combinations2 filtered_tokens) []))))"

section \<open>The script\<close>

definition build_chain_3 ::
  "'g graph_ops \<Rightarrow> (string \<Rightarrow> string res) \<Rightarrow> json_codec \<Rightarrow> path \<Rightarrow> string \<Rightarrow> json \<Rightarrow> (file_system, unit) act" where
  "build_chain_3 ops keccak c root chain_name chain =
     act_bind (act_lift (json_get chain ''wrapped_token'')) (\<lambda>wrapped_token.
     act_bind (act_lift (res_bind (json_get chain ''factories'') (\<lambda>f. json_get f ''v2''))) (\<lambda>v2_factories.
     act_bind (act_lift (res_bind (json_get chain ''factories'') (\<lambda>f. json_get f ''v3''))) (\<lambda>v3_factories.
     act_bind (mkdir (builder_dir root @ [chain_name])) (\<lambda>_.
     act_bind (act_lift (lp_files root chain_name ''_v2.json'' v2_factories)) (\<lambda>files2.
     act_bind (\<lambda>fs. (read_lp_data c fs files2 [], fs)) (\<lambda>v2_lp_data.
     act_bind (act_lift (lp_files root chain_name ''_v3.json'' v3_factories)) (\<lambda>files3.
     act_bind (\<lambda>fs. (read_lp_data c fs files3 [], fs)) (\<lambda>v3_lp_data.
     act_bind (act_lift (three_pool_arb_paths ops keccak wrapped_token v2_lp_data v3_lp_data)) (\<lambda>paths.
     write_json c (chain_file root chain_name ''_arb_paths_3.json'') (JObj paths))))))))))"

definition build_three_pool_arbs ::
  "'g graph_ops \<Rightarrow> (string \<Rightarrow> string res) \<Rightarrow> json_codec \<Rightarrow> path \<Rightarrow> (string, json) dict \<Rightarrow> string option \<Rightarrow>
     (file_system, unit) act" where
  "build_three_pool_arbs ops keccak c root = for_chains root (build_chain_3 ops keccak c root)"

end
