(* ===== verification/Arbs_2Pool_Properties.thy ===== *)
theory Arbs_2Pool_Properties
  imports Arbs_2Pool
begin

text \<open>
  The nested loops over the token index find exactly the pairs of a plain comprehension over
  all pools, and with distinct ids every such pair has its entry.
\<close>

section \<open>Well-formed pools\<close>

definition field :: "string \<Rightarrow> json \<Rightarrow> json" where
  "field k p = (case json_key p k of Inr v \<Rightarrow> v | Inl _ \<Rightarrow> JNull)"

text \<open>An object with an address and two different tokens, as the pool fetchers write them.\<close>

definition lp_ok :: "json \<Rightarrow> bool" where
  "lp_ok p \<longleftrightarrow> (\<exists>kvs a t0 t1. p = JObj kvs \<and> map_of kvs ''pool_address'' = Some (JStr a) \<and>
     map_of kvs ''token0'' = Some (JStr t0) \<and> map_of kvs ''token1'' = Some (JStr t1) \<and> t0 \<noteq> t1)"

lemma lp_okD:
  assumes "lp_ok p"
  shows "json_key p ''token0'' = Inr (field ''token0'' p)" "json_key p ''token1'' = Inr (field ''token1'' p)"
    "json_key p ''pool_address'' = Inr (field ''pool_address'' p)"
    "json_get p ''pool_address'' = Inr (field ''pool_address'' p)"
    "hashable (field ''token0'' p)" "hashable (field ''token1'' p)" "field ''token0'' p \<noteq> field ''token1'' p"
    "\<exists>s. field ''pool_address'' p = JStr s"
  using assms by (auto simp: lp_ok_def field_def dict_index_def)

definition touches :: "json \<Rightarrow> json \<Rightarrow> bool" where
  "touches p t \<longleftrightarrow> field ''token0'' p = t \<or> field ''token1'' p = t"

definition other_token :: "json \<Rightarrow> json \<Rightarrow> json" where
  "other_token start p = (if field ''token0'' p = start then field ''token1'' p else field ''token0'' p)"

lemma has_start_ok: "lp_ok p \<Longrightarrow> has_start t p = Inr (touches p t)"
  by (simp add: has_start_def lp_okD touches_def)

section \<open>The index\<close>

definition listed :: "(json, json list) dict \<Rightarrow> json \<Rightarrow> json list" where
  "listed d t = (case map_of d t of None \<Rightarrow> [] | Some xs \<Rightarrow> xs)"

lemma listed_ensure [simp]: "listed (ensure_list k d) = listed d"
  by (auto simp: fun_eq_iff listed_def ensure_list_def update_conv split: option.split)

lemma ensure_list_known: "map_of (ensure_list k d) k' \<noteq> None \<longleftrightarrow> k' = k \<or> map_of d k' \<noteq> None"
  by (auto simp: ensure_list_def update_conv)

lemma append_to_ok: "map_of d k \<noteq> None \<Longrightarrow> append_to k p d = Inr (AList.update k (listed d k @ [p]) d)"
  by (auto simp: append_to_def dict_index_def listed_def)

lemma listed_update: "listed (AList.update k xs d) t = (if t = k then xs else listed d t)"
  by (simp add: listed_def update_conv)

lemma index_pools_ok:
  assumes "\<forall>p\<in>set ps. lp_ok p"
  shows "\<exists>index. index_pools ps d = Inr index \<and> (\<forall>t. listed index t = listed d t @ filter (\<lambda>p. touches p t) ps)"
  using assms
proof (induction ps arbitrary: d)
  case (Cons p ps)
  let ?t0 = "field ''token0'' p" and ?t1 = "field ''token1'' p"
  let ?d = "ensure_list ?t1 (ensure_list ?t0 d)"
  have p: "lp_ok p" using Cons.prems by simp
  have "map_of ?d ?t0 \<noteq> None" and "map_of ?d ?t1 \<noteq> None" unfolding ensure_list_known by simp_all
  define d1 where "d1 = AList.update ?t0 (listed ?d ?t0 @ [p]) ?d"
  define d2 where "d2 = AList.update ?t1 (listed d1 ?t1 @ [p]) d1"
  have 1: "append_to ?t0 p ?d = Inr d1"
    unfolding d1_def by (rule append_to_ok [OF \<open>map_of ?d ?t0 \<noteq> None\<close>])
  have "map_of d1 ?t1 \<noteq> None" using \<open>map_of ?d ?t1 \<noteq> None\<close> by (simp add: d1_def update_conv)
  then have 2: "append_to ?t1 p d1 = Inr d2" unfolding d2_def by (rule append_to_ok)
  have l1: "listed d1 t = listed d t @ (if t = ?t0 then [p] else [])" for t
    by (simp add: d1_def listed_update)
  have l2: "listed d2 t = listed d1 t @ (if t = ?t1 then [p] else [])" for t
    by (simp add: d2_def listed_update)
  have d2: "listed d2 t = listed d t @ (if touches p t then [p] else [])" for t
    using lp_okD(7) [OF p] by (auto simp: l1 l2 touches_def)
  from Cons.IH [of d2] Cons.prems obtain index where index: "index_pools ps d2 = Inr index"
    "\<forall>t. listed index t = listed d2 t @ filter (\<lambda>p. touches p t) ps" by auto
  have "index_pools (p # ps) d = Inr index"
    using index(1) 1 2 p by (simp add: lp_okD)
  with index(2) d2 show ?case by auto
qed simp

lemma pools_of_listed: "hashable t \<Longrightarrow> pools_of index t = Inr (listed index t)"
  by (simp add: pools_of_def dict_get_def listed_def)

section \<open>The loops\<close>

definition the_id :: "(string \<Rightarrow> string res) \<Rightarrow> json \<times> json \<Rightarrow> string" where
  "the_id keccak = (\<lambda>(a, b). case path_id keccak [a, b] of Inr h \<Rightarrow> h | Inl _ \<Rightarrow> [])"

text \<open>The entry of a pair, spelled out.\<close>

definition the_entry :: "(string \<Rightarrow> string res) \<Rightarrow> json \<times> json \<Rightarrow> json" where
  "the_entry keccak = (\<lambda>(a, b). JObj [(''id'', JStr (the_id keccak (a, b))),
     (''pools'', JObj [(case field ''pool_address'' a of JStr s \<Rightarrow> s | _ \<Rightarrow> [], a),
                       (case field ''pool_address'' b of JStr s \<Rightarrow> s | _ \<Rightarrow> [], b)]),
     (''arb_types'', JList [JStr ''cycle'']),
     (''path'', JList [field ''pool_address'' a, field ''pool_address'' b])])"

definition hashes_paths :: "(string \<Rightarrow> string res) \<Rightarrow> json list \<Rightarrow> bool" where
  "hashes_paths keccak ps \<longleftrightarrow> (\<forall>a\<in>set ps. \<forall>b\<in>set ps. \<exists>h. path_id keccak [a, b] = Inr h)"

text \<open>All candidate pairs, by a comprehension over all pools.\<close>

definition connects :: "json \<Rightarrow> json \<Rightarrow> json \<Rightarrow> bool" where
  "connects start a b \<longleftrightarrow> touches a start \<and> touches b (other_token start a) \<and> touches b start \<and>
     field ''pool_address'' b \<noteq> field ''pool_address'' a"

definition pool_pairs :: "json \<Rightarrow> json list \<Rightarrow> (json \<times> json) list" where
  "pool_pairs start ps = concat (map (\<lambda>a. map (Pair a) (filter (connects start a) ps)) ps)"

lemma set_pool_pairs: "set (pool_pairs start ps) = {(a, b). a \<in> set ps \<and> b \<in> set ps \<and> connects start a b}"
  by (auto simp: pool_pairs_def)

lemma path_entry_ok:
  assumes "lp_ok a" and "lp_ok b" and "field ''pool_address'' b \<noteq> field ''pool_address'' a"
    and "path_id keccak [a, b] = Inr h"
  shows "path_entry h [a, b] = Inr (the_entry keccak (a, b))"
proof -
  obtain s r where s: "field ''pool_address'' a = JStr s" and r: "field ''pool_address'' b = JStr r"
    using lp_okD(8) assms(1,2) by blast
  with assms show ?thesis
    by (simp add: path_entry_def the_entry_def the_id_def lp_okD)
qed

lemma second_pools_ok:
  assumes "\<forall>b\<in>set bs. lp_ok b" and "lp_ok a" and "\<forall>b\<in>set bs. \<exists>h. path_id keccak [a, b] = Inr h"
  shows "second_pools keccak start a bs d = Inr (dict_fill (the_id keccak) (the_entry keccak)
     (map (Pair a) (filter (\<lambda>b. touches b start \<and> field ''pool_address'' b \<noteq> field ''pool_address'' a) bs)) d)"
  using assms
proof (induction bs arbitrary: d)
  case (Cons b bs)
  then obtain h where h: "path_id keccak [a, b] = Inr h" and b: "lp_ok b" by auto
  have id: "the_id keccak (a, b) = h" using h by (simp add: the_id_def)
  show ?case
  proof (cases "touches b start \<and> field ''pool_address'' b \<noteq> field ''pool_address'' a")
    case True
    with Cons b h id show ?thesis by (simp add: has_start_ok lp_okD path_entry_ok)
  next
    case False
    with Cons b show ?thesis by (auto simp: has_start_ok lp_okD)
  qed
qed simp

lemma first_pools_ok:
  assumes "\<forall>a\<in>set as. lp_ok a \<and> touches a start" and "\<forall>b\<in>set ps. lp_ok b" and "set as \<subseteq> set ps"
    and "hashes_paths keccak ps" and "\<forall>t. listed index t = filter (\<lambda>p. touches p t) ps"
  shows "first_pools keccak start index as d = Inr (dict_fill (the_id keccak) (the_entry keccak)
     (concat (map (\<lambda>a. map (Pair a) (filter (connects start a) ps)) as)) d)"
  using assms(1,3)
proof (induction as arbitrary: d)
  case (Cons a as)
  have a: "lp_ok a" "touches a start" "a \<in> set ps" using Cons.prems by auto
  let ?o = "other_token start a"
  have "hashable ?o" using a(1) by (simp add: other_token_def lp_okD)
  then have bs: "pools_of index ?o = Inr (filter (\<lambda>p. touches p ?o) ps)"
    by (simp add: pools_of_listed assms(5))
  have "\<forall>b\<in>set (filter (\<lambda>p. touches p ?o) ps). \<exists>h. path_id keccak [a, b] = Inr h"
    using a(3) assms(4) by (auto simp: hashes_paths_def)
  moreover have con: "filter (connects start a) ps =
      filter (\<lambda>b. touches b start \<and> field ''pool_address'' b \<noteq> field ''pool_address'' a) (filter (\<lambda>p. touches p ?o) ps)"
    using a(2) by (auto simp: connects_def intro: filter_cong)
  ultimately have second: "second_pools keccak start a (filter (\<lambda>p. touches p ?o) ps) d =
      Inr (dict_fill (the_id keccak) (the_entry keccak) (map (Pair a) (filter (connects start a) ps)) d)"
    using second_pools_ok [of "filter (\<lambda>p. touches p ?o) ps" a keccak start d] a(1) assms(2) con by simp
  have other: "(if field ''token0'' a = start then json_key a ''token1'' else json_key a ''token0'') = Inr ?o"
    using a(1) by (simp add: other_token_def lp_okD)
  from Cons a second bs other show ?case
    by (simp add: has_start_ok lp_okD dict_fill_append)
qed simp

lemma two_pool_arb_paths_ok:
  assumes "\<forall>p\<in>set ps. lp_ok p" and "hashable start" and "hashes_paths keccak ps"
  shows "two_pool_arb_paths keccak start ps =
    Inr (dict_fill (the_id keccak) (the_entry keccak) (pool_pairs start ps) [])"
proof -
  from index_pools_ok [OF assms(1), of "[]"] obtain index where index: "index_pools ps [] = Inr index"
    and l: "\<forall>t. listed index t = filter (\<lambda>p. touches p t) ps"
    by (auto simp: listed_def)
  have "pools_of index start = Inr (filter (\<lambda>p. touches p start) ps)"
    using pools_of_listed [OF assms(2)] l by simp
  moreover have "first_pools keccak start index (filter (\<lambda>p. touches p start) ps) [] =
      Inr (dict_fill (the_id keccak) (the_entry keccak)
        (concat (map (\<lambda>a. map (Pair a) (filter (connects start a) ps)) (filter (\<lambda>p. touches p start) ps))) [])"
    by (rule first_pools_ok) (use assms l in auto)
  moreover have "concat (map (\<lambda>a. map (Pair a) (filter (connects start a) ps)) (filter (\<lambda>p. touches p start) qs)) =
      concat (map (\<lambda>a. map (Pair a) (filter (connects start a) ps)) qs)" for qs
    by (induction qs) (auto simp: connects_def)
  ultimately show ?thesis using index by (simp add: two_pool_arb_paths_def pool_pairs_def)
qed

section \<open>A small chain\<close>

definition small_pool :: "string \<Rightarrow> string \<Rightarrow> string \<Rightarrow> json" where
  "small_pool a t0 t1 = JObj [(''pool_address'', JStr a), (''token0'', JStr t0), (''token1'', JStr t1)]"

definition small_pools :: "json list" where
  "small_pools = [small_pool ''0xp1'' ''W'' ''A'', small_pool ''0xp2'' ''A'' ''W'', small_pool ''0xp3'' ''A'' ''B'']"

definition small_keccak :: "string \<Rightarrow> string res" where
  "small_keccak s = Inr (CHR ''h'' # s)"

lemmas small_defs = small_pool_def small_pools_def small_keccak_def

lemma small_ok: "\<forall>p\<in>set small_pools. lp_ok p"
  by (simp add: small_defs lp_ok_def)

lemma small_hashes: "hashes_paths small_keccak small_pools"
  by (simp add: small_defs hashes_paths_def path_id_def)

section \<open>Properties\<close>

text \<open>
  With well-formed pools the loops over the token index insert exactly one entry for every
  ordered pair of different pools that share the wrapped token and the other token of the
  first, in the order of a comprehension over all pools, and never raise.
\<close>

theorem two_pool_paths_refine_pairs:
  assumes "\<forall>p\<in>set ps. lp_ok p" and "hashable start" and "hashes_paths keccak ps"
  shows "two_pool_arb_paths keccak start ps =
    Inr (dict_fill (the_id keccak) (the_entry keccak)
      [(a, b) \<leftarrow> List.product ps ps. touches a start \<and> touches b (other_token start a) \<and> touches b start \<and>
         field ''pool_address'' b \<noteq> field ''pool_address'' a] [])"
proof -
  have "filter (\<lambda>(a, b). connects start a b) (concat (map (\<lambda>a. map (Pair a) qs) rs)) =
      concat (map (\<lambda>a. map (Pair a) (filter (connects start a) qs)) rs)" for qs rs
    by (induction rs) (simp_all add: filter_map comp_def)
  from this [of ps ps] have "pool_pairs start ps = filter (\<lambda>(a, b). connects start a b) (List.product ps ps)"
    by (simp add: pool_pairs_def product_concat_map)
  with two_pool_arb_paths_ok [OF assms] show ?thesis by (simp add: connects_def)
qed

theorem two_pool_paths_refine_pairs_witness:
  "\<exists>paths. two_pool_arb_paths small_keccak (JStr ''W'') small_pools = Inr paths \<and> map fst paths = [''hp1p2'', ''hp2p1'']"
  using two_pool_paths_refine_pairs [OF small_ok _ small_hashes, of "JStr ''W''"]
  by (simp add: small_defs touches_def other_token_def field_def dict_index_def the_id_def path_id_def)

text \<open>
  C18: When different pairs have different ids, an id is in the result exactly when it is the id
  of such a pair, and its entry names the two pools: the path is their two different
  addresses, and the pool data are stored under them.
\<close>

theorem two_pool_paths_sound_complete:
  assumes "\<forall>p\<in>set ps. lp_ok p" and "hashable start" and "hashes_paths keccak ps"
    and "inj_on (the_id keccak) (set ps \<times> set ps)"
    and "two_pool_arb_paths keccak start ps = Inr paths"
  shows "map_of paths h = Some e \<longleftrightarrow> (\<exists>a\<in>set ps. \<exists>b\<in>set ps.
     touches a start \<and> touches b (other_token start a) \<and> touches b start \<and>
     field ''pool_address'' b \<noteq> field ''pool_address'' a \<and>
     path_id keccak [a, b] = Inr h \<and> e = the_entry keccak (a, b))"
proof -
  have paths: "paths = dict_fill (the_id keccak) (the_entry keccak) (pool_pairs start ps) []"
    using two_pool_arb_paths_ok [OF assms(1-3)] assms(5) by simp
  have id: "path_id keccak [a, b] = Inr h \<longleftrightarrow> the_id keccak (a, b) = h" if "a \<in> set ps" "b \<in> set ps" for a b h
    using assms(3) that by (force simp: hashes_paths_def the_id_def)
  have "map_of paths h = Some e \<longleftrightarrow> (\<exists>x\<in>set (pool_pairs start ps). the_id keccak x = h \<and> e = the_entry keccak x)"
    unfolding paths by (rule dict_fill_inj [OF assms(4)]) (auto simp: set_pool_pairs)
  also have "\<dots> \<longleftrightarrow> (\<exists>a\<in>set ps. \<exists>b\<in>set ps. connects start a b \<and> path_id keccak [a, b] = Inr h \<and> e = the_entry keccak (a, b))"
    unfolding set_pool_pairs using id by auto
  finally show ?thesis by (simp add: connects_def conj_assoc)
qed

theorem two_pool_paths_sound_complete_witness:
  "\<exists>paths e. two_pool_arb_paths small_keccak (JStr ''W'') small_pools = Inr paths \<and> map_of paths ''hp2p1'' = Some e"
proof -
  have inj: "inj_on (the_id small_keccak) (set small_pools \<times> set small_pools)"
    by (auto simp: inj_on_def small_defs the_id_def path_id_def)
  obtain paths where paths: "two_pool_arb_paths small_keccak (JStr ''W'') small_pools = Inr paths"
    using two_pool_arb_paths_ok [OF small_ok _ small_hashes] by fastforce
  have "map_of paths ''hp2p1'' = Some (the_entry small_keccak (small_pools ! 1, small_pools ! 0))"
    unfolding two_pool_paths_sound_complete [OF small_ok _ small_hashes inj paths, simplified]
    by (intro bexI [of _ "small_pools ! 1"] bexI [of _ "small_pools ! 0"])
      (simp_all add: small_defs touches_def other_token_def field_def dict_index_def path_id_def)
  with paths show ?thesis by blast
qed

end
