(* ===== verification/Arbs_3Pool_Properties.thy ===== *)
theory Arbs_3Pool_Properties
  imports Arbs_3Pool Arbs_2Pool_Properties
begin

text \<open>
  The triangles the builder finds: with a graph that behaves as documented, an entry for every
  ordered triple of pools that leads from the wrapped token over two different tokens and back,
  and no other. The documented behaviour is the locale \<open>pool_graph\<close>.
\<close>

section \<open>The multigraph\<close>

type_synonym graph_edge = "json \<times> json \<times> pool_edge"

fun joined :: "json \<Rightarrow> json \<Rightarrow> graph_edge \<Rightarrow> bool" where
  "joined s t (u, v, e) = ((u = s \<and> v = t) \<or> (u = t \<and> v = s))"

definition between :: "graph_edge list \<Rightarrow> json \<Rightarrow> json \<Rightarrow> pool_edge list" where
  "between es s t = map (\<lambda>(u, v, e). e) (filter (joined s t) es)"

definition ends_at :: "graph_edge list \<Rightarrow> json \<Rightarrow> nat" where
  "ends_at es t = length (filter (\<lambda>(u, v, e). u = t) es) + length (filter (\<lambda>(u, v, e). v = t) es)"

text \<open>
  \<open>edges g\<close> are the edges of \<open>g\<close> in the order in which they were added; nodes are hashable and not
  \<open>None\<close>. \<open>neighbors\<close> raises for a node the graph does not have.
\<close>

locale pool_graph =
  fixes ops :: "'g graph_ops"
    and edges :: "'g \<Rightarrow> graph_edge list"
  assumes edges_empty: "edges (empty_graph ops) = []"
    and edges_add: "hashable u \<Longrightarrow> u \<noteq> JNull \<Longrightarrow> hashable v \<Longrightarrow> v \<noteq> JNull \<Longrightarrow>
      \<exists>h. add_edge ops u v e g = Inr h \<and> edges h = edges g @ [(u, v, e)]"
    and neighbors_known: "ends_at (edges g) t \<noteq> 0 \<Longrightarrow>
      \<exists>ns. neighbors ops t g = Inr ns \<and> distinct ns \<and> set ns = {s. between (edges g) s t \<noteq> []}"
    and neighbors_unknown: "ends_at (edges g) t = 0 \<Longrightarrow> \<exists>e. neighbors ops t g = Inl e"
    and degree_ends: "degree ops t g = ends_at (edges g) t"
    and has_edge_between: "has_edge ops s t g \<longleftrightarrow> between (edges g) s t \<noteq> []"
    and edge_data_between: "between (edges g) s t \<noteq> [] \<Longrightarrow> edge_data ops s t g = Inr (between (edges g) s t)"

section \<open>Pools as edges\<close>

text \<open>A pool together with the type under which it is entered.\<close>

type_synonym typed_pool = "json \<times> string"

definition pool_edge_of :: "typed_pool \<Rightarrow> pool_edge" where
  "pool_edge_of = (\<lambda>(p, ty). \<lparr>lp_address = field ''pool_address'' p, pool_type = ty\<rparr>)"

definition edge_of :: "typed_pool \<Rightarrow> graph_edge" where
  "edge_of x = (field ''token0'' (fst x), field ''token1'' (fst x), pool_edge_of x)"

definition joins :: "json \<Rightarrow> json \<Rightarrow> typed_pool \<Rightarrow> bool" where
  "joins s t x \<longleftrightarrow> joined s t (edge_of x)"

lemma joins_sym: "joins s t x \<longleftrightarrow> joins t s x"
  by (auto simp: joins_def edge_of_def)

lemma between_pools: "between (map edge_of xs) s t = map pool_edge_of (filter (joins s t) xs)"
  by (induction xs) (auto simp: between_def joins_def edge_of_def)

lemma joins_different: "lp_ok (fst x) \<Longrightarrow> joins s t x \<Longrightarrow> s \<noteq> t"
  using lp_okD(7) [of "fst x"] by (auto simp: joins_def edge_of_def)

lemma ends_at_two:
  assumes "x \<in> set xs" and "y \<in> set xs" and "joins s t x" and "joins s u y" and "t \<noteq> u" and "lp_ok (fst x)"
  shows "1 < ends_at (map edge_of xs) s"
proof -
  have split: "ends_at (map edge_of xs) s = length (filter (\<lambda>x. field ''token0'' (fst x) = s) xs) +
      length (filter (\<lambda>x. field ''token1'' (fst x) = s) xs)" (is "_ = length ?f + length ?g")
    by (simp add: ends_at_def filter_map comp_def edge_of_def)
  have st: "s \<noteq> t" using joins_different [OF assms(6,3)] .
  have ne: "x \<noteq> y" using assms(3-5) st by (auto simp: joins_def edge_of_def)
  have "x \<in> set ?f \<or> x \<in> set ?g" "y \<in> set ?f \<or> y \<in> set ?g"
    using assms(1-4) by (auto simp: joins_def edge_of_def)
  then consider "x \<in> set ?f" "y \<in> set ?f" | "x \<in> set ?g" "y \<in> set ?g" | "?f \<noteq> []" "?g \<noteq> []" by fastforce
  then show ?thesis
  proof cases
    case 1
    then have "card {x, y} \<le> card (set ?f)" by (intro card_mono) auto
    with ne card_length [of ?f] split show ?thesis by simp
  next
    case 2
    then have "card {x, y} \<le> card (set ?g)" by (intro card_mono) auto
    with ne card_length [of ?g] split show ?thesis by simp
  next
    case 3
    then have "length ?f \<noteq> 0" "length ?g \<noteq> 0" by simp_all
    with split show ?thesis by linarith
  qed
qed

section \<open>The entries\<close>

type_synonym triple = "typed_pool \<times> typed_pool \<times> typed_pool"

definition address_of :: "typed_pool \<Rightarrow> string" where
  "address_of x = (case field ''pool_address'' (fst x) of JStr s \<Rightarrow> s | _ \<Rightarrow> [])"

definition triple_text :: "triple \<Rightarrow> string" where
  "triple_text = (\<lambda>(x, y, z). concat (map (\<lambda>p. drop 2 (address_of p)) [x, y, z]))"

definition triple_id :: "(string \<Rightarrow> string res) \<Rightarrow> triple \<Rightarrow> string" where
  "triple_id keccak t = (case keccak (triple_text t) of Inr h \<Rightarrow> h | Inl _ \<Rightarrow> [])"

definition triple_entry :: "(string \<Rightarrow> string res) \<Rightarrow> triple \<Rightarrow> json" where
  "triple_entry keccak = (\<lambda>(x, y, z). JObj [(''id'', JStr (triple_id keccak (x, y, z))),
     (''pools'', JObj (dict_fill fst snd [(address_of x, fst x), (address_of y, fst y), (address_of z, fst z)] [])),
     (''arb_types'', JList [JStr ''cycle'', JStr ''flash_borrow_lp_swap'']),
     (''path'', JList (map (\<lambda>p. JStr (address_of p)) [x, y, z]))])"

definition hashes_triples :: "(string \<Rightarrow> string res) \<Rightarrow> typed_pool set \<Rightarrow> bool" where
  "hashes_triples keccak P \<longleftrightarrow> (\<forall>t \<in> P \<times> P \<times> P. \<exists>h. keccak (triple_text t) = Inr h)"

lemma address_of_ok: "lp_ok (fst x) \<Longrightarrow> field ''pool_address'' (fst x) = JStr (address_of x)"
  using lp_okD(8) [of "fst x"] by (auto simp: address_of_def)

lemma pool_edge_address: "lp_ok (fst x) \<Longrightarrow> lp_address (pool_edge_of x) = JStr (address_of x)"
  by (cases x) (simp add: pool_edge_of_def flip: address_of_ok)

lemma add_path_ok:
  assumes "keccak (triple_text (x, y, z)) = Inr h"
  shows "add_path keccak [(JStr (address_of x), fst x), (JStr (address_of y), fst y), (JStr (address_of z), fst z)] d =
    Inr (AList.update (triple_id keccak (x, y, z)) (triple_entry keccak (x, y, z)) d)"
proof -
  have "triple_id keccak (x, y, z) = h" using assms by (simp add: triple_id_def)
  with assms show ?thesis by (simp add: add_path_def triple_text_def triple_entry_def)
qed

definition both_ways :: "triple list \<Rightarrow> triple list" where
  "both_ways ts = concat (map (\<lambda>(x, y, z). [(x, y, z), (z, y, x)]) ts)"

lemma both_ways_simps [simp]:
  "both_ways [] = []" "both_ways ((x, y, z) # ts) = (x, y, z) # (z, y, x) # both_ways ts"
  "both_ways (ts @ us) = both_ways ts @ both_ways us"
  by (simp_all add: both_ways_def)

lemma set_both_ways: "set (both_ways ts) = {(x, y, z). (x, y, z) \<in> set ts \<or> (z, y, x) \<in> set ts}"
  by (induction ts) auto

lemma add_triples_ok:
  assumes "\<forall>p\<in>P. lp_ok (fst p) \<and> data (pool_edge_of p) = Inr (fst p)" and "hashes_triples keccak P"
    and "set ts \<subseteq> P \<times> P \<times> P"
  shows "add_triples keccak data (map (\<lambda>(x, y, z). (pool_edge_of x, pool_edge_of y, pool_edge_of z)) ts) d =
    Inr (dict_fill (triple_id keccak) (triple_entry keccak) (both_ways ts) d)"
  using assms(3)
proof (induction ts arbitrary: d)
  case (Cons t ts)
  obtain x y z where t: "t = (x, y, z)" by (cases t)
  with Cons.prems have P: "x \<in> P" "y \<in> P" "z \<in> P" by auto
  with assms(2) obtain h k where "keccak (triple_text (x, y, z)) = Inr h" "keccak (triple_text (z, y, x)) = Inr k"
    by (fastforce simp: hashes_triples_def)
  note ok = add_path_ok [where keccak = keccak, OF this(1)] add_path_ok [where keccak = keccak, OF this(2)]
  from P assms(1) have "\<forall>p\<in>{x, y, z}. data (pool_edge_of p) = Inr (fst p) \<and> lp_address (pool_edge_of p) = JStr (address_of p)"
    by (auto simp: pool_edge_address)
  with Cons ok t show ?case by simp
qed simp

section \<open>The candidate triples\<close>

definition typed_pools :: "(json, json) dict \<Rightarrow> (json, json) dict \<Rightarrow> typed_pool list" where
  "typed_pools v2 v3 = map (\<lambda>p. (p, ''UniswapV2'')) (map snd v2) @ map (\<lambda>p. (p, ''UniswapV3'')) (map snd v3)"

text \<open>The dictionaries as reading the files builds them.\<close>

definition keyed_lps :: "(json, json) dict \<Rightarrow> bool" where
  "keyed_lps d \<longleftrightarrow> distinct (map fst d) \<and> (\<forall>(a, p)\<in>set d. lp_ok p \<and> a = field ''pool_address'' p)"

definition pair_triples :: "json \<Rightarrow> typed_pool list \<Rightarrow> json \<times> json \<Rightarrow> triple list" where
  "pair_triples w xs = (\<lambda>(s, t). List.product (filter (joins s w) xs)
     (List.product (filter (joins s t) xs) (filter (joins t w) xs)))"

text \<open>A triple of pools that leads from \<open>w\<close> over two different tokens back to \<open>w\<close>.\<close>

definition triangle :: "json \<Rightarrow> triple \<Rightarrow> bool" where
  "triangle w = (\<lambda>(x, y, z). \<exists>s t. s \<noteq> t \<and> joins w s x \<and> joins s t y \<and> joins t w z)"

lemma combinations2_set:
  "distinct xs \<Longrightarrow> s \<noteq> t \<Longrightarrow> s \<in> set xs \<Longrightarrow> t \<in> set xs \<Longrightarrow>
     (s, t) \<in> set (combinations2 xs) \<or> (t, s) \<in> set (combinations2 xs)"
  by (induction xs) auto

lemma combinations2_mem: "distinct xs \<Longrightarrow> (s, t) \<in> set (combinations2 xs) \<Longrightarrow> s \<noteq> t \<and> s \<in> set xs \<and> t \<in> set xs"
  by (induction xs) auto

lemma pair_triples_mem:
  "(x, y, z) \<in> set (pair_triples w xs (s, t)) \<longleftrightarrow>
     x \<in> set xs \<and> y \<in> set xs \<and> z \<in> set xs \<and> joins s w x \<and> joins s t y \<and> joins t w z"
  by (auto simp: pair_triples_def)

lemma pool_dict_keyed:
  assumes "keyed_lps v2" and "keyed_lps v3" and "x \<in> set (typed_pools v2 v3)"
  shows "lp_ok (fst x) \<and> pool_dict v2 v3 (pool_edge_of x) = Inr (fst x)"
proof -
  have one: "lp_ok p \<and> hashable (field ''pool_address'' p) \<and> map_of d (field ''pool_address'' p) = Some p"
    if d: "keyed_lps d" and p: "p \<in> snd ` set d" for d p
  proof -
    from p obtain a where a: "(a, p) \<in> set d" by auto
    with d have "lp_ok p" "a = field ''pool_address'' p" by (auto simp: keyed_lps_def)
    moreover have "map_of d a = Some p" using d a by (simp add: keyed_lps_def)
    ultimately show ?thesis using lp_okD(8) [of p] by auto
  qed
  from assms(3) consider p where "x = (p, ''UniswapV2'')" "p \<in> snd ` set v2"
    | p where "x = (p, ''UniswapV3'')" "p \<in> snd ` set v3" by (auto simp: typed_pools_def)
  then show ?thesis
    by cases (use one assms(1,2) in \<open>auto simp: pool_dict_def pool_edge_of_def dict_get_def\<close>)
qed

lemma tokens_hashable:
  assumes "\<forall>p\<in>set ps. lp_ok p" and "\<forall>p\<in>set qs. lp_ok p"
  shows "\<exists>ts. all_tokens ps qs = Inr ts"
proof -
  have "res_map (\<lambda>lp. json_get lp k) rs = Inr (map (field k) rs)"
    if "\<forall>p\<in>set rs. lp_ok p" "k = ''token0'' \<or> k = ''token1''" for k rs
    using that by (intro res_map_all_Inr) (auto simp: lp_ok_def field_def dict_index_def)
  then show ?thesis using assms by (auto simp: all_tokens_def list_all_iff lp_okD)
qed

context pool_graph
begin

lemma add_edges_ok:
  assumes "\<forall>p\<in>set ps. lp_ok p"
  shows "\<exists>h. add_edges ops ty ps g = Inr h \<and> edges h = edges g @ map edge_of (map (\<lambda>p. (p, ty)) ps)"
  using assms
proof (induction ps arbitrary: g)
  case (Cons p ps)
  then have p: "lp_ok p" by simp
  then have get: "json_get p ''token0'' = Inr (field ''token0'' p)" "json_get p ''token1'' = Inr (field ''token1'' p)"
    "field ''token0'' p \<noteq> JNull" "field ''token1'' p \<noteq> JNull"
    by (auto simp: lp_ok_def field_def dict_index_def)
  from edges_add [OF lp_okD(5) [OF p] get(3) lp_okD(6) [OF p] get(4)] obtain h where
    h: "add_edge ops (field ''token0'' p) (field ''token1'' p) (pool_edge_of (p, ty)) g = Inr h"
      "edges h = edges g @ [edge_of (p, ty)]" by (auto simp: edge_of_def)
  from Cons.IH [of h] Cons.prems obtain k where "add_edges ops ty ps h = Inr k"
    "edges k = edges h @ map edge_of (map (\<lambda>p. (p, ty)) ps)" by auto
  with get h p show ?case by (auto simp: lp_okD pool_edge_of_def)
qed simp

lemma add_pairs_ok:
  assumes g: "edges g = map edge_of xs" and ok: "\<forall>p\<in>set xs. lp_ok (fst p) \<and> data (pool_edge_of p) = Inr (fst p)"
    and hash: "hashes_triples keccak (set xs)"
    and near: "\<forall>(s, t)\<in>set ps. filter (joins s w) xs \<noteq> [] \<and> filter (joins t w) xs \<noteq> []"
  shows "add_pairs ops keccak data w g ps d = Inr (dict_fill (triple_id keccak) (triple_entry keccak)
     (both_ways (concat (map (pair_triples w xs) ps))) d)"
  using near
proof (induction ps arbitrary: d)
  case (Cons q ps)
  obtain s t where q: "q = (s, t)" by (cases q)
  have data: "edge_data ops u v g = Inr (map pool_edge_of (filter (joins u v) xs))" if "filter (joins u v) xs \<noteq> []" for u v
    using edge_data_between [of g u v] that by (simp add: g between_pools)
  have IH: "add_pairs ops keccak data w g ps d' = Inr (dict_fill (triple_id keccak) (triple_entry keccak)
     (both_ways (concat (map (pair_triples w xs) ps))) d')" for d'
    using Cons by simp
  show ?case
  proof (cases "filter (joins s t) xs = []")
    case True
    then have "\<not> has_edge ops s t g" by (simp add: has_edge_between g between_pools)
    moreover from True have "pair_triples w xs (s, t) = []" by (simp add: pair_triples_def product_concat_map)
    ultimately show ?thesis by (simp add: q IH)
  next
    case False
    then have "has_edge ops s t g" by (simp add: has_edge_between g between_pools)
    moreover have "List.product (map pool_edge_of as) (List.product (map pool_edge_of bs) (map pool_edge_of cs)) =
        map (\<lambda>(x, y, z). (pool_edge_of x, pool_edge_of y, pool_edge_of z)) (List.product as (List.product bs cs))" for as bs cs
      by (simp add: product_concat_map map_concat comp_def)
    moreover have "set (pair_triples w xs (s, t)) \<subseteq> set xs \<times> set xs \<times> set xs" by (auto simp: pair_triples_def)
    note add_triples_ok [OF ok hash this]
    ultimately show ?thesis
      using False Cons.prems by (simp add: q data IH dict_fill_append pair_triples_def)
  qed
qed simp

lemma three_pool_paths_ok:
  fixes v2 v3 w
  defines "xs \<equiv> typed_pools v2 v3"
  assumes keyed: "keyed_lps v2" "keyed_lps v3" and hash: "hashes_triples keccak (set xs)"
    and known: "\<exists>x\<in>set xs. \<exists>s. joins w s x"
  shows "\<exists>ts. three_pool_arb_paths ops keccak w v2 v3 = Inr (dict_fill (triple_id keccak) (triple_entry keccak) ts []) \<and>
    set ts = {t \<in> set xs \<times> set xs \<times> set xs. triangle w t}"
proof -
  have ok: "\<forall>x\<in>set xs. lp_ok (fst x) \<and> pool_dict v2 v3 (pool_edge_of x) = Inr (fst x)"
    using pool_dict_keyed [OF keyed] by (simp add: xs_def)
  have lps: "\<forall>p\<in>set (map snd v2). lp_ok p" "\<forall>p\<in>set (map snd v3). lp_ok p"
    using keyed by (auto simp: keyed_lps_def)
  obtain g2 where g2: "add_edges ops ''UniswapV2'' (map snd v2) (empty_graph ops) = Inr g2"
    "edges g2 = map edge_of (map (\<lambda>p. (p, ''UniswapV2'')) (map snd v2))"
    using add_edges_ok [OF lps(1), of "''UniswapV2''" "empty_graph ops"] by (auto simp: edges_empty)
  obtain g where g: "add_edges ops ''UniswapV3'' (map snd v3) g2 = Inr g" "edges g = map edge_of xs"
    using add_edges_ok [OF lps(2), of "''UniswapV3''" g2] g2(2) by (auto simp: xs_def typed_pools_def)
  have near: "between (edges g) s w \<noteq> [] \<longleftrightarrow> (\<exists>x\<in>set xs. joins s w x)" for s
    by (simp add: g between_pools filter_empty_conv)
  from known obtain x s where "x \<in> set xs" "joins w s x" by blast
  then have "ends_at (edges g) w \<noteq> 0"
    by (force simp: g ends_at_def filter_empty_conv joins_def edge_of_def)
  from neighbors_known [OF this] obtain ns where ns: "neighbors ops w g = Inr ns" "distinct ns"
    "\<And>s. s \<in> set ns \<longleftrightarrow> (\<exists>x\<in>set xs. joins s w x)" unfolding near by blast
  define fs where "fs = filter (\<lambda>t. 1 < degree ops t g) ns"
  define ts where "ts = both_ways (concat (map (pair_triples w xs) (combinations2 fs)))"
  have fs: "distinct fs" "set fs \<subseteq> set ns" using ns(2) by (auto simp: fs_def)
  have many: "s \<in> set fs" if "x \<in> set xs" "y \<in> set xs" "joins s w x" "joins s t y" "t \<noteq> w" for s t x y
    using ends_at_two [of x xs y s w t] that ok by (auto simp: fs_def ns degree_ends g)
  have "add_pairs ops keccak (pool_dict v2 v3) w g (combinations2 fs) [] =
      Inr (dict_fill (triple_id keccak) (triple_entry keccak) ts [])"
    unfolding ts_def by (rule add_pairs_ok [OF g(2) ok hash])
      (use combinations2_mem [OF fs(1)] fs(2) ns(3) in \<open>fastforce simp: filter_empty_conv\<close>)
  moreover obtain tokens where "all_tokens (map snd v2) (map snd v3) = Inr tokens"
    using tokens_hashable [OF lps] by blast
  ultimately have run: "three_pool_arb_paths ops keccak w v2 v3 = Inr (dict_fill (triple_id keccak) (triple_entry keccak) ts [])"
    using g g2 ns(1) by (simp add: three_pool_arb_paths_def fs_def)
  have pair: "(x, y, z) \<in> set ts \<longleftrightarrow> (\<exists>s t. x \<in> set xs \<and> y \<in> set xs \<and> z \<in> set xs \<and> joins s w x \<and> joins s t y \<and> joins t w z \<and>
      ((s, t) \<in> set (combinations2 fs) \<or> (t, s) \<in> set (combinations2 fs)))" for x y z
  proof -
    have "(x, y, z) \<in> set ts \<longleftrightarrow> (\<exists>s t. (s, t) \<in> set (combinations2 fs) \<and>
        ((x, y, z) \<in> set (pair_triples w xs (s, t)) \<or> (z, y, x) \<in> set (pair_triples w xs (s, t))))"
      unfolding ts_def set_both_ways by auto
    then show ?thesis unfolding pair_triples_mem using joins_sym [of _ _ y] by blast
  qed
  have "(x, y, z) \<in> set ts \<longleftrightarrow> x \<in> set xs \<and> y \<in> set xs \<and> z \<in> set xs \<and> triangle w (x, y, z)" for x y z
  proof
    assume "(x, y, z) \<in> set ts"
    then obtain s t where st: "x \<in> set xs" "y \<in> set xs" "z \<in> set xs" "joins s w x" "joins s t y" "joins t w z"
      "(s, t) \<in> set (combinations2 fs) \<or> (t, s) \<in> set (combinations2 fs)" unfolding pair by blast
    then have "s \<noteq> t" using combinations2_mem [OF fs(1)] by blast
    moreover have "joins w s x" using st(4) by (rule joins_sym [THEN iffD1])
    ultimately show "x \<in> set xs \<and> y \<in> set xs \<and> z \<in> set xs \<and> triangle w (x, y, z)"
      using st by (auto simp: triangle_def)
  next
    assume t: "x \<in> set xs \<and> y \<in> set xs \<and> z \<in> set xs \<and> triangle w (x, y, z)"
    then obtain s t where st: "s \<noteq> t" "joins s w x" "joins s t y" "joins t w z"
      by (auto simp: triangle_def joins_sym)
    then have "s \<noteq> w" "t \<noteq> w" using t ok joins_different by blast+
    with st t have "s \<in> set fs" "t \<in> set fs" using many joins_sym by blast+
    with st(1) combinations2_set [OF fs(1)] have "(s, t) \<in> set (combinations2 fs) \<or> (t, s) \<in> set (combinations2 fs)" by blast
    with st t show "(x, y, z) \<in> set ts" unfolding pair by blast
  qed
  then have "set ts = {t \<in> set xs \<times> set xs \<times> set xs. triangle w t}" by auto
  with run show ?thesis by blast
qed

end

section \<open>A graph\<close>

text \<open>The list of its edges as a multigraph, an instance of the documented behaviour.\<close>

definition list_graph :: "graph_edge list graph_ops" where
  "list_graph = \<lparr>empty_graph = [],
     add_edge = (\<lambda>u v e g. Inr (g @ [(u, v, e)])),
     neighbors = (\<lambda>t g. if ends_at g t = 0 then Inl (OtherError ''NetworkXError'')
       else Inr (remdups (map (\<lambda>(u, v, e). if u = t then v else u) (filter (\<lambda>(u, v, e). u = t \<or> v = t) g)))),
     degree = (\<lambda>t g. ends_at g t),
     has_edge = (\<lambda>s t g. between g s t \<noteq> []),
     edge_data = (\<lambda>s t g. if between g s t = [] then Inl AttributeError else Inr (between g s t))\<rparr>"

lemma other_ends:
  "set (map (\<lambda>(u, v, e). if u = t then v else u) (filter (\<lambda>(u, v, e). u = t \<or> v = t) g)) = {s. between g s t \<noteq> []}"
  by (induction g) (auto simp: between_def)

interpretation list_multigraph: pool_graph list_graph "\<lambda>g. g"
  by unfold_locales (simp_all add: list_graph_def other_ends del: set_map)

section \<open>Properties\<close>

text \<open>
  C9: On a graph that behaves as documented and holds the wrapped token, the builder returns,
  and when different triples have different ids, an id is in the result exactly when it is the
  id of an ordered triple of pools that leads from the wrapped token over two different tokens
  and back; its entry holds the pools and their path in that order.
\<close>

theorem three_pool_paths_sound_complete:
  fixes edges :: "'g \<Rightarrow> graph_edge list"
  assumes "pool_graph ops edges" and "keyed_lps v2" and "keyed_lps v3"
    and "hashes_triples keccak (set (typed_pools v2 v3))"
    and "inj_on (triple_id keccak) (set (typed_pools v2 v3) \<times> set (typed_pools v2 v3) \<times> set (typed_pools v2 v3))"
    and "\<exists>x\<in>set (typed_pools v2 v3). \<exists>s. joins w s x"
  shows "\<exists>paths. three_pool_arb_paths ops keccak w v2 v3 = Inr paths \<and> (\<forall>h e. map_of paths h = Some e \<longleftrightarrow>
    (\<exists>x\<in>set (typed_pools v2 v3). \<exists>y\<in>set (typed_pools v2 v3). \<exists>z\<in>set (typed_pools v2 v3).
      (\<exists>s t. s \<noteq> t \<and> joins w s x \<and> joins s t y \<and> joins t w z) \<and>
      keccak (triple_text (x, y, z)) = Inr h \<and> e = triple_entry keccak (x, y, z)))"
proof -
  let ?P = "set (typed_pools v2 v3)"
  obtain ts where ts: "three_pool_arb_paths ops keccak w v2 v3 = Inr (dict_fill (triple_id keccak) (triple_entry keccak) ts [])"
    "set ts = {t \<in> ?P \<times> ?P \<times> ?P. triangle w t}"
    using pool_graph.three_pool_paths_ok [OF assms(1-4,6)] by blast
  have id: "keccak (triple_text t) = Inr h \<longleftrightarrow> triple_id keccak t = h" if "t \<in> ?P \<times> ?P \<times> ?P" for t h
    using assms(4) that unfolding hashes_triples_def by (fastforce simp: triple_id_def)
  have "map_of (dict_fill (triple_id keccak) (triple_entry keccak) ts []) h = Some e \<longleftrightarrow>
      (\<exists>t\<in>set ts. triple_id keccak t = h \<and> e = triple_entry keccak t)" for h e
    by (rule dict_fill_inj [OF assms(5)]) (auto simp: ts)
  also have "(\<exists>t\<in>set ts. triple_id keccak t = h \<and> e = triple_entry keccak t) \<longleftrightarrow> (\<exists>x\<in>?P. \<exists>y\<in>?P. \<exists>z\<in>?P.
      triangle w (x, y, z) \<and> keccak (triple_text (x, y, z)) = Inr h \<and> e = triple_entry keccak (x, y, z))" for h e
    using id unfolding ts by blast
  finally show ?thesis using ts(1) by (simp add: triangle_def)
qed

definition small_lps :: "(json, json) dict" where
  "small_lps = map (\<lambda>p. (field ''pool_address'' p, p))
     [small_pool ''0xp1'' ''W'' ''A'', small_pool ''0xp2'' ''A'' ''B'', small_pool ''0xp3'' ''B'' ''W'']"

theorem three_pool_paths_sound_complete_witness:
  "\<exists>paths e. three_pool_arb_paths list_graph small_keccak (JStr ''W'') small_lps [] = Inr paths \<and>
     map_of paths ''hp3p2p1'' = Some e"
proof -
  have ok: "keyed_lps small_lps" "keyed_lps []"
    by (simp_all add: keyed_lps_def small_lps_def small_defs field_def dict_index_def lp_ok_def)
  note pools = small_lps_def small_defs field_def dict_index_def typed_pools_def
  have hash: "hashes_triples small_keccak (set (typed_pools small_lps []))"
    by (simp add: hashes_triples_def small_keccak_def)
  have inj: "inj_on (triple_id small_keccak)
      (set (typed_pools small_lps []) \<times> set (typed_pools small_lps []) \<times> set (typed_pools small_lps []))"
  proof -
    let ?ps = "typed_pools small_lps []"
    have "distinct (map (triple_id small_keccak) (List.product ?ps (List.product ?ps ?ps)))" by code_simp
    then show ?thesis by (simp only: distinct_map set_product)
  qed
  have w: "\<exists>x\<in>set (typed_pools small_lps []). \<exists>s. joins (JStr ''W'') s x"
    by (simp add: pools joins_def edge_of_def)
  obtain paths where paths: "three_pool_arb_paths list_graph small_keccak (JStr ''W'') small_lps [] = Inr paths"
    and iff: "\<And>h e. map_of paths h = Some e \<longleftrightarrow> (\<exists>x\<in>set (typed_pools small_lps []). \<exists>y\<in>set (typed_pools small_lps []).
      \<exists>z\<in>set (typed_pools small_lps []). (\<exists>s t. s \<noteq> t \<and> joins (JStr ''W'') s x \<and> joins s t y \<and> joins t (JStr ''W'') z) \<and>
      small_keccak (triple_text (x, y, z)) = Inr h \<and> e = triple_entry small_keccak (x, y, z))"
    using three_pool_paths_sound_complete [OF list_multigraph.pool_graph_axioms ok hash inj w] by blast
  let ?x = "\<lambda>i. typed_pools small_lps [] ! i"
  have "\<exists>s t. s \<noteq> t \<and> joins (JStr ''W'') s (?x 2) \<and> joins s t (?x 1) \<and> joins t (JStr ''W'') (?x 0)"
    by (rule exI [of _ "JStr ''B''"], rule exI [of _ "JStr ''A''"]) (simp add: pools joins_def edge_of_def)
  moreover have "small_keccak (triple_text (?x 2, ?x 1, ?x 0)) = Inr ''hp3p2p1''"
    by (simp add: pools triple_text_def address_of_def)
  moreover have "?x 0 \<in> set (typed_pools small_lps [])" "?x 1 \<in> set (typed_pools small_lps [])" "?x 2 \<in> set (typed_pools small_lps [])"
    by (simp_all add: pools)
  ultimately have "map_of paths ''hp3p2p1'' = Some (triple_entry small_keccak (?x 2, ?x 1, ?x 0))"
    unfolding iff by blast
  with paths show ?thesis by blast
qed

end
