(* ===== verification/Pool_Service.thy ===== *)
theory Pool_Service
  imports Py_Files Degenbot
begin

text \<open>
  \<open>PoolService\<close> (app/core/pool_service.py): the pool managers of the chain's factories, and the
  loading of pools and arbitrage paths from the JSON files of the data directory into
  \<open>bot_state.all_arbs\<close>.
\<close>

section \<open>Third-party operations\<close>

text \<open>
  \<open>fetch_events n\<close> is \<open>snapshot.fetch_new_liquidity_events(n)\<close>; the managers are created with a
  factory address, the V3 one with the snapshot; \<open>v2_pool\<close> and \<open>v3_pool\<close> are the two calls of
  \<open>get_pool\<close> (address, state block, and the fee); \<open>erc20\<close> is \<open>Erc20Token\<close>; \<open>known_pool\<close> is
  \<open>all_pools.get\<close>; \<open>check_cycle\<close> is the validation in the constructor of \<open>UniswapLpCycle\<close>, whose
  attributes are the arguments it is given. \<open>enum\<close> is the order in which a set is iterated.
\<close>

record ('p, 'm, 'w) pool_ops =
  fetch_events :: "json \<Rightarrow> 'w \<Rightarrow> unit res \<times> 'w"
  v2_manager :: "json \<Rightarrow> 'w \<Rightarrow> 'm res \<times> 'w"
  v3_manager :: "json \<Rightarrow> 'w \<Rightarrow> 'm res \<times> 'w"
  v2_pool :: "'m \<Rightarrow> json \<Rightarrow> json \<Rightarrow> 'w \<Rightarrow> 'p res \<times> 'w"
  v3_pool :: "'m \<Rightarrow> json \<Rightarrow> json \<Rightarrow> json \<Rightarrow> 'w \<Rightarrow> 'p res \<times> 'w"
  erc20 :: "json \<Rightarrow> 'w \<Rightarrow> string res \<times> 'w"
  known_pool :: "json \<Rightarrow> 'w \<Rightarrow> 'p option"
  check_cycle :: "'p lp_cycle \<Rightarrow> 'w \<Rightarrow> unit res \<times> 'w"
  enum :: "json set \<Rightarrow> json list"

section \<open>JSON helpers\<close>

text \<open>\<open>v - 1\<close> of a block number, \<open>v[k]\<close> with a JSON value as the key, \<open>v.get(k, [])\<close>, \<open>v.values()\<close>.\<close>

fun json_pred :: "json \<Rightarrow> json res" where
  "json_pred (JInt n) = Inr (JInt (n - 1))"
| "json_pred (JBool b) = Inr (JInt (of_bool b - 1))"
| "json_pred (JFloat m e) =
     (if 0 \<le> e then Inr (JFloat (m * 10 ^ nat e - 1) 0) else Inr (JFloat (m - 10 ^ nat (- e)) e))"
| "json_pred _ = Inl TypeError"

fun json_sub :: "json \<Rightarrow> json \<Rightarrow> json res" where
  "json_sub (JObj kvs) (JStr k) = dict_index kvs k"
| "json_sub (JObj kvs) k = (if hashable k then Inl KeyError else Inl TypeError)"
| "json_sub v (JInt n) =
     (case v of
        JList xs \<Rightarrow> (let i = if n < 0 then n + int (length xs) else n in
           if 0 \<le> i \<and> i < int (length xs) then Inr (xs ! nat i) else Inl IndexError)
      | JStr s \<Rightarrow> (let i = if n < 0 then n + int (length s) else n in
           if 0 \<le> i \<and> i < int (length s) then Inr (JStr [s ! nat i]) else Inl IndexError)
      | _ \<Rightarrow> Inl TypeError)"
| "json_sub v (JBool b) = json_nth v (of_bool b)"
| "json_sub v k = Inl TypeError"

fun json_get_list :: "json \<Rightarrow> string \<Rightarrow> json res" where
  "json_get_list (JObj kvs) k = Inr (case map_of kvs k of None \<Rightarrow> JList [] | Some v \<Rightarrow> v)"
| "json_get_list _ k = Inl AttributeError"

definition json_values :: "json \<Rightarrow> json list res" where
  "json_values v = res_bind (json_items v) (\<lambda>kvs. Inr (map snd kvs))"

text \<open>Whether \<open>d.get(k)\<close> is true.\<close>

definition has_data :: "(json, json) dict \<Rightarrow> json \<Rightarrow> bool res" where
  "has_data d k = res_bind (dict_get d k) (\<lambda>v. Inr (case v of None \<Rightarrow> False | Some x \<Rightarrow> truthy x))"

section \<open>Pool managers\<close>

text \<open>\<open>pool_managers[factory_address] = m\<close>\<close>

definition store_manager :: "json \<Rightarrow> 'm \<Rightarrow> (('p, 'm, 'w) bot_state, unit) act" where
  "store_manager a m =
     (if hashable a then act_update (\<lambda>st. st\<lparr>pool_managers := AList.update a m (pool_managers st)\<rparr>)
      else act_raise TypeError)"

text \<open>One factory of one version; versions other than v2 and v3 are passed over.\<close>

definition create_manager ::
  "('p, 'm, 'w) pool_ops \<Rightarrow> string \<Rightarrow> json \<Rightarrow> (('p, 'm, 'w) bot_state, unit) act" where
  "create_manager ops version factory_info =
     act_bind (act_lift (json_get factory_info ''factory_address'')) (\<lambda>factory_address.
     if version = ''v2'' then act_bind (with_world (v2_manager ops factory_address)) (store_manager factory_address)
     else if version = ''v3'' then act_bind (with_world (v3_manager ops factory_address)) (store_manager factory_address)
     else act_return ())"

definition create_managers ::
  "('p, 'm, 'w) pool_ops \<Rightarrow> (string \<times> json) list \<Rightarrow> (('p, 'm, 'w) bot_state, unit) act" where
  "create_managers ops versions =
     act_each (\<lambda>(version, factories).
       act_bind (act_lift (json_items factories))
         (act_each (\<lambda>(exchange_name, factory_info). create_manager ops version factory_info))) versions"

text \<open>
  \<open>None\<close> while \<open>first_event\<close> is not set and the method waits; otherwise what it does once the
  wait is over.
\<close>

definition create_pool_managers ::
  "('p, 'm, 'w) pool_ops \<Rightarrow> ('p, 'm, 'w) bot_state \<Rightarrow> (unit res \<times> ('p, 'm, 'w) bot_state) option" where
  "create_pool_managers ops st =
     (case get_attr ''first_event'' st of
        Inl e \<Rightarrow> Some (Inl e, st)
      | Inr first_event \<Rightarrow>
          if \<not> truthy first_event then None
          else if \<not> truthy (chain_data st) then Some (Inr (), st)
          else Some (act_bind (act_lift (json_get (chain_data st) ''factories'')) (\<lambda>factories.
                 act_bind (act_lift (json_pred first_event)) (\<lambda>b.
                 act_bind (with_world (fetch_events ops b)) (\<lambda>_.
                 act_bind (act_lift (json_items factories)) (\<lambda>versions.
                 act_bind (create_managers ops versions) (\<lambda>_.
                 act_update (set_attr ''pool_managers_ready'' (JBool True))))))) st))"

section \<open>Pools from the files\<close>

definition data_path :: "path \<Rightarrow> string \<Rightarrow> string \<Rightarrow> path" where
  "data_path root chain_name name =
     butlast (butlast (butlast (root @ [''app'', ''core'', ''pool_service.py'']))) @
       [''data'', chain_name, chain_name @ name]"

text \<open>\<open>lp_filepaths\<close>: the V2 factories in their order, then the V3 factories.\<close>

definition lp_filepaths :: "path \<Rightarrow> string \<Rightarrow> json \<Rightarrow> json \<Rightarrow> path list res" where
  "lp_filepaths root chain_name v2_factories v3_factories =
     res_bind (json_items v2_factories) (\<lambda>f2. res_bind (json_items v3_factories) (\<lambda>f3.
       Inr (map (\<lambda>kv. data_path root chain_name (''_'' @ fst kv @ ''_v2.json'')) f2 @
            map (\<lambda>kv. data_path root chain_name (''_'' @ fst kv @ ''_v3.json'')) f3)))"

text \<open>The three checks read the list of blacklisted pools afresh, each after its own key.\<close>

fun blacklisted_any :: "json set res \<Rightarrow> json \<Rightarrow> string list \<Rightarrow> bool res" where
  "blacklisted_any pools pool [] = Inr False"
| "blacklisted_any pools pool (k # ks) =
     res_bind (json_key pool k) (\<lambda>a. res_bind pools (\<lambda>s. res_bind (in_set a s) (\<lambda>b.
       if b then Inr True else blacklisted_any pools pool ks)))"

fun add_pools :: "json set res \<Rightarrow> json list \<Rightarrow> (json, json) dict \<Rightarrow> (json, json) dict res" where
  "add_pools pools [] d = Inr d"
| "add_pools pools (pool # rest) d =
     res_bind (blacklisted_any pools pool [''pool_address'', ''token0'', ''token1'']) (\<lambda>skip.
       if skip then add_pools pools rest d
       else res_bind (json_key pool ''pool_address'') (\<lambda>a. add_pools pools rest (AList.update a pool d)))"

fun read_pools ::
  "json_codec \<Rightarrow> file_system \<Rightarrow> json set res \<Rightarrow> path list \<Rightarrow> (json, json) dict \<Rightarrow> (json, json) dict res" where
  "read_pools c fs pools [] d = Inr d"
| "read_pools c fs pools (p # ps) d =
     res_bind (res_bind (read_json c fs p) json_iter) (\<lambda>xs.
     res_bind (add_pools pools xs d) (read_pools c fs pools ps))"

section \<open>Arbitrage paths from the files\<close>

fun all_known :: "(json, json) dict \<Rightarrow> json list \<Rightarrow> bool res" where
  "all_known data [] = Inr True"
| "all_known data (a # as) =
     res_bind (has_data data a) (\<lambda>b. res_bind (all_known data as) (\<lambda>r. Inr (b \<and> r)))"

text \<open>One entry of a paths file; the result says whether it passed the checks.\<close>

definition check_arb :: "json set res \<Rightarrow> (json, json) dict \<Rightarrow> string \<times> json \<Rightarrow> bool res" where
  "check_arb arbs data = (\<lambda>(arb_id, arb).
     res_bind arbs (\<lambda>s. res_bind (in_set (JStr arb_id) s) (\<lambda>black.
     res_bind (res_bind (json_get_list arb ''path'') json_iter) (\<lambda>path.
     res_bind (all_known data path) (\<lambda>known. Inr (\<not> black \<and> known))))))"

fun passed_arbs ::
  "json set res \<Rightarrow> (json, json) dict \<Rightarrow> (string \<times> json) list \<Rightarrow> json list res" where
  "passed_arbs arbs data [] = Inr []"
| "passed_arbs arbs data (kv # kvs) =
     res_bind (check_arb arbs data kv) (\<lambda>ok.
     res_bind (passed_arbs arbs data kvs) (\<lambda>rest. Inr (if ok then snd kv # rest else rest)))"

definition arb_filepaths :: "path \<Rightarrow> string \<Rightarrow> path list" where
  "arb_filepaths root chain_name =
     [data_path root chain_name ''_arb_paths_2.json'', data_path root chain_name ''_arb_paths_3.json'']"

fun read_arbs ::
  "json_codec \<Rightarrow> file_system \<Rightarrow> json set res \<Rightarrow> (json, json) dict \<Rightarrow> path list \<Rightarrow> json list res" where
  "read_arbs c fs arbs data [] = Inr []"
| "read_arbs c fs arbs data (p # ps) =
     res_bind (res_bind (read_json c fs p) json_items) (\<lambda>kvs.
     res_bind (passed_arbs arbs data kvs) (\<lambda>xs.
     res_bind (read_arbs c fs arbs data ps) (\<lambda>ys. Inr (xs @ ys))))"

text \<open>The set comprehension of all pool addresses on the paths that have data.\<close>

definition path_pools :: "(json, json) dict \<Rightarrow> json \<Rightarrow> json set res" where
  "path_pools data arb =
     res_bind (res_bind (json_key arb ''path'') json_iter) (\<lambda>path.
     res_bind (res_map (\<lambda>a. res_bind (has_data data a) (\<lambda>b. Inr (if b then {a} else {}))) path)
       (\<lambda>sets. Inr (\<Union> (set sets))))"

definition unique_pool_addresses :: "(json, json) dict \<Rightarrow> json list \<Rightarrow> json set res" where
  "unique_pool_addresses data arbs =
     res_bind (res_map (path_pools data) arbs) (\<lambda>sets. Inr (\<Union> (set sets)))"

text \<open>The tokens are only counted, but collecting them may raise.\<close>

definition token_of ::
  "json set res \<Rightarrow> (json, json) dict \<Rightarrow> string \<Rightarrow> json \<Rightarrow> json \<Rightarrow> json set res" where
  "token_of tokens data field a pool_dict =
     res_bind (json_get pool_dict field) (\<lambda>t.
     if \<not> truthy t then Inr {}
     else res_bind tokens (\<lambda>s. res_bind (in_set t s) (\<lambda>black.
          if black then Inr {}
          else res_bind (has_data data a) (\<lambda>b. Inr (if b then {t} else {})))))"

definition path_tokens ::
  "json set res \<Rightarrow> (json, json) dict \<Rightarrow> string \<Rightarrow> json \<Rightarrow> json set res" where
  "path_tokens tokens data field arb =
     res_bind (res_bind (json_get arb ''path'') json_iter) (\<lambda>path.
     res_bind (res_map (\<lambda>a. res_bind (res_bind (json_get arb ''pools'') json_values)
                              (res_map (token_of tokens data field a))) path)
       (\<lambda>sets. Inr (\<Union> (set (concat sets)))))"

definition unique_tokens :: "json set res \<Rightarrow> (json, json) dict \<Rightarrow> json list \<Rightarrow> json set res" where
  "unique_tokens tokens data arbs =
     res_bind (res_map (path_tokens tokens data ''token0'') arbs) (\<lambda>t0.
     res_bind (res_map (path_tokens tokens data ''token1'') arbs) (\<lambda>t1.
       Inr (\<Union> (set t0) \<union> \<Union> (set t1))))"

section \<open>Pool helpers\<close>

definition pool_manager_for ::
  "json \<Rightarrow> json \<Rightarrow> ('p, 'm, 'w) bot_state \<Rightarrow> 'm res" where
  "pool_manager_for version_factories pool_exchange st =
     res_bind (res_bind (json_sub version_factories pool_exchange) (\<lambda>f. json_key f ''factory_address'')) (\<lambda>a.
     if hashable a then dict_index (pool_managers st) a else Inl TypeError)"

definition create_pool_helper ::
  "('p, 'm, 'w) pool_ops \<Rightarrow> json \<Rightarrow> json \<Rightarrow> json \<Rightarrow> json \<Rightarrow> json \<Rightarrow> (('p, 'm, 'w) bot_state, 'p option) act" where
  "create_pool_helper ops pool_address pool_data v2_factories v3_factories first_event =
     act_bind (act_lift (json_key pool_data ''type'')) (\<lambda>pool_type.
     act_bind (act_lift (json_key pool_data ''exchange'')) (\<lambda>pool_exchange.
     if pool_type = JStr ''UniswapV2'' then
       act_try (act_bind (\<lambda>st. (pool_manager_for v2_factories pool_exchange st, st)) (\<lambda>m.
                act_bind (act_lift (json_pred first_event)) (\<lambda>b. with_world (v2_pool ops m pool_address b))))
         (\<lambda>e. if e = ManagerError then act_return None else act_raise e) (\<lambda>p. act_return (Some p))
     else if pool_type = JStr ''UniswapV3'' then
       act_try (act_bind (\<lambda>st. (pool_manager_for v3_factories pool_exchange st, st)) (\<lambda>m.
                act_bind (act_lift (json_pred first_event)) (\<lambda>b.
                act_bind (act_lift (json_key pool_data ''fee'')) (\<lambda>fee. with_world (v3_pool ops m pool_address b fee)))))
         (\<lambda>e. if e = ManagerError then act_return None else act_raise e) (\<lambda>p. act_return (Some p))
     else act_return None))"

definition create_pool_helpers ::
  "('p, 'm, 'w) pool_ops \<Rightarrow> (json, json) dict \<Rightarrow> json list \<Rightarrow> (('p, 'm, 'w) bot_state, unit) act" where
  "create_pool_helpers ops data addresses =
     act_each (\<lambda>pool_address.
       act_bind (act_lift (dict_index data pool_address)) (\<lambda>pool_data.
       act_bind (\<lambda>st. (json_path (chain_data st) [''factories'', ''v2''], st)) (\<lambda>v2.
       act_bind (\<lambda>st. (json_path (chain_data st) [''factories'', ''v3''], st)) (\<lambda>v3.
       act_bind (\<lambda>st. (get_attr ''first_event'' st, st)) (\<lambda>first_event.
       act_bind (create_pool_helper ops pool_address pool_data v2 v3 first_event) (\<lambda>_. act_return ())))))) addresses"

section \<open>Building the arbs\<close>

definition MAX_INPUT :: int where
  "MAX_INPUT = 4722 * 10 ^ 18"

text \<open>The loop over the path stops at the first pool that is not available.\<close>

fun available_pools :: "('w \<Rightarrow> json \<Rightarrow> 'p option) \<Rightarrow> 'w \<Rightarrow> json list \<Rightarrow> 'p list" where
  "available_pools get w [] = []"
| "available_pools get w (a # as) =
     (case get w a of None \<Rightarrow> [] | Some p \<Rightarrow> p # available_pools get w as)"

definition new_cycle :: "json \<Rightarrow> string \<Rightarrow> 'p list \<Rightarrow> 'p lp_cycle" where
  "new_cycle i token pools =
     \<lparr>arb_id = i, input_token = token, swap_pools = pools, max_input = MAX_INPUT\<rparr>"

definition build_arb ::
  "('p, 'm, 'w) pool_ops \<Rightarrow> json set \<Rightarrow> string \<Rightarrow> json \<Rightarrow> (('p, 'm, 'w) bot_state, unit) act" where
  "build_arb ops blacklisted_arbs weth arb =
     act_bind (act_lift (json_get arb ''id'')) (\<lambda>arb_id.
     act_bind (act_lift (in_set arb_id blacklisted_arbs)) (\<lambda>black.
     if black then act_return ()
     else act_bind (act_lift (res_bind (json_key arb ''path'') json_iter)) (\<lambda>path.
          act_bind (act_read (\<lambda>st. available_pools (\<lambda>w a. known_pool ops a w) (world st) path)) (\<lambda>swap_pools.
          if length swap_pools \<noteq> length path then act_return ()
          else act_bind (with_world (check_cycle ops (new_cycle arb_id weth swap_pools))) (\<lambda>_.
               act_update (\<lambda>st. st\<lparr>all_arbs := AList.update arb_id
                   \<lparr>lp_cycle = new_cycle arb_id weth swap_pools, status = ''load''\<rparr> (all_arbs st)\<rparr>))))))"

text \<open>
  What the files give: the pools, the arb paths that pass the checks and the addresses of their
  pools. The blacklists are the bot's at the time of loading.
\<close>

definition read_data ::
  "json_codec \<Rightarrow> path \<Rightarrow> string \<Rightarrow> file_system \<Rightarrow> ('p, 'm, 'w) bot_state \<Rightarrow>
     ((json, json) dict \<times> json list \<times> json set) res" where
  "read_data c root chain_name fs st =
     res_bind (json_get (chain_data st) ''factories'') (\<lambda>f.
     res_bind (json_get f ''v2'') (\<lambda>v2. res_bind (json_get f ''v3'') (\<lambda>v3.
     res_bind (lp_filepaths root chain_name v2 v3) (\<lambda>paths.
     res_bind (read_pools c fs (blacklist ''pools'' st) paths []) (\<lambda>data.
     res_bind (read_arbs c fs (blacklist ''arbs'' st) data (arb_filepaths root chain_name)) (\<lambda>arbs.
     res_bind (unique_pool_addresses data arbs) (\<lambda>addresses.
     res_bind (unique_tokens (blacklist ''tokens'' st) data arbs) (\<lambda>_.
       Inr (data, arbs, addresses)))))))))"

text \<open>The helpers of the pools, then the arbs of the paths.\<close>

definition build_arbs ::
  "('p, 'm, 'w) pool_ops \<Rightarrow> (json, json) dict \<Rightarrow> json list \<Rightarrow> json set \<Rightarrow> (('p, 'm, 'w) bot_state, unit) act" where
  "build_arbs ops data arb_paths addresses =
     act_bind (create_pool_helpers ops data (enum ops addresses)) (\<lambda>_.
     act_bind (\<lambda>st. (json_get (chain_data st) ''wrapped_token'', st)) (\<lambda>wrapped.
     act_bind (with_world (erc20 ops wrapped)) (\<lambda>weth.
     act_bind (\<lambda>st. (blacklist ''arbs'' st, st)) (\<lambda>blacklisted_arbs.
     act_each (build_arb ops blacklisted_arbs weth) arb_paths))))"

text \<open>
  \<open>load_pools\<close>; when \<open>first_event\<close> is not set, the argument of \<open>asyncio.sleep\<close> is
  \<open>self.average_blocktime\<close>, an attribute the service does not have.
\<close>

definition load_pools ::
  "('p, 'm, 'w) pool_ops \<Rightarrow> json_codec \<Rightarrow> path \<Rightarrow> string \<Rightarrow> file_system \<Rightarrow> (('p, 'm, 'w) bot_state, unit) act" where
  "load_pools ops c root chain_name fs =
     act_bind (\<lambda>st. (read_data c root chain_name fs st, st)) (\<lambda>(data, arb_paths, addresses).
     act_bind (\<lambda>st. (get_attr ''first_event'' st, st)) (\<lambda>first_event.
     if \<not> truthy first_event then act_raise AttributeError
     else act_bind (build_arbs ops data arb_paths addresses) (\<lambda>_.
          act_bind (act_update (set_attr ''pools_loaded'' (JBool True))) (\<lambda>_.
          act_update (set_attr ''live'' (JBool True))))))"

text \<open>
  The method as the bot calls it: the name of the chain is the attribute \<open>chain_name\<close>, which state
  messages may have overwritten. A path cannot be built from anything but a string.
\<close>

definition load_chain_pools ::
  "('p, 'm, 'w) pool_ops \<Rightarrow> json_codec \<Rightarrow> path \<Rightarrow> file_system \<Rightarrow> (('p, 'm, 'w) bot_state, unit) act" where
  "load_chain_pools ops c root fs =
     act_bind (\<lambda>st. (get_attr ''chain_name'' st, st)) (\<lambda>chain_name. case chain_name of
       JStr name \<Rightarrow> load_pools ops c root name fs
     | _ \<Rightarrow> (\<lambda>st. (res_bind (json_get (chain_data st) ''factories'') (\<lambda>f.
              res_bind (json_get f ''v2'') (\<lambda>_. res_bind (json_get f ''v3'') (\<lambda>_. Inl TypeError))), st)))"

end
