(* ===== verification/Pool_Correct.thy ===== *)
theory Pool_Correct
  imports Pool_Service
begin

text \<open>
  Lemmas on \<open>PoolService\<close>: what the files yield, that every part of loading keeps the arbs keyed
  by their ids and touches the flags only at the end, and what a built arb is made of.
\<close>

lemma res_map_InrD: "res_map f xs = Inr ys \<Longrightarrow> list_all2 (\<lambda>x y. f x = Inr y) xs ys"
  by (induction xs arbitrary: ys) (auto simp: res_bind_Inr_iff)

lemma in_set_Inr_iff: "in_set x s = Inr b \<longleftrightarrow> hashable x \<and> b = (x \<in> s)"
  by (auto simp: in_set_def)

section \<open>Pools\<close>

lemma blacklisted_any_False:
  "blacklisted_any (Inr S) pool ks = Inr False \<Longrightarrow> \<forall>k\<in>set ks. \<exists>a. json_key pool k = Inr a \<and> a \<notin> S \<and> hashable a"
  by (induction ks) (auto simp: res_bind_Inr_iff in_set_Inr_iff split: if_splits)

text \<open>A pool the blacklist lets pass: its address and both tokens are absent from the list.\<close>

definition admitted :: "json set \<Rightarrow> json \<Rightarrow> json \<Rightarrow> bool" where
  "admitted S a pool \<longleftrightarrow> json_key pool ''pool_address'' = Inr a \<and> a \<notin> S \<and>
     (\<exists>t0 t1. json_key pool ''token0'' = Inr t0 \<and> t0 \<notin> S \<and> json_key pool ''token1'' = Inr t1 \<and> t1 \<notin> S)"

lemma add_pools_sound:
  "add_pools (Inr S) xs d = Inr d' \<Longrightarrow> map_of d' a = Some pool \<Longrightarrow>
     map_of d a = Some pool \<or> (pool \<in> set xs \<and> admitted S a pool)"
proof (induction xs arbitrary: d)
  case (Cons x xs)
  from Cons.prems(1) obtain skip where skip: "blacklisted_any (Inr S) x [''pool_address'', ''token0'', ''token1''] = Inr skip"
    by (auto simp: res_bind_Inr_iff simp del: blacklisted_any.simps)
  show ?case
  proof (cases skip)
    case True
    with Cons skip show ?thesis by (auto simp del: blacklisted_any.simps)
  next
    case False
    with Cons.prems(1) skip obtain b where b: "json_key x ''pool_address'' = Inr b"
      and rest: "add_pools (Inr S) xs (AList.update b x d) = Inr d'"
      by (auto simp: res_bind_Inr_iff simp del: blacklisted_any.simps)
    from skip False have "blacklisted_any (Inr S) x [''pool_address'', ''token0'', ''token1''] = Inr False"
      by (simp del: blacklisted_any.simps)
    from blacklisted_any_False [OF this] b have "admitted S b x" unfolding admitted_def by auto
    with Cons.IH [OF rest Cons.prems(2)] show ?thesis by (auto simp: update_conv split: if_splits)
  qed
qed simp

lemma read_pools_sound:
  "read_pools c fs (Inr S) ps d = Inr d' \<Longrightarrow> map_of d' a = Some pool \<Longrightarrow>
     map_of d a = Some pool \<or>
     (admitted S a pool \<and> (\<exists>p\<in>set ps. \<exists>v xs. read_json c fs p = Inr v \<and> json_iter v = Inr xs \<and> pool \<in> set xs))"
proof (induction ps arbitrary: d)
  case (Cons p ps)
  from Cons.prems(1) obtain v xs d1 where r: "read_json c fs p = Inr v" "json_iter v = Inr xs"
    "add_pools (Inr S) xs d = Inr d1" "read_pools c fs (Inr S) ps d1 = Inr d'"
    by (auto simp: res_bind_Inr_iff)
  from Cons.IH [OF r(4) Cons.prems(2)] add_pools_sound [OF r(3), of a pool] r(1,2) show ?case by auto
qed simp

lemma read_pools_needs_list: "read_pools c fs P ps d = Inr d' \<Longrightarrow> d' = d \<or> (\<exists>S. P = Inr S)"
proof (induction ps arbitrary: d)
  case (Cons p ps)
  then obtain xs d1 where a: "add_pools P xs d = Inr d1" "read_pools c fs P ps d1 = Inr d'"
    by (auto simp: res_bind_Inr_iff)
  then have "d1 = d \<or> (\<exists>S. P = Inr S)"
    by (cases xs) (auto simp: res_bind_Inr_iff)
  with Cons.IH [OF a(2)] show ?case by auto
qed simp

section \<open>Arbitrage paths\<close>

lemma all_known_Inr:
  "all_known data as = Inr b \<Longrightarrow> (\<forall>a\<in>set as. hashable a) \<and>
     (b \<longleftrightarrow> (\<forall>a\<in>set as. \<exists>v. map_of data a = Some v \<and> truthy v))"
  by (induction as arbitrary: b)
    (auto simp: res_bind_Inr_iff has_data_def dict_get_def split: option.splits if_splits)

text \<open>An entry of a paths file that passes: not blacklisted and every pool of its path has data.\<close>

definition passes :: "json set \<Rightarrow> (json, json) dict \<Rightarrow> string \<Rightarrow> json \<Rightarrow> bool" where
  "passes A data k arb \<longleftrightarrow> JStr k \<notin> A \<and>
     (\<exists>v path. json_get_list arb ''path'' = Inr v \<and> json_iter v = Inr path \<and>
        (\<forall>a\<in>set path. hashable a \<and> (\<exists>x. map_of data a = Some x \<and> truthy x)))"

lemma check_arb_Inr:
  assumes "check_arb (Inr A) data (k, arb) = Inr ok"
  shows "ok \<longleftrightarrow> passes A data k arb"
proof -
  from assms obtain v path known where p: "json_get_list arb ''path'' = Inr v" "json_iter v = Inr path"
    "all_known data path = Inr known" "ok = (JStr k \<notin> A \<and> known)"
    by (auto simp: check_arb_def res_bind_Inr_iff in_set_Inr_iff)
  with all_known_Inr [OF p(3)] show ?thesis unfolding passes_def by auto
qed

lemma passed_arbs_set:
  "passed_arbs (Inr A) data kvs = Inr arbs \<Longrightarrow> set arbs = {arb. \<exists>k. (k, arb) \<in> set kvs \<and> passes A data k arb}"
proof (induction kvs arbitrary: arbs)
  case (Cons kv kvs)
  obtain k arb where kv: "kv = (k, arb)" by (cases kv)
  from Cons.prems kv obtain ok rest where c: "check_arb (Inr A) data (k, arb) = Inr ok"
    "passed_arbs (Inr A) data kvs = Inr rest" "arbs = (if ok then arb # rest else rest)"
    by (auto simp: res_bind_Inr_iff)
  with Cons.IH [OF c(2)] check_arb_Inr [OF c(1)] kv show ?case by auto
qed simp

lemma read_arbs_set:
  "read_arbs c fs (Inr A) data ps = Inr arbs \<Longrightarrow>
     set arbs = {arb. \<exists>p\<in>set ps. \<exists>v kvs k. read_json c fs p = Inr v \<and> json_items v = Inr kvs \<and>
        (k, arb) \<in> set kvs \<and> passes A data k arb}"
proof (induction ps arbitrary: arbs)
  case (Cons p ps)
  then obtain v kvs xs ys where r: "read_json c fs p = Inr v" "json_items v = Inr kvs"
    "passed_arbs (Inr A) data kvs = Inr xs" "read_arbs c fs (Inr A) data ps = Inr ys" "arbs = xs @ ys"
    by (auto simp: res_bind_Inr_iff)
  with Cons.IH [OF r(4)] passed_arbs_set [OF r(3)] show ?case by auto
qed simp

lemma read_arbs_needs_list: "read_arbs c fs P data ps = Inr arbs \<Longrightarrow> arbs = [] \<or> (\<exists>A. P = Inr A)"
proof (induction ps arbitrary: arbs)
  case (Cons p ps)
  then obtain kvs xs ys where r: "passed_arbs P data kvs = Inr xs" "read_arbs c fs P data ps = Inr ys" "arbs = xs @ ys"
    by (auto simp: res_bind_Inr_iff)
  from r(1) have "xs = [] \<or> (\<exists>A. P = Inr A)"
    by (cases kvs) (auto simp: res_bind_Inr_iff check_arb_def)
  with r Cons.IH [OF r(2)] show ?case by auto
qed simp

lemma read_data_Inr:
  assumes "read_data c root chain fs st = Inr (data, arbs, addresses)"
  obtains paths S where "read_pools c fs (blacklist ''pools'' st) paths [] = Inr data"
    and "read_arbs c fs (blacklist ''arbs'' st) data (arb_filepaths root chain) = Inr arbs"
    and "unique_pool_addresses data arbs = Inr addresses"
    and "unique_tokens (blacklist ''tokens'' st) data arbs = Inr S"
  using assms by (auto simp: read_data_def res_bind_Inr_iff)

lemma read_data_files:
  assumes "read_data c root chain fs st = Inr (data, arbs, addresses)"
  obtains v2 v3 files where "res_bind (json_get (chain_data st) ''factories'') (\<lambda>f. json_get f ''v2'') = Inr v2"
    and "res_bind (json_get (chain_data st) ''factories'') (\<lambda>f. json_get f ''v3'') = Inr v3" and "lp_filepaths root chain v2 v3 = Inr files"
    and "read_pools c fs (blacklist ''pools'' st) files [] = Inr data"
    and "read_arbs c fs (blacklist ''arbs'' st) data (arb_filepaths root chain) = Inr arbs"
  using assms by (auto simp: read_data_def res_bind_Inr_iff)

section \<open>Every part keeps the arbs keyed\<close>

definition keeps_keyed :: "('p, 'm, 'w) bot_state \<Rightarrow> ('p, 'm, 'w) bot_state \<Rightarrow> bool" where
  "keeps_keyed s t \<longleftrightarrow> (arbs_keyed (all_arbs s) \<longrightarrow> arbs_keyed (all_arbs t))"

lemma keeps_keyed_refl: "reflp keeps_keyed" and keeps_keyed_trans: "transp keeps_keyed"
  by (auto simp: reflp_def transp_def keeps_keyed_def)

text \<open>Everything but the arbs, the world and the two flags stays.\<close>

definition loads_only :: "('p, 'm, 'w) bot_state \<Rightarrow> ('p, 'm, 'w) bot_state \<Rightarrow> bool" where
  "loads_only s t \<longleftrightarrow> t = s\<lparr>all_arbs := all_arbs t, world := world t\<rparr>"

lemma loads_only_refl: "reflp loads_only"
  by (simp add: reflp_def loads_only_def)

lemma loads_only_trans: "transp loads_only"
proof (rule transpI)
  fix x y z :: "('p, 'm, 'w) bot_state"
  assume "loads_only x y" and "loads_only y z"
  then have y: "y = x\<lparr>all_arbs := all_arbs y, world := world y\<rparr>"
    and z: "z = y\<lparr>all_arbs := all_arbs z, world := world z\<rparr>" by (auto simp: loads_only_def)
  have "z = x\<lparr>all_arbs := all_arbs z, world := world z\<rparr>" by (subst z, subst y) simp
  then show "loads_only x z" by (simp add: loads_only_def)
qed

text \<open>The arbs that \<open>build_arb\<close> may add for an entry of the paths.\<close>

definition built ::
  "('p, 'm, 'w) pool_ops \<Rightarrow> json set \<Rightarrow> string \<Rightarrow> json \<Rightarrow> json \<Rightarrow> 'p arb_details \<Rightarrow> bool" where
  "built ops B weth arb k d \<longleftrightarrow> json_get arb ''id'' = Inr k \<and> k \<notin> B \<and>
     (\<exists>v path ps. json_key arb ''path'' = Inr v \<and> json_iter v = Inr path \<and>
        list_all2 (\<lambda>a p. \<exists>w. known_pool ops a w = Some p) path ps \<and>
        d = \<lparr>lp_cycle = new_cycle k weth ps, status = ''load''\<rparr>)"

definition adds_arbs ::
  "(json \<Rightarrow> 'p arb_details \<Rightarrow> bool) \<Rightarrow> ('p, 'm, 'w) bot_state \<Rightarrow> ('p, 'm, 'w) bot_state \<Rightarrow> bool" where
  "adds_arbs P s t \<longleftrightarrow> (\<forall>k. map_of (all_arbs s) k \<noteq> None \<longrightarrow> map_of (all_arbs t) k \<noteq> None) \<and>
     (\<forall>k d. map_of (all_arbs t) k = Some d \<longrightarrow> map_of (all_arbs s) k = Some d \<or> P k d)"

lemma adds_arbs_refl: "reflp (adds_arbs P)"
  by (simp add: reflp_def adds_arbs_def)

lemma adds_arbs_trans: "transp (adds_arbs P)"
proof (rule transpI)
  fix x y z
  assume 1: "adds_arbs P x y" and 2: "adds_arbs P y z"
  have "map_of (all_arbs x) k = Some d \<or> P k d" if "map_of (all_arbs z) k = Some d" for k d
    using 1 2 that unfolding adds_arbs_def by blast
  with 1 2 show "adds_arbs P x z" unfolding adds_arbs_def by blast
qed

lemma available_full:
  "length (available_pools get w path) = length path \<Longrightarrow>
     list_all2 (\<lambda>a p. get w a = Some p) path (available_pools get w path)"
proof (induction path)
  case (Cons a path)
  then show ?case by (cases "get w a") auto
qed simp

text \<open>
  A frame relation that ignores the world and is kept by storing a built arb is kept by the
  whole loading up to the flags.
\<close>

locale load_frame =
  fixes R :: "('p, 'm, 'w) bot_state \<Rightarrow> ('p, 'm, 'w) bot_state \<Rightarrow> bool"
    and ops :: "('p, 'm, 'w) pool_ops"
    and P :: "json \<Rightarrow> 'p arb_details \<Rightarrow> bool"
  assumes refl: "reflp R" and trans: "transp R"
    and ignores_world: "R s (s\<lparr>world := w\<rparr>)"
    and stores: "P k d \<Longrightarrow> R s (s\<lparr>all_arbs := AList.update k d (all_arbs s)\<rparr>)"
begin

lemma keeps_world: "act_keeps R (with_world f)"
  using ignores_world by (auto simp: act_keeps_def with_world_def split: prod.split)

lemmas frames = act_keeps_basic [OF refl] act_keeps_bind [OF trans] act_keeps_try [OF trans]
  act_keeps_if act_keeps_option keeps_world act_keeps_pure [OF refl]

lemma keeps_helper: "act_keeps R (create_pool_helper ops a pd v2 v3 fe)"
  unfolding create_pool_helper_def by (intro frames)

lemma keeps_helpers: "act_keeps R (create_pool_helpers ops data addresses)"
  unfolding create_pool_helpers_def by (intro act_keeps_each [OF refl trans] frames keeps_helper)

lemma keeps_store: "P k d \<Longrightarrow> act_keeps R (act_update (\<lambda>s. s\<lparr>all_arbs := AList.update k d (all_arbs s)\<rparr>))"
  using stores by (simp add: act_keeps_def act_update_def)

lemma keeps_build:
  assumes "\<And>k d. built ops B weth arb k d \<Longrightarrow> P k d"
  shows "act_keeps R (build_arb ops B weth arb)"
  unfolding build_arb_def
proof (intro act_keeps_bind_lift [OF refl] act_keeps_bind_read act_keeps_if frames keeps_store)
  fix i black path s x
  let ?ps = "available_pools (\<lambda>w a. known_pool ops a w) (world s) path"
  assume i: "json_get arb ''id'' = Inr i" and b: "in_set i B = Inr black" "\<not> black"
    and p: "res_bind (json_key arb ''path'') json_iter = Inr path"
    and l: "\<not> length ?ps \<noteq> length path"
  have "list_all2 (\<lambda>a p. known_pool ops a (world s) = Some p) path ?ps"
    using available_full [of "\<lambda>w a. known_pool ops a w" "world s" path] l by simp
  then have "list_all2 (\<lambda>a p. \<exists>w. known_pool ops a w = Some p) path ?ps"
    by (rule list_all2_mono) auto
  with i b p have "built ops B weth arb i \<lparr>lp_cycle = new_cycle i weth ?ps, status = ''load''\<rparr>"
    unfolding built_def by (auto simp: res_bind_Inr_iff in_set_Inr_iff)
  then show "P i \<lparr>lp_cycle = new_cycle i weth ?ps, status = ''load''\<rparr>" by (rule assms)
qed

lemma keeps_builds:
  assumes "\<And>arb k d. arb \<in> set arbs \<Longrightarrow> built ops B weth arb k d \<Longrightarrow> P k d"
  shows "act_keeps R (act_each (build_arb ops B weth) arbs)"
  using assms by (intro act_keeps_each [OF refl trans] keeps_build) auto

end

lemma keyed_frame: "load_frame keeps_keyed (\<lambda>k d. arb_id (lp_cycle d) = k)"
proof
  show "reflp keeps_keyed" and "transp keeps_keyed" by (rule keeps_keyed_refl keeps_keyed_trans)+
qed (auto simp: keeps_keyed_def arbs_keyed_update)

interpretation keyed: load_frame keeps_keyed ops "\<lambda>k d. arb_id (lp_cycle d) = k" for ops
  by (rule keyed_frame)

interpretation only_loads: load_frame loads_only ops "\<lambda>k d. True" for ops
  by unfold_locales (auto simp: loads_only_refl loads_only_trans, auto simp: loads_only_def)

interpretation adds: load_frame "adds_arbs P" ops P for ops P
  by unfold_locales (auto simp: adds_arbs_refl adds_arbs_trans, auto simp: adds_arbs_def update_conv)

interpretation only_world: load_frame world_only ops "\<lambda>k d. False" for ops
  by unfold_locales (auto simp: world_only_refl world_only_trans, auto simp: world_only_def)

section \<open>The course of loading\<close>

lemma world_only_simps:
  assumes "world_only s t"
  shows "all_arbs t = all_arbs s" and "blacklist n t = blacklist n s" and "chain_data t = chain_data s"
    and "attrs t = attrs s"
proof -
  have t: "t = s\<lparr>world := world t\<rparr>" using assms by (simp add: world_only_def)
  show "all_arbs t = all_arbs s" and "blacklist n t = blacklist n s" and "chain_data t = chain_data s"
    and "attrs t = attrs s" by (subst t, simp add: blacklist_def)+
qed

text \<open>Either loading fails before the first arb is built, or it goes through the arbs.\<close>

lemma build_arbs_cases:
  assumes "build_arbs ops data arbs addresses s = (r, t)"
  obtains e where "r = Inl e" and "world_only s t"
  | u B weth where "world_only s u" and "blacklist ''arbs'' s = Inr B"
      and "act_each (build_arb ops B weth) arbs u = (r, t)"
proof -
  obtain r1 u1 where 1: "create_pool_helpers ops data (enum ops addresses) s = (r1, u1)"
    by (cases "create_pool_helpers ops data (enum ops addresses) s")
  have w1: "world_only s u1" by (rule act_keepsD [OF only_world.keeps_helpers 1])
  show thesis
  proof (cases r1)
    case (Inl e)
    with assms 1 have "r = Inl e" and "t = u1" by (auto simp: build_arbs_def act_bind_def)
    with that(1) w1 show thesis by simp
  next
    case (Inr x)
    show thesis
    proof (cases "json_get (chain_data u1) ''wrapped_token''")
      case (Inl e)
      with assms 1 Inr have "r = Inl e" and "t = u1" by (auto simp: build_arbs_def act_bind_def)
      with that(1) w1 show thesis by simp
    next
      case wr: (Inr wrapped)
      obtain r2 u2 where 2: "with_world (erc20 ops wrapped) u1 = (r2, u2)" by (cases "with_world (erc20 ops wrapped) u1")
      have "world_only u1 u2" by (rule act_keepsD [OF world_only_world 2])
      with w1 have w2: "world_only s u2" using world_only_trans by (meson transpE)
      show thesis
      proof (cases r2)
        case (Inl e)
        with assms 1 Inr wr 2 have "r = Inl e" and "t = u2" by (auto simp: build_arbs_def act_bind_def)
        with that(1) w2 show thesis by simp
      next
        case we: (Inr weth)
        show thesis
        proof (cases "blacklist ''arbs'' u2")
          case (Inl e)
          with assms 1 Inr wr 2 we have "r = Inl e" and "t = u2" by (auto simp: build_arbs_def act_bind_def)
          with that(1) w2 show thesis by simp
        next
          case (Inr B)
          have "act_each (build_arb ops B weth) arbs u2 = (r, t)"
            using assms 1 \<open>r1 = Inr x\<close> wr 2 we Inr by (simp add: build_arbs_def act_bind_def)
          moreover have "blacklist ''arbs'' s = Inr B" using Inr world_only_simps(2) [OF w2] by simp
          ultimately show thesis using that(2) w2 by blast
        qed
      qed
    qed
  qed
qed

lemma load_pools_cases:
  assumes "load_pools ops c root chain fs s = (r, t)"
  obtains e where "r = Inl e" and "t = s"
  | e data arbs addresses where "r = Inl e" and "read_data c root chain fs s = Inr (data, arbs, addresses)"
      and "build_arbs ops data arbs addresses s = (Inl e, t)"
  | data arbs addresses u where "r = Inr ()" and "read_data c root chain fs s = Inr (data, arbs, addresses)"
      and "build_arbs ops data arbs addresses s = (Inr (), u)"
      and "t = set_attr ''live'' (JBool True) (set_attr ''pools_loaded'' (JBool True) u)"
proof (cases "read_data c root chain fs s")
  case (Inl e)
  with assms that(1) show thesis by (auto simp: load_pools_def act_bind_def)
next
  case (Inr x)
  obtain data arbs addresses where x: "x = (data, arbs, addresses)" by (cases x)
  show thesis
  proof (cases "get_attr ''first_event'' s")
    case (Inl e)
    with assms Inr x that(1) show thesis by (auto simp: load_pools_def act_bind_def)
  next
    case fe: (Inr first_event)
    show thesis
    proof (cases "truthy first_event")
      case False
      with assms Inr x fe that(1) show thesis by (auto simp: load_pools_def act_bind_def act_raise_def)
    next
      case True
      obtain r1 u where b: "build_arbs ops data arbs addresses s = (r1, u)"
        by (cases "build_arbs ops data arbs addresses s")
      show thesis
      proof (cases r1)
        case (Inl e)
        with assms Inr x fe True b have "r = Inl e" and "t = u" by (auto simp: load_pools_def act_bind_def)
        with that(2) Inr x b Inl show thesis by simp
      next
        case ok: (Inr y)
        with assms Inr x fe True b have "r = Inr ()"
          and "t = set_attr ''live'' (JBool True) (set_attr ''pools_loaded'' (JBool True) u)"
          by (auto simp: load_pools_def act_bind_def act_update_def)
        with that(3) Inr x b ok show thesis by simp
      qed
    qed
  qed
qed

lemma set_attr_simps [simp]:
  "all_arbs (set_attr k v s) = all_arbs s" "blacklists (set_attr k v s) = blacklists s"
  "world (set_attr k v s) = world s" "pool_managers (set_attr k v s) = pool_managers s"
  by (simp_all add: set_attr_def)

section \<open>The token blacklist is only counted\<close>

lemma res_map_ok: "(\<exists>ys. res_map f xs = Inr ys) \<longleftrightarrow> (\<forall>x\<in>set xs. \<exists>y. f x = Inr y)"
  by (induction xs) (auto simp: res_bind_Inr_iff)

lemma res_map_okD: "res_map f xs = Inr ys \<Longrightarrow> x \<in> set xs \<Longrightarrow> \<exists>y. f x = Inr y"
  using res_map_ok [of f xs] by blast

lemma token_of_ok:
  assumes "token_of P data field a x = Inr X" and "has_data data a = Inr b"
  shows "\<exists>Z. token_of (Inr T) data field a x = Inr Z"
proof -
  from assms(1) obtain t where t: "json_get x field = Inr t"
    by (auto simp: token_of_def res_bind_Inr_iff)
  show ?thesis
  proof (cases "truthy t")
    case False
    with t show ?thesis by (simp add: token_of_def)
  next
    case True
    with assms(1) t obtain s bl where "in_set t s = Inr bl"
      by (auto simp: token_of_def res_bind_Inr_iff)
    then have "in_set t T = Inr (t \<in> T)" by (simp add: in_set_Inr_iff)
    with True t assms(2) show ?thesis by (cases "t \<in> T") (simp_all add: token_of_def)
  qed
qed

lemma path_tokens_ok:
  assumes tokens: "path_tokens P data field arb = Inr X" and pools: "path_pools data arb = Inr Y"
  shows "\<exists>Z. path_tokens (Inr T) data field arb = Inr Z"
proof -
  let ?outer = "\<lambda>Q a. res_bind (res_bind (json_get arb ''pools'') json_values) (res_map (token_of Q data field a))"
  from tokens obtain kvs where arb: "arb = JObj kvs"
    by (cases arb) (auto simp: path_tokens_def)
  from pools obtain path sets where path: "res_bind (json_key arb ''path'') json_iter = Inr path"
    and sets: "res_map (\<lambda>a. res_bind (has_data data a) (\<lambda>b. Inr (if b then {a} else {}))) path = Inr sets"
    unfolding path_pools_def by (auto elim!: res_bind_InrE)
  have get: "res_bind (json_get arb ''path'') json_iter = Inr path"
    using path arb by (auto simp: res_bind_Inr_iff)
  obtain tsets where outer: "res_map (?outer P) path = Inr tsets"
    using tokens unfolding path_tokens_def get res_bind_simps by (rule res_bind_InrE)
  have "\<exists>y. ?outer (Inr T) a = Inr y" if a: "a \<in> set path" for a
  proof -
    from res_map_okD [OF outer a] obtain ps ys where ps: "res_bind (json_get arb ''pools'') json_values = Inr ps"
      and ys: "res_map (token_of P data field a) ps = Inr ys" by (auto elim!: res_bind_InrE)
    from res_map_okD [OF sets a] obtain b where "has_data data a = Inr b" by (auto elim!: res_bind_InrE)
    then have "\<forall>x\<in>set ps. \<exists>y. token_of (Inr T) data field a x = Inr y"
      using res_map_okD [OF ys] token_of_ok by blast
    then obtain zs where "res_map (token_of (Inr T) data field a) ps = Inr zs" using res_map_ok by blast
    with ps show ?thesis by simp
  qed
  then obtain zs where "res_map (?outer (Inr T)) path = Inr zs"
    using res_map_ok [of "?outer (Inr T)" path] by (elim iffE) blast
  with get show ?thesis by (simp add: path_tokens_def)
qed

lemma unique_tokens_ok:
  assumes "unique_tokens P data arbs = Inr X" and "unique_pool_addresses data arbs = Inr Y"
  shows "\<exists>Z. unique_tokens (Inr T) data arbs = Inr Z"
proof -
  obtain ys where pools: "res_map (path_pools data) arbs = Inr ys"
    using assms(2) unfolding unique_pool_addresses_def by (auto elim!: res_bind_InrE)
  have again: "\<exists>ys. res_map (path_tokens (Inr T) data field) arbs = Inr ys"
    if "res_map (path_tokens P data field) arbs = Inr zs" for field zs
    using res_map_okD [OF that] res_map_okD [OF pools] path_tokens_ok unfolding res_map_ok by meson
  obtain t0 t1 where "res_map (path_tokens P data ''token0'') arbs = Inr t0"
    "res_map (path_tokens P data ''token1'') arbs = Inr t1"
    using assms(1) unfolding unique_tokens_def by (auto elim!: res_bind_InrE)
  from this [THEN again] show ?thesis unfolding unique_tokens_def by auto
qed

section \<open>Creating the managers\<close>

text \<open>The factories whose version gets a manager.\<close>

definition managed :: "(string \<times> json) list \<Rightarrow> json \<Rightarrow> bool" where
  "managed versions a \<longleftrightarrow> (\<exists>version exchanges kvs name info.
     (version, exchanges) \<in> set versions \<and> version \<in> {''v2'', ''v3''} \<and> json_items exchanges = Inr kvs \<and>
     (name, info) \<in> set kvs \<and> json_get info ''factory_address'' = Inr a)"

definition only_managers :: "json set \<Rightarrow> ('p, 'm, 'w) bot_state \<Rightarrow> ('p, 'm, 'w) bot_state \<Rightarrow> bool" where
  "only_managers F s t \<longleftrightarrow> t = s\<lparr>pool_managers := pool_managers t, world := world t\<rparr> \<and>
     set (map fst (pool_managers t)) \<subseteq> set (map fst (pool_managers s)) \<union> F \<and>
     set (map fst (pool_managers s)) \<subseteq> set (map fst (pool_managers t))"

lemma only_managers_refl: "reflp (only_managers F)"
  by (simp add: reflp_def only_managers_def)

lemma only_managers_trans: "transp (only_managers F)"
proof (rule transpI)
  fix x y z
  assume 1: "only_managers F x y" and 2: "only_managers F y z"
  then have y: "y = x\<lparr>pool_managers := pool_managers y, world := world y\<rparr>"
    and z: "z = y\<lparr>pool_managers := pool_managers z, world := world z\<rparr>" by (auto simp: only_managers_def)
  have "z = x\<lparr>pool_managers := pool_managers z, world := world z\<rparr>" by (subst z, subst y) simp
  with 1 2 show "only_managers F x z" unfolding only_managers_def by blast
qed

lemma only_managers_world: "act_keeps (only_managers F) (with_world f)"
  by (auto simp: act_keeps_def with_world_def only_managers_def split: prod.split)

lemma store_manager_keeps: "a \<in> F \<Longrightarrow> act_keeps (only_managers F) (store_manager a m)"
  by (cases "hashable a")
    (auto simp: store_manager_def act_keeps_def act_update_def act_raise_def only_managers_def AList.update_keys)

lemmas only_managers_intros =
  act_keeps_basic [OF only_managers_refl] act_keeps_bind [OF only_managers_trans] act_keeps_if
  act_keeps_each [OF only_managers_refl only_managers_trans] only_managers_world store_manager_keeps
  act_keeps_prod

lemma create_manager_keeps:
  assumes "\<And>a. version \<in> {''v2'', ''v3''} \<Longrightarrow> json_get info ''factory_address'' = Inr a \<Longrightarrow> a \<in> F"
  shows "act_keeps (only_managers F) (create_manager ops version info)"
  unfolding create_manager_def
  by (intro act_keeps_bind_lift [OF only_managers_refl] only_managers_intros) (use assms in auto)

lemma create_manager_Inr:
  assumes "create_manager ops version info s = (Inr (), t)" and "version \<in> {''v2'', ''v3''}"
    and "json_get info ''factory_address'' = Inr a"
  shows "a \<in> set (map fst (pool_managers t))"
proof -
  have stored: "a \<in> fst ` set (pool_managers u)" if "store_manager a m v = (Inr (), u)" for m v u
    using that by (cases "hashable a") (auto simp: store_manager_def act_update_def act_raise_def dom_update)
  from assms show ?thesis
    by (auto simp: create_manager_def stored elim!: act_bind_InrD)
qed

lemma create_managers_keeps: "act_keeps (only_managers {a. managed versions a}) (create_managers ops versions)"
  unfolding create_managers_def
proof (rule act_keeps_each [OF only_managers_refl only_managers_trans])
  fix x assume x: "x \<in> set versions"
  obtain version exchanges where v: "x = (version, exchanges)" by (cases x)
  show "act_keeps (only_managers {a. managed versions a}) (case x of (version, exs) \<Rightarrow>
      act_bind (act_lift (json_items exs))
        (act_each (\<lambda>(exchange_name, factory_info). create_manager ops version factory_info)))"
    unfolding v prod.case
  proof (rule act_keeps_bind_lift [OF only_managers_refl], rule act_keeps_each [OF only_managers_refl only_managers_trans])
    fix kvs y assume kvs: "json_items exchanges = Inr kvs" and y: "y \<in> set kvs"
    obtain name info where n: "y = (name, info)" by (cases y)
    show "act_keeps (only_managers {a. managed versions a})
        (case y of (exchange_name, factory_info) \<Rightarrow> create_manager ops version factory_info)"
      unfolding n prod.case
    proof (rule create_manager_keeps)
      fix a assume "version \<in> {''v2'', ''v3''}" and "json_get info ''factory_address'' = Inr a"
      with x v kvs y n show "a \<in> {a. managed versions a}" unfolding managed_def mem_Collect_eq by blast
    qed
  qed
qed

lemma create_managers_Inr:
  assumes "create_managers ops versions s = (Inr (), t)" and "managed versions a"
  shows "a \<in> set (map fst (pool_managers t))"
proof -
  let ?R = "only_managers UNIV"
  have keeps: "act_keeps ?R (create_manager ops version info)" for version info
    by (rule create_manager_keeps) simp
  from assms(2) obtain version exchanges kvs name info where m: "(version, exchanges) \<in> set versions"
    "version \<in> {''v2'', ''v3''}" "json_items exchanges = Inr kvs" "(name, info) \<in> set kvs"
    "json_get info ''factory_address'' = Inr a" unfolding managed_def by blast
  let ?f = "\<lambda>(version, exs). act_bind (act_lift (json_items exs))
        (act_each (\<lambda>(exchange_name, factory_info). create_manager ops version factory_info))"
  have "act_keeps ?R (?f x)" for x
    by (cases x) (auto intro!: only_managers_intros keeps)
  from act_each_InrD [OF assms(1) [unfolded create_managers_def] m(1) only_managers_refl only_managers_trans this]
  obtain u v where turn: "?f (version, exchanges) u = (Inr (), v)" and later: "?R v t" by blast
  from turn m(3) have each: "act_each (\<lambda>(exchange_name, factory_info). create_manager ops version factory_info) kvs u
      = (Inr (), v)" by simp
  have "act_keeps ?R (case x of (exchange_name, factory_info) \<Rightarrow> create_manager ops version factory_info)" for x
    by (cases x) (simp add: keeps)
  then obtain u' v' where "create_manager ops version info u' = (Inr (), v')" and "?R v' v"
    by (rule act_each_InrD [OF each m(4) only_managers_refl only_managers_trans]) (use that in simp)
  from create_manager_Inr [OF this(1) m(2,5)] this(2) later show ?thesis
    unfolding only_managers_def by blast
qed

lemma load_pools_keyed:
  assumes "arbs_keyed (all_arbs s)" and "load_pools ops c root chain fs s = (r, t)"
  shows "arbs_keyed (all_arbs t)"
proof -
  have built_keyed: "keeps_keyed s u" if "build_arbs ops data arbs addresses s = (r', u)" for data arbs addresses r' u
    using that
  proof (cases rule: build_arbs_cases)
    case 1
    then show ?thesis by (simp add: keeps_keyed_def world_only_simps)
  next
    case (2 v B weth)
    have "act_keeps keeps_keyed (act_each (build_arb ops B weth) arbs)"
      by (rule keyed.keeps_builds) (auto simp: built_def new_cycle_def)
    from act_keepsD [OF this 2(3)] world_only_simps(1) [OF 2(1)] show ?thesis
      by (simp add: keeps_keyed_def)
  qed
  from assms(2) show ?thesis
    by (cases rule: load_pools_cases) (use assms(1) built_keyed in \<open>auto simp: keeps_keyed_def\<close>)
qed

lemma load_chain_pools_cases:
  assumes "load_chain_pools ops c root fs s = (r, t)"
  obtains e where "r = Inl e" and "t = s" | chain where "load_pools ops c root chain fs s = (r, t)"
proof (cases "get_attr ''chain_name'' s")
  case (Inl e)
  with assms that(1) show thesis by (auto simp: load_chain_pools_def act_bind_def)
next
  case (Inr v)
  show thesis
  proof (cases "\<exists>name. v = JStr name")
    case True
    with assms Inr that(2) show thesis by (auto simp: load_chain_pools_def act_bind_def)
  next
    case False
    let ?r = "res_bind (json_get (chain_data s) ''factories'') (\<lambda>f.
       res_bind (json_get f ''v2'') (\<lambda>_. res_bind (json_get f ''v3'') (\<lambda>_. Inl TypeError :: unit res)))"
    from assms Inr False have "r = ?r" "t = s"
      by (cases v; simp add: load_chain_pools_def act_bind_def)+
    moreover have "\<exists>e. ?r = Inl e" by (auto simp: res_bind_def split: sum.split)
    ultimately show thesis using that(1) by blast
  qed
qed

end
