(* ===== verification/Build_And_Load.thy ===== *)
theory Build_And_Load
  imports Arbs_3Pool_Properties Pool_Correct
begin

text \<open>
  From the builders to the bot: the type of the entries that both builders of arbitrage paths
  write, and what \<open>PoolService\<close> reads from the files when both scripts have run for its chain.
\<close>

section \<open>The type of a paths file\<close>

text \<open>An entry under the key \<open>k\<close> for a path of \<open>n\<close> pools.\<close>

definition typed_entry :: "nat \<Rightarrow> string \<Rightarrow> json \<Rightarrow> bool" where
  "typed_entry n k e \<longleftrightarrow> (\<exists>pools types addresses.
     e = JObj [(''id'', JStr k), (''pools'', JObj pools), (''arb_types'', JList (map JStr types)),
       (''path'', JList (map JStr addresses))] \<and>
     length addresses = n \<and> distinct (map fst pools) \<and> set (map fst pools) = set addresses)"

definition typed_paths :: "nat \<Rightarrow> (string, json) dict \<Rightarrow> bool" where
  "typed_paths n d \<longleftrightarrow> (\<forall>(k, e)\<in>set d. typed_entry n k e)"

lemma typed_paths_Nil [simp]: "typed_paths n []"
  by (simp add: typed_paths_def)

lemma typed_paths_update: "typed_paths n d \<Longrightarrow> typed_entry n k e \<Longrightarrow> typed_paths n (AList.update k e d)"
  using set_update_subset [of k e d] by (fastforce simp: typed_paths_def)

lemma json_strings: "res_map json_string xs = Inr ys \<longleftrightarrow> xs = map JStr ys"
proof (induction xs arbitrary: ys)
  case (Cons x xs)
  then show ?case by (cases x; cases ys) (auto simp: res_bind_Inr_iff)
qed auto

text \<open>The object of a path: its keys are the addresses.\<close>

lemma typed_entry_of:
  assumes "length pools = length addresses"
  shows "typed_entry (length addresses) k (JObj [(''id'', JStr k),
     (''pools'', JObj (dict_fill fst snd (zip addresses pools) [])), (''arb_types'', JList (map JStr types)),
     (''path'', JList (map JStr addresses))])"
proof -
  let ?d = "dict_fill fst snd (zip addresses pools) []"
  have "fst ` set (zip addresses pools) = set (map fst (zip addresses pools))" by simp
  with assms have "fst ` set (zip addresses pools) = set addresses" by (simp only: map_fst_zip)
  then have "set (map fst ?d) = set addresses" by (simp add: dict_fill_keys del: set_map)
  moreover have "distinct (map fst ?d)" by (rule dict_fill_distinct) simp
  ultimately show ?thesis unfolding typed_entry_def by (intro exI conjI refl) simp_all
qed

lemma path_entry_typed:
  assumes "path_entry h pools = Inr e"
  shows "typed_entry (length pools) h e"
proof -
  from assms obtain keys where a: "res_map (\<lambda>p. json_get p ''pool_address'') pools = Inr (map JStr keys)"
    "e = JObj [(''id'', JStr h), (''pools'', JObj (dict_fill fst snd (zip keys pools) [])),
      (''arb_types'', JList [JStr ''cycle'']), (''path'', JList (map JStr keys))]"
    by (auto simp: path_entry_def res_bind_Inr_iff json_strings)
  have "length pools = length keys" using res_map_length [OF a(1)] by simp
  from typed_entry_of [OF this, of h "[''cycle'']"] a(2) this show ?thesis by simp
qed

lemma add_path_typed:
  assumes "add_path keccak pools d = Inr d'" and "typed_paths (length pools) d"
  shows "typed_paths (length pools) d'"
proof -
  from assms(1) obtain h keys where a: "res_map (\<lambda>(a, _). json_string a) pools = Inr keys"
    "d' = AList.update h (JObj [(''id'', JStr h), (''pools'', JObj (dict_fill fst snd (zip keys (map snd pools)) [])),
      (''arb_types'', JList [JStr ''cycle'', JStr ''flash_borrow_lp_swap'']), (''path'', JList (map fst pools))]) d"
    by (auto simp: add_path_def res_bind_Inr_iff)
  have "res_map (\<lambda>(a, _). json_string a) ps = res_map json_string (map fst ps)" for ps :: "(json \<times> json) list"
    by (induction ps) auto
  with a(1) have k: "map fst pools = map JStr keys" by (simp add: json_strings)
  then have "length (map snd pools) = length keys" by (metis length_map)
  from typed_entry_of [OF this, of h "[''cycle'', ''flash_borrow_lp_swap'']"] this assms(2)
  show ?thesis unfolding a(2) k by (intro typed_paths_update) simp_all
qed

section \<open>Everything the builders store is typed\<close>

lemma second_pools_typed:
  "second_pools keccak start a bs d = Inr d' \<Longrightarrow> typed_paths 2 d \<Longrightarrow> typed_paths 2 d'"
proof (induction bs arbitrary: d)
  case (Cons b bs)
  from Cons.prems(1) consider "second_pools keccak start a bs d = Inr d'"
    | h e where "path_entry h [a, b] = Inr e" "second_pools keccak start a bs (AList.update h e d) = Inr d'"
    by (auto simp: res_bind_Inr_iff simp del: res_map.simps split: if_splits)
  then show ?case
  proof cases
    case 1
    then show ?thesis using Cons by blast
  next
    case (2 h e)
    from path_entry_typed [OF 2(1)] have "typed_entry 2 h e" by (simp add: numeral_2_eq_2)
    with 2(2) Cons show ?thesis by (blast intro: typed_paths_update)
  qed
qed simp

lemma first_pools_typed:
  "first_pools keccak start index as d = Inr d' \<Longrightarrow> typed_paths 2 d \<Longrightarrow> typed_paths 2 d'"
proof (induction as arbitrary: d)
  case (Cons a as)
  from Cons.prems(1) consider "first_pools keccak start index as d = Inr d'"
    | bs d1 where "second_pools keccak start a bs d = Inr d1" "first_pools keccak start index as d1 = Inr d'"
    by (auto simp: res_bind_Inr_iff split: if_splits)
  then show ?case by cases (use Cons second_pools_typed in blast)+
qed simp

lemma two_pool_paths_typed: "two_pool_arb_paths keccak start pools = Inr d \<Longrightarrow> typed_paths 2 d"
  by (auto simp: two_pool_arb_paths_def res_bind_Inr_iff intro: first_pools_typed)

lemma add_triples_typed:
  "add_triples keccak data ts d = Inr d' \<Longrightarrow> typed_paths 3 d \<Longrightarrow> typed_paths 3 d'"
proof (induction ts arbitrary: d)
  case (Cons t ts)
  obtain x y z where t: "t = (x, y, z)" by (cases t)
  with Cons.prems(1) obtain a b c d1 d2 where
    "add_path keccak [(lp_address x, a), (lp_address y, b), (lp_address z, c)] d = Inr d1"
    "add_path keccak [(lp_address z, c), (lp_address y, b), (lp_address x, a)] d1 = Inr d2"
    and rest: "add_triples keccak data ts d2 = Inr d'" by (auto simp: res_bind_Inr_iff)
  from this(1,2) [THEN add_path_typed] Cons.prems(2) have "typed_paths 3 d2" by (simp add: numeral_3_eq_3)
  with Cons.IH [OF rest] show ?case .
qed simp

lemma add_pairs_typed:
  "add_pairs ops keccak data w g ps d = Inr d' \<Longrightarrow> typed_paths 3 d \<Longrightarrow> typed_paths 3 d'"
proof (induction ps arbitrary: d)
  case (Cons p ps)
  obtain s t where p: "p = (s, t)" by (cases p)
  from Cons.prems(1) p consider "add_pairs ops keccak data w g ps d = Inr d'"
    | ts d1 where "add_triples keccak data ts d = Inr d1" "add_pairs ops keccak data w g ps d1 = Inr d'"
    by (auto simp: res_bind_Inr_iff split: if_splits)
  then show ?case by cases (use Cons add_triples_typed in blast)+
qed simp

lemma three_pool_paths_typed: "three_pool_arb_paths ops keccak w v2 v3 = Inr d \<Longrightarrow> typed_paths 3 d"
  by (auto simp: three_pool_arb_paths_def res_bind_Inr_iff Let_def intro: add_pairs_typed)

section \<open>Files\<close>

lemma builder_data_path: "chain_file root chain_name name = data_path root chain_name name"
  by (simp add: chain_file_def builder_dir_def data_path_def butlast_append)

lemma build_chain_written:
  assumes "build_chain keccak c root name chain fs = (Inr (), fs')" and "reads_back c"
  obtains kvs where "typed_paths 2 kvs" "read_json c fs' (data_path root name ''_arb_paths_2.json'') = Inr (JObj kvs)"
  using assms(1) unfolding build_chain_def
  by (elim lift_InrE pure_InrE act_bind_InrD)
    (blast dest: two_pool_paths_typed written_back [OF assms(2)] intro: that [unfolded builder_data_path [symmetric]])

lemma build_chain_3_written:
  assumes "build_chain_3 ops keccak c root name chain fs = (Inr (), fs')" and "reads_back c"
  obtains kvs where "typed_paths 3 kvs" "read_json c fs' (data_path root name ''_arb_paths_3.json'') = Inr (JObj kvs)"
    and "read_json c fs' (data_path root name ''_arb_paths_2.json'') = read_json c fs (data_path root name ''_arb_paths_2.json'')"
proof -
  from assms(1) obtain r dirs paths where m: "mkdir (builder_dir root @ [name]) fs = (r, dirs)"
    and t: "typed_paths 3 paths" and w: "write_json c (chain_file root name ''_arb_paths_3.json'') (JObj paths) dirs = (Inr (), fs')"
    unfolding build_chain_3_def
    by (elim lift_InrE pure_InrE act_bind_InrD) (blast dest: three_pool_paths_typed)
  have p: "data_path root name ''_arb_paths_2.json'' \<noteq> chain_file root name ''_arb_paths_3.json''"
    "data_path root name ''_arb_paths_2.json'' \<noteq> builder_dir root @ [name]"
    by (simp_all add: chain_file_def builder_dir_def data_path_def butlast_append)
  show ?thesis
    by (rule that [OF t]) (use written_back [OF assms(2) w] write_other [OF w p(1)] mkdir_other [OF m p(2), of c]
      in \<open>simp_all add: builder_data_path\<close>)
qed

section \<open>What the bot reads\<close>

definition path_of :: "json \<Rightarrow> json list" where
  "path_of e = (case field ''path'' e of JList xs \<Rightarrow> xs | _ \<Rightarrow> [])"

text \<open>An entry is taken over when it is not blacklisted and all pools of its path are known.\<close>

definition takes :: "json set \<Rightarrow> (json, json) dict \<Rightarrow> string \<times> json \<Rightarrow> bool" where
  "takes A data = (\<lambda>(k, e). JStr k \<notin> A \<and> (\<forall>a\<in>set (path_of e). \<exists>p. map_of data a = Some p \<and> truthy p))"

lemma all_known_strings:
  "all_known data (map JStr as) = Inr (\<forall>a\<in>set as. \<exists>p. map_of data (JStr a) = Some p \<and> truthy p)"
  by (induction as) (auto simp: has_data_def dict_get_def split: option.splits)

lemma check_typed_entry: "typed_entry n k e \<Longrightarrow> check_arb (Inr A) data (k, e) = Inr (takes A data (k, e))"
  by (auto simp: typed_entry_def check_arb_def in_set_def all_known_strings takes_def path_of_def field_def dict_index_def)

lemma passed_typed: "typed_paths n kvs \<Longrightarrow> passed_arbs (Inr A) data kvs = Inr (map snd (filter (takes A data) kvs))"
proof (induction kvs)
  case (Cons kv kvs)
  obtain k e where kv: "kv = (k, e)" by (cases kv)
  with Cons.prems have "typed_entry n k e" "typed_paths n kvs" by (simp_all add: typed_paths_def)
  with Cons.IH kv show ?case by (simp add: check_typed_entry)
qed simp


section \<open>Properties\<close>

text \<open>
  C3: When both scripts have run for a chain, every entry of the two files is typed: stored under
  its id, with the string addresses of two or three pools as its path and exactly these as the
  keys of its pool data. The bot reads both files without an exception, and takes over, in their
  order, exactly the entries that are not blacklisted and whose pools it knows.
\<close>

theorem built_paths_are_loaded:
  assumes "build_chain keccak c root name chain fs = (Inr (), fs2)"
    and "build_chain_3 ops keccak c root name chain fs2 = (Inr (), fs3)" and "reads_back c"
  shows "\<exists>kvs2 kvs3.
    read_json c fs3 (data_path root name ''_arb_paths_2.json'') = Inr (JObj kvs2) \<and> (\<forall>(k, e)\<in>set kvs2. typed_entry 2 k e) \<and>
    read_json c fs3 (data_path root name ''_arb_paths_3.json'') = Inr (JObj kvs3) \<and> (\<forall>(k, e)\<in>set kvs3. typed_entry 3 k e) \<and>
    (\<forall>A data. read_arbs c fs3 (Inr A) data (arb_filepaths root name) =
       Inr (map snd (filter (\<lambda>(k, e). JStr k \<notin> A \<and> (\<forall>a\<in>set (path_of e). \<exists>p. map_of data a = Some p \<and> truthy p)) (kvs2 @ kvs3))))"
proof -
  from build_chain_written [OF assms(1,3)] obtain kvs2 where 2: "typed_paths 2 kvs2"
    "read_json c fs2 (data_path root name ''_arb_paths_2.json'') = Inr (JObj kvs2)" .
  from build_chain_3_written [OF assms(2,3)] obtain kvs3 where 3: "typed_paths 3 kvs3"
    "read_json c fs3 (data_path root name ''_arb_paths_3.json'') = Inr (JObj kvs3)"
    "read_json c fs3 (data_path root name ''_arb_paths_2.json'') = read_json c fs2 (data_path root name ''_arb_paths_2.json'')" .
  have "read_arbs c fs3 (Inr A) data (arb_filepaths root name) = Inr (map snd (filter (takes A data) (kvs2 @ kvs3)))" for A data
    using 2 3 by (simp add: arb_filepaths_def passed_typed)
  with 2 3 show ?thesis unfolding typed_paths_def takes_def by auto
qed

definition script_pools :: "json list" where
  "script_pools = [small_pool ''0xp1'' ''W'' ''A'', small_pool ''0xp2'' ''A'' ''B'', small_pool ''0xp3'' ''B'' ''W'',
     small_pool ''0xp4'' ''A'' ''W'']"

definition script_paths :: "nat \<Rightarrow> json" where
  "script_paths n = JObj (case if n = 2 then two_pool_arb_paths small_keccak (JStr ''W'') script_pools
       else three_pool_arb_paths list_graph small_keccak (JStr ''W'') (map (\<lambda>p. (field ''pool_address'' p, p)) script_pools) []
     of Inr d \<Rightarrow> d | Inl _ \<Rightarrow> [])"

text \<open>A codec for the documents of these scripts.\<close>

definition script_codec :: json_codec where
  "script_codec = \<lparr>u_loads = (\<lambda>t. if t = ''pools'' then Inr (JList script_pools)
       else if t = ''two'' then Inr (script_paths 2) else if t = ''three'' then Inr (script_paths 3) else Inl ValueError),
     u_dumps = (\<lambda>v. if v = script_paths 2 then Inr ''two'' else if v = script_paths 3 then Inr ''three'' else Inl ValueError)\<rparr>"

definition script_chain :: json where
  "script_chain = JObj [(''wrapped_token'', JStr ''W''),
     (''factories'', JObj [(''v2'', JObj [(''uni'', JNull)]), (''v3'', JObj [])])]"

definition script_fs :: file_system where
  "script_fs = [([''bots'', ''data''], Dir), ([''bots'', ''data'', ''base''], Dir),
     ([''bots'', ''data'', ''base'', ''base_uni_v2.json''], File ''pools'')]"

definition script_fs_2 :: file_system where
  "script_fs_2 = snd (build_chain small_keccak script_codec [''bots''] ''base'' script_chain script_fs)"

definition script_fs_3 :: file_system where
  "script_fs_3 = snd (build_chain_3 list_graph small_keccak script_codec [''bots''] ''base'' script_chain script_fs_2)"

fun entries_of :: "json \<Rightarrow> (string, json) dict" where
  "entries_of (JObj kvs) = kvs"
| "entries_of _ = []"

theorem built_paths_are_loaded_witness:
  "\<exists>xs. read_arbs script_codec script_fs_3 (Inr {JStr ''hp1p4''}) (map (\<lambda>p. (field ''pool_address'' p, p)) script_pools)
      (arb_filepaths [''bots''] ''base'') = Inr xs \<and>
    map (field ''id'') xs = map JStr [''hp4p1'', ''hp3p2p1'', ''hp1p2p3'', ''hp3p2p4'', ''hp4p2p3'']"
proof -
  have run: "fst (build_chain small_keccak script_codec [''bots''] ''base'' script_chain script_fs) = Inr ()" by code_simp
  have run3: "fst (build_chain_3 list_graph small_keccak script_codec [''bots''] ''base'' script_chain script_fs_2) = Inr ()" by code_simp
  have codec: "reads_back script_codec" by (auto simp: reads_back_def script_codec_def split: if_splits)
  have r: "build_chain small_keccak script_codec [''bots''] ''base'' script_chain script_fs = (Inr (), script_fs_2)"
    "build_chain_3 list_graph small_keccak script_codec [''bots''] ''base'' script_chain script_fs_2 = (Inr (), script_fs_3)"
    using run run3 by (simp_all add: script_fs_2_def script_fs_3_def prod_eq_iff)
  from built_paths_are_loaded [OF r codec] obtain kvs2 kvs3 where
    2: "read_json script_codec script_fs_3 (data_path [''bots''] ''base'' ''_arb_paths_2.json'') = Inr (JObj kvs2)"
    and 3: "read_json script_codec script_fs_3 (data_path [''bots''] ''base'' ''_arb_paths_3.json'') = Inr (JObj kvs3)"
    and all: "\<And>A data. read_arbs script_codec script_fs_3 (Inr A) data (arb_filepaths [''bots''] ''base'') =
       Inr (map snd (filter (\<lambda>(k, e). JStr k \<notin> A \<and> (\<forall>a\<in>set (path_of e). \<exists>p. map_of data a = Some p \<and> truthy p)) (kvs2 @ kvs3)))"
    by blast
  have "read_json script_codec script_fs_3 (data_path [''bots''] ''base'' ''_arb_paths_2.json'') = Inr (script_paths 2)"
    "read_json script_codec script_fs_3 (data_path [''bots''] ''base'' ''_arb_paths_3.json'') = Inr (script_paths 3)"
    by code_simp+
  with 2 3 have "JObj kvs2 = script_paths 2" "JObj kvs3 = script_paths 3" by simp_all
  then have kvs: "kvs2 = entries_of (script_paths 2)" "kvs3 = entries_of (script_paths 3)" by (metis entries_of.simps(1))+
  have known: "(\<exists>p. m = Some p \<and> truthy p) \<longleftrightarrow> (case m of None \<Rightarrow> False | Some p \<Rightarrow> truthy p)" for m
    by (cases m) auto
  have "map (field ''id'') (map snd (filter (\<lambda>(k, e). JStr k \<notin> {JStr ''hp1p4''} \<and>
      (\<forall>a\<in>set (path_of e). case map_of (map (\<lambda>p. (field ''pool_address'' p, p)) script_pools) a of None \<Rightarrow> False | Some p \<Rightarrow> truthy p))
        (entries_of (script_paths 2) @ entries_of (script_paths 3)))) =
      map JStr [''hp4p1'', ''hp3p2p1'', ''hp1p2p3'', ''hp3p2p4'', ''hp4p2p3'']" by code_simp
  then show ?thesis unfolding all known kvs by blast
qed

end
