(* ===== verification/Exchange_Service.thy ===== *)
theory Exchange_Service
  imports Degenbot Py_Files
begin

text \<open>
  \<open>ExchangeService\<close> (app/core/exchange_service.py): it enters the factories of the chain into
  degenbot's deployment tables, and lists routers and aggregators. The tables are module-level
  dictionaries that the service reads itself; entering a deployment is degenbot's and is a
  parameter.
\<close>

section \<open>Deployments\<close>

datatype abi_name = UNISWAP_V2_POOL_ABI | UNISWAP_V3_POOL_ABI | PANCAKESWAP_V3_POOL_ABI

record factory_deployment =
  fd_address :: string
  fd_pool_init_hash :: json
  fd_pool_abi :: abi_name

text \<open>
  \<open>UniswapV2ExchangeDeployment\<close> and \<open>UniswapV3ExchangeDeployment\<close>; the name is the f-string of
  the three parts, and only the latter has a tick lens.
\<close>

record exchange_deployment =
  ed_name :: "json \<times> string \<times> string"
  ed_chain_id :: json
  ed_factory :: factory_deployment
  ed_tick_lens :: "string option"

record router_deployment =
  rd_address :: string
  rd_chain_id :: json
  rd_name :: json

record registry =
  FACTORY_DEPLOYMENTS :: "(json, (string, factory_deployment) dict) dict"
  TICKLENS_DEPLOYMENTS :: "(json, (string, string) dict) dict"
  ROUTER_DEPLOYMENTS :: "(json, (string, router_deployment) dict) dict"
  router_contracts :: "string list"

text \<open>
  The record is extensible: its extension is whatever else the third-party packages hold.
  \<open>router_contracts\<close> are the routers whose details were given a contract under \<open>"w3"\<close>.
\<close>

text \<open>\<open>d.setdefault(k, {})\<close>, and \<open>v.get(k, {})\<close> with the default an empty object.\<close>

definition setdefault :: "json \<Rightarrow> (json, ('k, 'v) dict) dict \<Rightarrow> (json, ('k, 'v) dict) dict" where
  "setdefault k d = (if map_of d k = None then AList.update k [] d else d)"

fun json_get_obj :: "json \<Rightarrow> string \<Rightarrow> json res" where
  "json_get_obj (JObj kvs) k = Inr (case map_of kvs k of None \<Rightarrow> JObj [] | Some v \<Rightarrow> v)"
| "json_get_obj _ k = Inl AttributeError"

section \<open>Factories\<close>

text \<open>
  \<open>checksum\<close> is \<open>to_checksum_address\<close>, \<open>register\<close> is \<open>register_exchange\<close>. An argument that is
  unbound raises in the call, inside the \<open>try\<close>.
\<close>

definition register_bound ::
  "(exchange_deployment \<Rightarrow> ('v registry_scheme, unit) act) \<Rightarrow> exchange_deployment option \<Rightarrow> ('v registry_scheme, unit) act" where
  "register_bound register bound =
     act_logged (case bound of None \<Rightarrow> act_raise UnboundLocalError | Some d \<Rightarrow> register d)"

text \<open>
  One turn of the inner loop. \<open>bound\<close> is the variable \<open>factory_deployment\<close>: it is not reset, so a
  V3 factory of an exchange other than uniswap and pancakeswap passes on what an earlier turn
  left in it.
\<close>

definition v3_abi :: "string \<Rightarrow> abi_name option" where
  "v3_abi exchange_name =
     (if exchange_name = ''uniswap'' then Some UNISWAP_V3_POOL_ABI
      else if exchange_name = ''pancakeswap'' then Some PANCAKESWAP_V3_POOL_ABI else None)"

definition add_factory ::
  "(json \<Rightarrow> string res) \<Rightarrow> (exchange_deployment \<Rightarrow> ('v registry_scheme, unit) act) \<Rightarrow> json \<Rightarrow> json \<Rightarrow> string \<Rightarrow>
     string \<times> json \<Rightarrow> exchange_deployment option \<Rightarrow> ('v registry_scheme, exchange_deployment option) act" where
  "add_factory checksum register chain_id chain_name version = (\<lambda>(exchange_name, factory_info) bound.
     act_bind (act_lift (res_bind (json_get factory_info ''factory_address'') checksum)) (\<lambda>factory_address.
     act_bind (act_lift (json_get factory_info ''pool_init_hash'')) (\<lambda>pool_init_hash.
     act_bind (\<lambda>r. (dict_index (FACTORY_DEPLOYMENTS r) chain_id, r)) (\<lambda>known.
     if map_of known factory_address \<noteq> None then act_return bound
     else if version = ''v2'' then
       let d = \<lparr>ed_name = (chain_name, exchange_name, version), ed_chain_id = chain_id,
             ed_factory = \<lparr>fd_address = factory_address, fd_pool_init_hash = pool_init_hash,
               fd_pool_abi = UNISWAP_V2_POOL_ABI\<rparr>, ed_tick_lens = None\<rparr>
       in act_bind (register_bound register (Some d)) (\<lambda>_. act_return (Some d))
     else if version = ''v3'' then
       act_bind (act_lift (res_bind (json_get factory_info ''tick_lens'') checksum)) (\<lambda>tick_lens.
       let bound' = (case v3_abi exchange_name of
             Some abi \<Rightarrow> Some \<lparr>ed_name = (chain_name, exchange_name, version), ed_chain_id = chain_id,
               ed_factory = \<lparr>fd_address = factory_address, fd_pool_init_hash = pool_init_hash,
                 fd_pool_abi = abi\<rparr>, ed_tick_lens = Some tick_lens\<rparr>
           | None \<Rightarrow> bound)
       in act_bind (register_bound register bound') (\<lambda>_. act_return bound'))
     else act_return bound))))"

definition add_versions ::
  "(json \<Rightarrow> string res) \<Rightarrow> (exchange_deployment \<Rightarrow> ('v registry_scheme, unit) act) \<Rightarrow> json \<Rightarrow> json \<Rightarrow>
     (string \<times> json) list \<Rightarrow> exchange_deployment option \<Rightarrow> ('v registry_scheme, exchange_deployment option) act" where
  "add_versions checksum register chain_id chain_name =
     act_carry (\<lambda>(version, factories) bound.
       act_bind (act_lift (json_items factories)) (\<lambda>kvs.
         act_carry (add_factory checksum register chain_id chain_name version) kvs bound))"

definition add_deployments ::
  "(json \<Rightarrow> string res) \<Rightarrow> (exchange_deployment \<Rightarrow> ('v registry_scheme, unit) act) \<Rightarrow> json \<Rightarrow> ('v registry_scheme, unit) act" where
  "add_deployments checksum register chain =
     act_bind (act_lift (json_key chain ''chain_id'')) (\<lambda>chain_id.
     act_bind (act_lift (json_key chain ''name'')) (\<lambda>chain_name.
     act_bind (act_lift (json_get_obj chain ''factories'')) (\<lambda>factory_data.
     if \<not> hashable chain_id then act_raise TypeError
     else act_bind (act_update (\<lambda>r. r\<lparr>FACTORY_DEPLOYMENTS := setdefault chain_id (FACTORY_DEPLOYMENTS r),
                                  TICKLENS_DEPLOYMENTS := setdefault chain_id (TICKLENS_DEPLOYMENTS r)\<rparr>)) (\<lambda>_.
          act_bind (act_lift (json_items factory_data)) (\<lambda>versions.
          act_bind (add_versions checksum register chain_id chain_name versions None) (\<lambda>_. act_return ()))))))"

section \<open>Routers and aggregators\<close>

text \<open>
  Both methods read a list attribute of the bot and then call \<open>self.get_chain_data()\<close>, which
  \<open>ExchangeService\<close> does not define: \<open>get_chain\<close> is \<open>None\<close> for the class as it stands, and
  otherwise what a subclass would return (chain data, chain id, chain name).
\<close>

definition chain_of ::
  "(json \<times> json \<times> json) option \<Rightarrow> (json \<times> json \<times> json) res" where
  "chain_of get_chain = (case get_chain of None \<Rightarrow> Inl AttributeError | Some c \<Rightarrow> Inr c)"

definition append_attr :: "string \<Rightarrow> string \<Rightarrow> (('p, 'm, 'w) bot_state, unit) act" where
  "append_attr name a =
     act_bind (\<lambda>st. (get_attr name st, st)) (\<lambda>v. case v of
       JList xs \<Rightarrow> act_update (set_attr name (JList (xs @ [JStr a]))) | _ \<Rightarrow> act_raise AttributeError)"

text \<open>
  One router. \<open>register\<close> is \<open>register_router\<close> and \<open>contract\<close> is \<open>w3.eth.contract\<close>; both are tried.
\<close>

definition add_router ::
  "(json \<Rightarrow> string res) \<Rightarrow> (router_deployment \<Rightarrow> ('v registry_scheme, unit) act) \<Rightarrow> (string \<Rightarrow> json \<Rightarrow> unit res) \<Rightarrow>
     json \<Rightarrow> string \<times> json \<Rightarrow> (('p, 'm, 'v registry_scheme) bot_state, unit) act" where
  "add_router checksum register contract chain_id = (\<lambda>(router_key, router_details).
     act_bind (act_lift (checksum (JStr router_key))) (\<lambda>router_address.
     act_bind (act_lift (json_get router_details ''name'')) (\<lambda>router_name.
     act_bind (act_lift (json_get router_details ''exchange'')) (\<lambda>exchange_name.
     act_bind (append_attr ''router_addresses'' router_address) (\<lambda>_.
     act_bind (\<lambda>st. (dict_index (ROUTER_DEPLOYMENTS (world st)) chain_id, st)) (\<lambda>known.
     if map_of known router_address \<noteq> None then act_return ()
     else act_bind (act_logged (with_world
              (register \<lparr>rd_address = router_address, rd_chain_id = chain_id, rd_name = router_name\<rparr>))) (\<lambda>_.
          act_logged (act_bind (act_lift (res_bind (json_key router_details ''abi'') (contract router_address))) (\<lambda>_.
            act_update (\<lambda>st. st\<lparr>world := (world st)\<lparr>router_contracts :=
                              set_add router_key (router_contracts (world st))\<rparr>\<rparr>))))))))))"

text \<open>
  The \<open>set\<close> at the end is a coroutine of the asynchronous Redis client that nobody awaits:
  only its arguments are evaluated.
\<close>

definition dumped_attr :: "json_codec \<Rightarrow> string \<Rightarrow> (('p, 'm, 'w) bot_state, unit) act" where
  "dumped_attr c name =
     act_bind (\<lambda>st. (res_bind (get_attr name st) (u_dumps c), st)) (\<lambda>_. act_return ())"

definition add_routers ::
  "(json \<Rightarrow> string res) \<Rightarrow> (router_deployment \<Rightarrow> ('v registry_scheme, unit) act) \<Rightarrow> (string \<Rightarrow> json \<Rightarrow> unit res) \<Rightarrow>
     json_codec \<Rightarrow> (json \<times> json \<times> json) option \<Rightarrow> (('p, 'm, 'v registry_scheme) bot_state, unit) act" where
  "add_routers checksum register contract c get_chain =
     act_bind (\<lambda>st. (get_attr ''router_addresses'' st, st)) (\<lambda>_.
     act_bind (act_lift (chain_of get_chain)) (\<lambda>(chain, chain_id, chain_name).
     if \<not> truthy chain then act_return ()
     else if \<not> hashable chain_id then act_raise TypeError
     else act_bind (act_update (\<lambda>st. st\<lparr>world := (world st)\<lparr>ROUTER_DEPLOYMENTS :=
              setdefault chain_id (ROUTER_DEPLOYMENTS (world st))\<rparr>\<rparr>)) (\<lambda>_.
          act_bind (act_lift (res_bind (json_get_obj chain ''routers'') json_items)) (\<lambda>routers.
          act_bind (act_each (add_router checksum register contract chain_id) routers) (\<lambda>_.
            dumped_attr c ''router_addresses'')))))"

text \<open>The checksummed address is computed, and the address as it was written is appended.\<close>

definition add_aggregators ::
  "(json \<Rightarrow> string res) \<Rightarrow> json_codec \<Rightarrow> (json \<times> json \<times> json) option \<Rightarrow> (('p, 'm, 'w) bot_state, unit) act" where
  "add_aggregators checksum c get_chain =
     act_bind (\<lambda>st. (get_attr ''aggregator_addresses'' st, st)) (\<lambda>_.
     act_bind (act_lift (chain_of get_chain)) (\<lambda>(chain, chain_id, chain_name).
     if \<not> truthy chain then act_return ()
     else act_bind (act_lift (json_get_obj chain ''aggregators'')) (\<lambda>aggregators_data.
          act_bind
            (if aggregators_data = JNull then act_return ()
             else act_bind (act_lift (json_items aggregators_data)) (\<lambda>kvs.
                  act_each (\<lambda>(aggregator_address, _).
                    act_bind (act_lift (checksum (JStr aggregator_address))) (\<lambda>_.
                      append_attr ''aggregator_addresses'' aggregator_address)) kvs)) (\<lambda>_.
            dumped_attr c ''aggregator_addresses''))))"

end
