(* ===== verification/Bootstrap_Service.thy ===== *)
theory Bootstrap_Service
  imports Bot_State Py_Files
begin

text \<open>
  \<open>BootstrapService\<close> (app/core/bootstrap_service.py), which copies thirteen named values of the
  published application state into the bot state, and the Redis helpers of config/helpers.py.
\<close>

section \<open>Copying the application state\<close>

definition relevant_keys :: "string list" where
  "relevant_keys =
     [''average_blocktime'', ''base_fee_last'', ''base_fee_next'', ''chain_id'', ''chain_name'',
      ''first_block'', ''first_event'', ''newest_block'', ''newest_block_timestamp'', ''live'',
      ''node'', ''watching_blocks'', ''watching_events'']"

fun copy_keys :: "string list \<Rightarrow> json \<Rightarrow> (('p, 'm, 'w) bot_state, unit) act" where
  "copy_keys [] app_state = act_return ()"
| "copy_keys (key # keys) app_state =
     act_bind (act_lift (json_contains app_state key)) (\<lambda>present.
     if present
     then act_bind (act_lift (json_key app_state key)) (\<lambda>v.
          act_bind (act_update (set_attr key v)) (\<lambda>_. copy_keys keys app_state))
     else copy_keys keys app_state)"

definition update_bot_state :: "json \<Rightarrow> (('p, 'm, 'w) bot_state, unit) act" where
  "update_bot_state app_state = copy_keys relevant_keys app_state"

text \<open>One message of \<open>cream_app_state\<close>; \<open>parse\<close> is \<open>ujson.loads(x.decode('utf-8'))\<close>.\<close>

definition state_message :: "(json \<Rightarrow> json res) \<Rightarrow> json \<Rightarrow> (('p, 'm, 'w) bot_state, unit) act" where
  "state_message parse message =
     act_bind (act_lift (json_key message ''type'')) (\<lambda>ty.
     if ty \<noteq> JStr ''message'' then act_return ()
     else act_bind (act_lift (res_bind (json_key message ''data'') parse)) update_bot_state)"

text \<open>
  \<open>start\<close>: the try block is outside the loop, so the first exception of any kind ends the
  service. The result says whether the service is still listening.
\<close>

fun bootstrap_start ::
  "(json \<Rightarrow> json res) \<Rightarrow> json list \<Rightarrow> ('p, 'm, 'w) bot_state \<Rightarrow> bool \<times> ('p, 'm, 'w) bot_state" where
  "bootstrap_start parse [] st = (True, st)"
| "bootstrap_start parse (m # ms) st =
     (case state_message parse m st of
        (Inl e, t) \<Rightarrow> (False, t)
      | (Inr _, t) \<Rightarrow> bootstrap_start parse ms t)"

section \<open>Redis values\<close>

text \<open>
  The Redis client: \<open>r_get\<close> returns the stored bytes or nothing, \<open>r_set\<close> stores, \<open>r_publish\<close>
  sends; each may raise. The helpers return \<open>None\<close> (here \<open>JNull\<close>) when anything goes wrong.
\<close>

record 'r redis_client =
  r_get :: "'r \<Rightarrow> string \<Rightarrow> string option res"
  r_set :: "string \<Rightarrow> string \<Rightarrow> 'r \<Rightarrow> unit res \<times> 'r"
  r_publish :: "string \<Rightarrow> string \<Rightarrow> 'r \<Rightarrow> unit res \<times> 'r"

definition get_redis_value :: "'r redis_client \<Rightarrow> json_codec \<Rightarrow> string \<Rightarrow> 'r \<Rightarrow> json res" where
  "get_redis_value cl c key r =
     (case res_bind (r_get cl r key) (\<lambda>result.
             case result of None \<Rightarrow> Inr JNull | Some text \<Rightarrow> if text = [] then Inr JNull else u_loads c text) of
        Inl e \<Rightarrow> if is_Exception e then Inr JNull else Inl e
      | Inr v \<Rightarrow> Inr v)"

definition set_redis_value :: "'r redis_client \<Rightarrow> json_codec \<Rightarrow> string \<Rightarrow> json \<Rightarrow> 'r \<Rightarrow> unit res \<times> 'r" where
  "set_redis_value cl c key v =
     act_try (act_bind (act_lift (u_dumps c v)) (\<lambda>text. r_set cl key text))
       (\<lambda>e. if is_Exception e then act_return () else act_raise e) (\<lambda>_. act_return ())"

definition publish_redis_message ::
  "'r redis_client \<Rightarrow> json_codec \<Rightarrow> string \<Rightarrow> json \<Rightarrow> 'r \<Rightarrow> unit res \<times> 'r" where
  "publish_redis_message cl c channel v =
     act_try (act_bind (act_lift (u_dumps c v)) (\<lambda>text. r_publish cl channel text))
       (\<lambda>e. if is_Exception e then act_return () else act_raise e) (\<lambda>_. act_return ())"

section \<open>What copying does\<close>

text \<open>The values of an application state that is an object.\<close>

definition copied :: "(string \<times> json) list \<Rightarrow> string list \<Rightarrow> (string, json) dict \<Rightarrow> (string, json) dict" where
  "copied kvs keys d = fold (\<lambda>k d. case map_of kvs k of None \<Rightarrow> d | Some v \<Rightarrow> AList.update k v d) keys d"

lemma copy_keys_object: "copy_keys keys (JObj kvs) st = (Inr (), st\<lparr>attrs := copied kvs keys (attrs st)\<rparr>)"
  by (induction keys arbitrary: st)
    (auto simp: act_return_def set_attr_def copied_def dict_index_def split: option.split)

lemma copied_get:
  "map_of (copied kvs keys d) k =
     (if k \<in> set keys \<and> map_of kvs k \<noteq> None then map_of kvs k else map_of d k)"
  by (induction keys arbitrary: d) (auto simp: copied_def update_conv split: option.split)

definition only_relevant :: "('p, 'm, 'w) bot_state \<Rightarrow> ('p, 'm, 'w) bot_state \<Rightarrow> bool" where
  "only_relevant s t \<longleftrightarrow>
     t = s\<lparr>attrs := attrs t\<rparr> \<and> (\<forall>k. k \<notin> set relevant_keys \<longrightarrow> get_attr k t = get_attr k s)"

lemma only_relevant_refl: "reflp only_relevant"
  by (simp add: reflp_def only_relevant_def)

lemma only_relevant_trans: "transp only_relevant"
proof (rule transpI)
  fix x y z :: "('p, 'm, 'w) bot_state"
  assume "only_relevant x y" and "only_relevant y z"
  then have y: "y = x\<lparr>attrs := attrs y\<rparr>" and z: "z = y\<lparr>attrs := attrs z\<rparr>"
    and g: "k \<notin> set relevant_keys \<Longrightarrow> get_attr k z = get_attr k x" for k
    by (auto simp: only_relevant_def)
  have "z = x\<lparr>attrs := attrs z\<rparr>" by (subst z, subst y) simp
  with g show "only_relevant x z" by (auto simp: only_relevant_def)
qed

lemma only_relevant_set: "k \<in> set relevant_keys \<Longrightarrow> act_keeps only_relevant (act_update (set_attr k v))"
  by (auto simp: act_keeps_def act_update_def only_relevant_def set_attr_def get_attr_def update_conv)

lemmas only_relevant_intros =
  act_keeps_basic [OF only_relevant_refl] act_keeps_bind [OF only_relevant_trans]

lemma copy_keys_only_relevant:
  "set keys \<subseteq> set relevant_keys \<Longrightarrow> act_keeps only_relevant (copy_keys keys app_state)"
  by (induction keys) (auto intro!: only_relevant_intros act_keeps_if only_relevant_set)

lemma state_message_only_relevant: "act_keeps only_relevant (state_message parse m)"
  unfolding state_message_def update_bot_state_def
  by (intro only_relevant_intros act_keeps_if copy_keys_only_relevant) simp

lemma bootstrap_start_append:
  "bootstrap_start parse (ms @ ns) st =
     (case bootstrap_start parse ms st of (True, t) \<Rightarrow> bootstrap_start parse ns t | (False, t) \<Rightarrow> (False, t))"
  by (induction ms arbitrary: st) (auto split: prod.split sum.split)

section \<open>Properties\<close>

text \<open>
  A run of the service, whatever the messages are, changes no attribute of the bot other
  than the thirteen relevant ones.
\<close>

theorem bootstrap_changes_only_relevant:
  "only_relevant st (snd (bootstrap_start parse ms st))"
proof (induction ms arbitrary: st)
  case Nil
  then show ?case by (simp add: only_relevant_def)
next
  case (Cons m ms)
  obtain r t where m: "state_message parse m st = (r, t)" by (cases "state_message parse m st")
  have "only_relevant st t" by (rule act_keepsD [OF state_message_only_relevant m])
  moreover have "only_relevant t (snd (bootstrap_start parse ms t))" by (rule Cons.IH)
  ultimately have "only_relevant st (snd (bootstrap_start parse ms t))"
    using only_relevant_trans by (blast elim: transpE)
  with m \<open>only_relevant st t\<close> show ?case by (cases r) simp_all
qed

text \<open>
  C34: After a sequence of well-formed state messages the service still listens, and a relevant
  attribute holds the value of the last message that carried it.
\<close>

theorem bootstrap_last_value_wins:
  assumes "\<forall>m\<in>set ms. \<exists>d kvs. json_key m ''type'' = Inr (JStr ''message'') \<and>
             json_key m ''data'' = Inr d \<and> parse d = Inr (JObj kvs)"
    and "k \<in> set relevant_keys"
  shows "fst (bootstrap_start parse ms st) \<and>
         get_attr k (snd (bootstrap_start parse ms st)) =
           fold (\<lambda>m old. case res_bind (res_bind (json_key m ''data'') parse) (\<lambda>v. json_key v k) of
                    Inl _ \<Rightarrow> old | Inr v \<Rightarrow> Inr v) ms (get_attr k st)"
  using assms(1)
proof (induction ms arbitrary: st)
  case (Cons m ms)
  then obtain d kvs where m: "json_key m ''type'' = Inr (JStr ''message'')" "json_key m ''data'' = Inr d"
    "parse d = Inr (JObj kvs)" by auto
  let ?t = "st\<lparr>attrs := copied kvs relevant_keys (attrs st)\<rparr>"
  have "state_message parse m st = (Inr (), ?t)"
    using m by (simp add: state_message_def update_bot_state_def copy_keys_object)
  moreover have "get_attr k ?t = (case json_key (JObj kvs) k of Inl _ \<Rightarrow> get_attr k st | Inr v \<Rightarrow> Inr v)"
    using assms(2) by (auto simp: get_attr_def copied_get dict_index_def split: option.split)
  ultimately show ?case using Cons m by simp
qed simp

definition demo_state_messages :: "json list" where
  "demo_state_messages =
     [JObj [(''type'', JStr ''message''), (''data'', JObj [(''newest_block'', JInt 7), (''live'', JBool True)])],
      JObj [(''type'', JStr ''message''), (''data'', JObj [(''newest_block'', JInt 8), (''owner'', JInt 1)])]]"

definition blank_state :: "(string, string, nat) bot_state" where
  "blank_state = \<lparr>attrs = [], aggregators = JNull, all_arbs = [], blacklists = None, chain_data = JNull,
     factories = JNull, failed_transactions = {}, pool_managers = [], pools_to_process = q_empty,
     routers = JNull, spawned = [], world = 0\<rparr>"

theorem bootstrap_last_value_wins_witness:
  "get_attr ''newest_block'' (snd (bootstrap_start Inr demo_state_messages blank_state)) = Inr (JInt 8)"
proof -
  have "\<forall>m\<in>set demo_state_messages. \<exists>d kvs. json_key m ''type'' = Inr (JStr ''message'') \<and>
      json_key m ''data'' = Inr d \<and> Inr d = (Inr (JObj kvs) :: json res)"
    by (simp add: demo_state_messages_def)
  from bootstrap_last_value_wins [OF this, of "''newest_block''" blank_state] show ?thesis
    by (simp add: relevant_keys_def demo_state_messages_def dict_index_def)
qed

text \<open>
  The first message that raises ends the service: however many messages follow, none of
  them reaches the bot.
\<close>

theorem bootstrap_ends_at_first_error:
  assumes "bootstrap_start parse ms st = (True, s)" and "state_message parse m s = (Inl e, t)"
  shows "bootstrap_start parse (ms @ m # later) st = (False, t)"
  using assms by (simp add: bootstrap_start_append)

theorem bootstrap_ends_at_first_error_witness:
  "bootstrap_start Inr (JInt 1 # demo_state_messages) blank_state = (False, blank_state)"
proof -
  have "bootstrap_start Inr [] blank_state = (True, blank_state)" by simp
  moreover have "state_message Inr (JInt 1) blank_state = (Inl TypeError, blank_state)"
    by (simp add: state_message_def act_raise_def)
  ultimately show ?thesis
    using bootstrap_ends_at_first_error [of Inr "[]" blank_state blank_state "JInt 1"] by fastforce
qed

text \<open>
  A value that was set is read back, when the client keeps what it stores and the text of
  the value is not empty; and whatever the client or the parser raises short of a cancellation,
  reading returns \<open>None\<close> instead of raising.
\<close>

theorem redis_value_roundtrip:
  assumes "\<forall>text r'. r_set cl key text r = (Inr (), r') \<longrightarrow> r_get cl r' key = Inr (Some text)"
    and "u_dumps c v = Inr text" and "text \<noteq> []" and "u_loads c text = Inr v"
    and "r_set cl key text r = (x, r')"
  shows "case x of
           Inr _ \<Rightarrow> set_redis_value cl c key v r = (Inr (), r') \<and> get_redis_value cl c key r' = Inr v
         | Inl e \<Rightarrow> is_Exception e \<longrightarrow> set_redis_value cl c key v r = (Inr (), r')"
proof (cases x)
  case (Inl e)
  then show ?thesis using assms(2,5) by (simp add: set_redis_value_def act_try_def act_return_def)
next
  case (Inr u)
  with assms show ?thesis
    by (simp add: set_redis_value_def get_redis_value_def act_try_def act_return_def)
qed

definition demo_redis :: "(string, string) dict redis_client" where
  "demo_redis = \<lparr>r_get = (\<lambda>r k. Inr (map_of r k)), r_set = (\<lambda>k t r. (Inr (), AList.update k t r)),
     r_publish = (\<lambda>ch t r. (Inr (), r))\<rparr>"

theorem redis_value_roundtrip_witness:
  "get_redis_value demo_redis demo_codec ''k'' (snd (set_redis_value demo_redis demo_codec ''k'' (JList [JStr ''a'']) []))
     = Inr (JList [JStr ''a''])"
proof -
  have laws: "\<forall>text r'. r_set demo_redis ''k'' text [] = (Inr (), r') \<longrightarrow> r_get demo_redis r' ''k'' = Inr (Some text)"
    by (simp add: demo_redis_def)
  have dumped: "u_dumps demo_codec (JList [JStr ''a'']) = Inr ''ca.''"
    and parsed: "u_loads demo_codec ''ca.'' = Inr (JList [JStr ''a''])"
    by (simp_all add: demo_codec_def demo_text_def)
  have "r_set demo_redis ''k'' ''ca.'' [] = (Inr (), [(''k'', ''ca.'')])" by (simp add: demo_redis_def)
  from redis_value_roundtrip [OF laws dumped _ parsed this] show ?thesis by simp
qed

end
