(* ===== verification/Callback_Transactions.thy ===== *)
theory Callback_Transactions
  imports Bot_State
begin

text \<open>
  The callback bot: \<open>AggregatorService\<close> (app/core/aggregator_service.py), its subclass
  \<open>CallbackAggregatorService\<close>, and \<open>CallbackTransactionService\<close>
  (app/bots/callback_bot/callback_transaction_service.py), which cleans, simulates and
  classifies the pending transactions of a Redis channel.
\<close>

section \<open>Third-party operations\<close>

text \<open>
  \<open>checksum\<close> is \<open>to_checksum_address\<close> of a JSON value, \<open>simulate\<close> is \<open>w3.eth.call\<close> of the
  cleaned transaction at the latest block, \<open>parse\<close> is \<open>ujson.loads(x.decode('utf-8'))\<close>.
\<close>

record chain_ops =
  checksum :: "json \<Rightarrow> string res"
  simulate :: "json \<Rightarrow> unit res"
  parse :: "json \<Rightarrow> json res"

section \<open>AggregatorService\<close>

text \<open>Looking up the method \<open>get\<close> comes before its argument is computed.\<close>

fun get_aggregator_info :: "chain_ops \<Rightarrow> json \<Rightarrow> json \<Rightarrow> json res" where
  "get_aggregator_info ops (JObj kvs) address =
     res_bind (checksum ops address) (\<lambda>a. json_get (JObj kvs) a)"
| "get_aggregator_info ops _ address = Inl AttributeError"

definition is_aggregator :: "chain_ops \<Rightarrow> json \<Rightarrow> json \<Rightarrow> bool res" where
  "is_aggregator ops aggs address = res_bind (checksum ops address) (json_contains aggs)"

definition aggregator_field :: "chain_ops \<Rightarrow> json \<Rightarrow> string \<Rightarrow> json \<Rightarrow> json res" where
  "aggregator_field ops aggs name address =
     res_bind (get_aggregator_info ops aggs address) (\<lambda>info.
       if truthy info then json_key info name else Inr JNull)"

definition get_aggregator_abi :: "chain_ops \<Rightarrow> json \<Rightarrow> json \<Rightarrow> json res" where
  "get_aggregator_abi ops aggs = aggregator_field ops aggs ''abi''"

definition get_aggregator_name :: "chain_ops \<Rightarrow> json \<Rightarrow> json \<Rightarrow> json res" where
  "get_aggregator_name ops aggs = aggregator_field ops aggs ''name''"

definition get_aggregator_type :: "chain_ops \<Rightarrow> json \<Rightarrow> json \<Rightarrow> json res" where
  "get_aggregator_type ops aggs = aggregator_field ops aggs ''aggregator''"

text \<open>The subclass: the 1inch branch is an empty method, so only exceptions can be observed.\<close>

definition callback_aggregator_transaction :: "chain_ops \<Rightarrow> json \<Rightarrow> json \<Rightarrow> unit res" where
  "callback_aggregator_transaction ops aggs transaction =
     res_bind (json_key transaction ''to'') (\<lambda>to.
     res_bind (get_aggregator_info ops aggs to) (\<lambda>info.
       if truthy info then res_bind (json_key info ''aggregator'') (\<lambda>_. Inr ()) else Inr ()))"

section \<open>Cleaning a transaction\<close>

definition params_to_keep :: "string list" where
  "params_to_keep =
     [''from'', ''to'', ''gas'', ''maxFeePerGas'', ''maxPriorityFeePerGas'',
      ''gasPrice'', ''value'', ''data'', ''input'', ''nonce'', ''type'', ''hash'']"

definition kept_params :: "int \<Rightarrow> string list option" where
  "kept_params transaction_type =
     (if transaction_type = 0 \<or> transaction_type = 1
      then Some (remove1 ''maxPriorityFeePerGas'' (remove1 ''maxFeePerGas'' params_to_keep))
      else if transaction_type = 2 \<or> transaction_type = 3 then Some (remove1 ''gasPrice'' params_to_keep)
      else None)"

fun checksum_fields :: "chain_ops \<Rightarrow> string list \<Rightarrow> (string, json) dict \<Rightarrow> (string, json) dict res" where
  "checksum_fields ops [] d = Inr d"
| "checksum_fields ops (f # fs) d =
     (case map_of d f of
        None \<Rightarrow> checksum_fields ops fs d
      | Some v \<Rightarrow>
          if truthy v then res_bind (checksum ops v) (\<lambda>a. checksum_fields ops fs (AList.update f (JStr a) d))
          else checksum_fields ops fs d)"

text \<open>\<open>self.bot_state.failed_transactions.add(transaction["hash"])\<close>\<close>

definition add_failed :: "json \<Rightarrow> (('p, 'm, 'w) bot_state, unit) act" where
  "add_failed transaction =
     act_bind (act_lift (json_key transaction ''hash'')) (\<lambda>h.
     if hashable h then act_update (\<lambda>st. st\<lparr>failed_transactions := insert h (failed_transactions st)\<rparr>)
     else act_raise TypeError)"

text \<open>The try block; \<open>None\<close> is the early return for an unknown transaction type.\<close>

definition clean_body ::
  "chain_ops \<Rightarrow> json \<Rightarrow> (('p, 'm, 'w) bot_state, (string, json) dict option) act" where
  "clean_body ops transaction =
     act_bind (act_lift (res_bind (json_key transaction ''type'') json_int16)) (\<lambda>transaction_type.
     case kept_params transaction_type of
       None \<Rightarrow> act_bind (add_failed transaction) (\<lambda>_. act_return None)
     | Some keep \<Rightarrow>
         act_bind (act_lift (json_items transaction)) (\<lambda>kvs.
         act_bind (act_lift (checksum_fields ops [''from'', ''to''] (filter (\<lambda>(k, v). k \<in> set keep) kvs)))
           (\<lambda>transaction_to_test.
         act_bind (act_lift (simulate ops (JObj transaction_to_test))) (\<lambda>_.
         act_return (Some transaction_to_test)))))"

definition clean_transaction ::
  "chain_ops \<Rightarrow> json \<Rightarrow> (('p, 'm, 'w) bot_state, (string, json) dict option) act" where
  "clean_transaction ops transaction =
     act_try (clean_body ops transaction)
       (\<lambda>e. if is_Exception e then act_bind (add_failed transaction) (\<lambda>_. act_return None) else act_raise e)
       act_return"

section \<open>Processing a cleaned transaction\<close>

text \<open>\<open>self.bot_state.newest_block + 1\<close>; a decimal float is added exactly.\<close>

fun json_succ :: "json \<Rightarrow> json res" where
  "json_succ (JInt n) = Inr (JInt (n + 1))"
| "json_succ (JBool b) = Inr (JInt (of_bool b + 1))"
| "json_succ (JFloat m e) =
     (if 0 \<le> e then Inr (JFloat (m * 10 ^ nat e + 1) 0) else Inr (JFloat (m + 10 ^ nat (- e)) e))"
| "json_succ _ = Inl TypeError"

definition hex_field :: "json \<Rightarrow> string \<Rightarrow> json res" where
  "hex_field transaction k = res_bind (res_bind (json_key transaction k) json_int16) (\<lambda>n. Inr (JInt n))"

definition optional_hex :: "json \<Rightarrow> string \<Rightarrow> (string \<times> json) list res" where
  "optional_hex transaction k =
     res_bind (json_contains transaction k) (\<lambda>b.
       if b then res_bind (hex_field transaction k) (\<lambda>v. Inr [(k, v)]) else Inr [])"

text \<open>The lines the report logs, label and value.\<close>

definition print_transaction_details ::
  "('p, 'm, 'w) bot_state \<Rightarrow> json \<Rightarrow> (string \<times> json) list res" where
  "print_transaction_details st transaction =
     res_bind (res_bind (get_attr ''newest_block'' st) json_succ) (\<lambda>block.
     res_bind (json_key transaction ''hash'') (\<lambda>hash.
     res_bind (json_key transaction ''from'') (\<lambda>from.
     res_bind (json_key transaction ''to'') (\<lambda>to.
     res_bind (hex_field transaction ''type'') (\<lambda>ty.
     res_bind (json_key transaction ''input'') (\<lambda>inp.
     res_bind (optional_hex transaction ''gasPrice'') (\<lambda>gas_price.
     res_bind (optional_hex transaction ''maxFeePerGas'') (\<lambda>max_fee.
     res_bind (optional_hex transaction ''maxPriorityFeePerGas'') (\<lambda>max_priority.
     res_bind (hex_field transaction ''nonce'') (\<lambda>nonce.
     res_bind (hex_field transaction ''value'') (\<lambda>val.
       Inr ([(''block'', block), (''hash'', hash), (''from'', from), (''to'', to), (''type'', ty),
             (''input'', inp)] @ gas_price @ max_fee @ max_priority @
            [(''nonce'', nonce), (''value'', val)]))))))))))))"

definition process_aggregator_transaction ::
  "chain_ops \<Rightarrow> ('p, 'm, 'w) bot_state \<Rightarrow> json \<Rightarrow> (string \<times> json) list res" where
  "process_aggregator_transaction ops st transaction =
     res_bind (json_key transaction ''to'') (\<lambda>to.
     res_bind (get_aggregator_info ops (aggregators st) to) (\<lambda>info.
       if truthy info
       then res_bind (json_key info ''aggregator'') (\<lambda>a.
            if a = JStr ''oneinch'' then print_transaction_details st transaction else Inr [])
       else Inr []))"

definition process_transaction ::
  "chain_ops \<Rightarrow> ('p, 'm, 'w) bot_state \<Rightarrow> json \<Rightarrow> (string \<times> json) list res" where
  "process_transaction ops st transaction =
     res_bind (res_bind (json_key transaction ''to'') (\<lambda>to. json_in to (aggregators st))) (\<lambda>b.
       if b then process_aggregator_transaction ops st transaction else Inr [])"

section \<open>The channel of pending transactions\<close>

text \<open>One message; the result is what the report printed.\<close>

definition pending_message ::
  "chain_ops \<Rightarrow> json \<Rightarrow> (('p, 'm, 'w) bot_state, (string \<times> json) list) act" where
  "pending_message ops message =
     act_bind (act_lift (json_key message ''type'')) (\<lambda>ty.
     if ty \<noteq> JStr ''message'' then act_return []
     else
       act_bind (act_lift (res_bind (json_key message ''data'') (parse ops))) (\<lambda>transaction.
       act_bind (act_lift (json_key transaction ''hash'')) (\<lambda>h.
       act_bind (\<lambda>st. (in_set h (failed_transactions st), st)) (\<lambda>failed.
       if failed then act_return []
       else
         act_bind (clean_transaction ops transaction) (\<lambda>cleaned.
         case cleaned of
           None \<Rightarrow> act_return []
         | Some d \<Rightarrow>
             if d = [] then act_return []
             else act_bind (act_lift (dict_index d ''to'')) (\<lambda>to.
                  if to = JNull then act_return []
                  else (\<lambda>st. (process_transaction ops st (JObj d), st))))))))"

text \<open>
  The loop once the bot is live: exceptions are logged and the subscription is resumed, a
  cancellation ends it. The result lists what each message printed.
\<close>

fun process_pending_transactions ::
  "chain_ops \<Rightarrow> json list \<Rightarrow> ('p, 'm, 'w) bot_state \<Rightarrow> (string \<times> json) list list \<times> ('p, 'm, 'w) bot_state" where
  "process_pending_transactions ops [] st = ([], st)"
| "process_pending_transactions ops (m # ms) st =
     (case pending_message ops m st of
        (Inl e, t) \<Rightarrow>
          if is_Exception e
          then (case process_pending_transactions ops ms t of (outs, u) \<Rightarrow> ([] # outs, u)) else ([], t)
      | (Inr out, t) \<Rightarrow> (case process_pending_transactions ops ms t of (outs, u) \<Rightarrow> (out # outs, u)))"

end
