(* ===== verification/Bots.thy ===== *)
theory Bots
  imports Exchange_Service Pool_Service Blacklist_Service Event_Loop Bootstrap_Service Callback_Transactions
begin

text \<open>
  The three bots (app/bots/arb_bot.py, sniper_bot.py, callback_bot/callback_bot.py) and their
  launch (main.py): construction of the shared state, initialisation, the tasks of a running
  bot, and closing.
\<close>

section \<open>The process around a bot\<close>

text \<open>
  What a bot opens for itself, and the world of the third-party objects. An executor, an HTTP
  session and a Redis client are created without being connected, which does not raise.
\<close>

datatype resource = Executor | Http_Session | Redis_Client

record 'w host =
  host_world :: 'w
  opened :: "resource list"

text \<open>
  \<open>new_all_pools\<close> is \<open>degenbot.AllPools\<close>, \<open>new_web3\<close> is \<open>Web3(WebsocketProvider(uri))\<close>, \<open>set_web3\<close> is
  \<open>degenbot.set_web3\<close>, \<open>new_snapshot\<close> is \<open>UniswapV3LiquiditySnapshot(path)\<close>, the last two are
  \<open>redis_client.aclose()\<close> and \<open>http_session.close()\<close>.
\<close>

record 'w host_ops =
  new_all_pools :: "json \<Rightarrow> 'w \<Rightarrow> unit res \<times> 'w"
  new_web3 :: "json \<Rightarrow> 'w \<Rightarrow> unit res \<times> 'w"
  set_web3 :: "'w \<Rightarrow> unit res \<times> 'w"
  new_snapshot :: "path \<Rightarrow> 'w \<Rightarrow> unit res \<times> 'w"
  close_redis :: "'w \<Rightarrow> unit res \<times> 'w"
  close_session :: "'w \<Rightarrow> unit res \<times> 'w"

definition on_host :: "('w \<Rightarrow> 'a res \<times> 'w) \<Rightarrow> ('w host, 'a) act" where
  "on_host f = (\<lambda>h. case f (host_world h) of (r, w) \<Rightarrow> (r, h\<lparr>host_world := w\<rparr>))"

definition open_resource :: "resource \<Rightarrow> ('w host, unit) act" where
  "open_resource x = act_update (\<lambda>h. h\<lparr>opened := opened h @ [x]\<rparr>)"

definition close_resource :: "resource \<Rightarrow> ('w \<Rightarrow> unit res \<times> 'w) \<Rightarrow> ('w host, unit) act" where
  "close_resource x f = act_bind (on_host f) (\<lambda>_. act_update (\<lambda>h. h\<lparr>opened := remove1 x (opened h)\<rparr>))"

section \<open>States\<close>

text \<open>The attributes from the external \<open>app_state\<close>.\<close>

definition app_state_attrs :: "(string, json) dict" where
  "app_state_attrs =
     [(''average_blocktime'', JNull), (''base_fee_last'', JNull), (''base_fee_next'', JNull),
      (''first_block'', JNull), (''first_event'', JNull), (''newest_block'', JNull),
      (''newest_block_timestamp'', JNull), (''watching_blocks'', JBool False), (''watching_events'', JBool False)]"

definition chain_attrs :: "json \<Rightarrow> string \<Rightarrow> json \<Rightarrow> bool \<Rightarrow> json \<Rightarrow> json \<Rightarrow> (string, json) dict" where
  "chain_attrs chain_id chain_name http_uri live node websocket_uri =
     [(''chain_id'', chain_id), (''chain_name'', JStr chain_name), (''http_uri'', http_uri), (''live'', JBool live),
      (''node'', node), (''websocket_uri'', websocket_uri)]"

definition ArbBotState :: "'w host_ops \<Rightarrow> string \<Rightarrow> json \<Rightarrow> ('w host, ('p, 'm, 'w) bot_state) act" where
  "ArbBotState ops chain_name chain =
     act_bind (act_lift (json_get chain ''aggregators'')) (\<lambda>aggs.
     act_bind (act_lift (json_key chain ''chain_id'')) (\<lambda>chain_id.
     act_bind (on_host (new_all_pools ops chain_id)) (\<lambda>_.
     act_bind (open_resource Executor) (\<lambda>_.
     act_bind (act_lift (json_get chain ''factories'')) (\<lambda>facs.
     act_bind (open_resource Http_Session) (\<lambda>_.
     act_bind (act_lift (json_key chain ''http_uri'')) (\<lambda>http_uri.
     act_bind (act_lift (json_key chain ''node'')) (\<lambda>node.
     act_bind (open_resource Redis_Client) (\<lambda>_.
     act_bind (act_lift (json_get chain ''routers'')) (\<lambda>routs.
     act_bind (act_lift (json_key chain ''websocket_uri'')) (\<lambda>websocket_uri.
     act_bind (on_host (new_web3 ops websocket_uri)) (\<lambda>_.
     act_read (\<lambda>h. \<lparr>attrs = chain_attrs chain_id chain_name http_uri False node websocket_uri @ app_state_attrs,
       aggregators = aggs, all_arbs = [], blacklists = None, chain_data = chain, factories = facs,
       failed_transactions = {}, pool_managers = [], pools_to_process = q_empty, routers = routs,
       spawned = [], world = host_world h\<rparr>)))))))))))))"

text \<open>
  \<open>CallbackBotState\<close> and \<open>SniperBotState\<close> have fewer attributes; the components they lack stay
  empty here and no service of these bots reads them. What matters is that the sniper's state
  has none of the attributes of \<open>app_state\<close>.
\<close>

definition CallbackBotState :: "'w host_ops \<Rightarrow> string \<Rightarrow> json \<Rightarrow> ('w host, ('p, 'm, 'w) bot_state) act" where
  "CallbackBotState ops chain_name chain =
     act_bind (act_lift (json_get chain ''aggregators'')) (\<lambda>aggs.
     act_bind (act_lift (json_key chain ''chain_id'')) (\<lambda>chain_id.
     act_bind (open_resource Http_Session) (\<lambda>_.
     act_bind (act_lift (json_key chain ''http_uri'')) (\<lambda>http_uri.
     act_bind (act_lift (json_key chain ''node'')) (\<lambda>node.
     act_bind (open_resource Redis_Client) (\<lambda>_.
     act_bind (act_lift (json_get chain ''routers'')) (\<lambda>routs.
     act_bind (act_lift (json_key chain ''websocket_uri'')) (\<lambda>websocket_uri.
     act_bind (on_host (new_web3 ops websocket_uri)) (\<lambda>_.
     act_read (\<lambda>h. \<lparr>attrs = chain_attrs chain_id chain_name http_uri False node websocket_uri @ app_state_attrs,
       aggregators = aggs, all_arbs = [], blacklists = None, chain_data = chain, factories = JNull,
       failed_transactions = {}, pool_managers = [], pools_to_process = q_empty, routers = routs,
       spawned = [], world = host_world h\<rparr>))))))))))"

section \<open>Construction\<close>

text \<open>\<open>cream_chains_data.get(name)\<close>, and the path of the snapshot beside the package.\<close>

definition chain_entry :: "(string, json) dict \<Rightarrow> string \<Rightarrow> json" where
  "chain_entry chain_table name = (case map_of chain_table name of None \<Rightarrow> JNull | Some v \<Rightarrow> v)"

definition snapshot_path :: "path \<Rightarrow> string \<Rightarrow> path" where
  "snapshot_path root name =
     butlast (butlast (root @ [''app'', ''bots''])) @ [''data'', name, name @ ''_v3_liquidity_snapshot.json'']"

definition new_arb_bot ::
  "'w host_ops \<Rightarrow> (string, json) dict \<Rightarrow> path \<Rightarrow> string \<Rightarrow> ('w host, ('p, 'm, 'w) bot_state) act" where
  "new_arb_bot ops chain_table root name =
     (let chain = chain_entry chain_table name in
      if \<not> truthy chain then act_raise ValueError
      else act_bind (ArbBotState ops name chain) (\<lambda>st.
           act_bind (on_host (set_web3 ops)) (\<lambda>_.
           act_bind (on_host (new_snapshot ops (snapshot_path root name))) (\<lambda>_.
           act_read (\<lambda>h. st\<lparr>world := host_world h\<rparr>)))))"

definition new_callback_bot ::
  "'w host_ops \<Rightarrow> (string, json) dict \<Rightarrow> string \<Rightarrow> ('w host, ('p, 'm, 'w) bot_state) act" where
  "new_callback_bot ops chain_table name =
     (let chain = chain_entry chain_table name in
      if \<not> truthy chain then act_raise ValueError else CallbackBotState ops name chain)"

text \<open>\<open>setup_bot_state\<close> looks into the chain data before it tests whether there are any.\<close>

definition new_sniper_bot ::
  "'w host_ops \<Rightarrow> (string, json) dict \<Rightarrow> path \<Rightarrow> string \<Rightarrow> ('w host, ('p, 'm, 'w) bot_state) act" where
  "new_sniper_bot ops chain_table root name =
     (let chain = chain_entry chain_table name in
      act_bind (act_lift (json_key chain ''chain_id'')) (\<lambda>chain_id.
      act_bind (act_lift (json_key chain ''websocket_uri'')) (\<lambda>websocket_uri.
      act_bind (on_host (new_web3 ops websocket_uri)) (\<lambda>_.
      act_bind (on_host (set_web3 ops)) (\<lambda>_.
      if \<not> truthy chain then act_raise ValueError
      else act_bind (on_host (new_snapshot ops (snapshot_path root name))) (\<lambda>_.
           act_bind (act_lift (json_key chain ''aggregators'')) (\<lambda>aggs.
           act_bind (on_host (new_all_pools ops chain_id)) (\<lambda>_.
           act_bind (open_resource Executor) (\<lambda>_.
           act_bind (act_lift (json_key chain ''factories'')) (\<lambda>facs.
           act_bind (open_resource Http_Session) (\<lambda>_.
           act_bind (act_lift (json_key chain ''http_uri'')) (\<lambda>http_uri.
           act_bind (act_lift (json_key chain ''node'')) (\<lambda>node.
           act_bind (open_resource Redis_Client) (\<lambda>_.
           act_bind (act_lift (json_key chain ''routers'')) (\<lambda>routs.
           act_read (\<lambda>h. \<lparr>attrs = chain_attrs chain_id name http_uri True node websocket_uri,
             aggregators = aggs, all_arbs = [], blacklists = Some [], chain_data = chain, factories = facs,
             failed_transactions = {}, pool_managers = [], pools_to_process = q_empty, routers = routs,
             spawned = [], world = host_world h\<rparr>))))))))))))))))"

section \<open>Closing and launching\<close>

text \<open>Both clients are objects, which are true.\<close>

definition close_bot :: "'w host_ops \<Rightarrow> ('w host, unit) act" where
  "close_bot ops = act_bind (close_resource Redis_Client (close_redis ops)) (\<lambda>_. close_resource Http_Session (close_session ops))"

text \<open>
  \<open>run_bot\<close>: \<open>go\<close> is \<open>bot.run()\<close>, \<open>None\<close> when it never returns. The bot is constructed before the
  \<open>try\<close>; an exception of \<open>close\<close> replaces that of the run.
\<close>

definition run_bot ::
  "'w host_ops \<Rightarrow> ('w host, ('p, 'm, 'w) bot_state) act \<Rightarrow>
     (('p, 'm, 'w) bot_state \<Rightarrow> (unit res \<times> ('p, 'm, 'w) bot_state) option) \<Rightarrow>
     'w host \<Rightarrow> (unit res \<times> 'w host) option" where
  "run_bot ops make_bot go h =
     (case make_bot h of
        (Inl e, h1) \<Rightarrow> Some (Inl e, h1)
      | (Inr st, h1) \<Rightarrow>
          (case go st of
             None \<Rightarrow> None
           | Some (r, st') \<Rightarrow>
               Some (case close_bot ops (h1\<lparr>host_world := world st'\<rparr>) of
                   (Inl e, h2) \<Rightarrow> (Inl e, h2)
                 | (Inr _, h2) \<Rightarrow> (r, h2))))"

text \<open>\<open>main\<close> after the parser has accepted the type of the bot and the name of the chain.\<close>

definition main_body ::
  "'w host_ops \<Rightarrow> (string, json) dict \<Rightarrow> path \<Rightarrow>
     (string \<Rightarrow> ('p, 'm, 'w) bot_state \<Rightarrow> (unit res \<times> ('p, 'm, 'w) bot_state) option) \<Rightarrow> string \<Rightarrow> string \<Rightarrow>
     'w host \<Rightarrow> (unit res \<times> 'w host) option" where
  "main_body ops chain_table root go bot_type chain_name h =
     (if bot_type = ''arb'' then run_bot ops (new_arb_bot ops chain_table root chain_name) (go bot_type) h
      else if bot_type = ''callback'' then run_bot ops (new_callback_bot ops chain_table chain_name) (go bot_type) h
      else if bot_type = ''sniper'' then run_bot ops (new_sniper_bot ops chain_table root chain_name) (go bot_type) h
      else Some (Inr (), h))"

text \<open>What \<open>run\<close> prints for the end of \<open>main\<close>.\<close>

definition run_message :: "unit res \<Rightarrow> string option" where
  "run_message r = (case r of
     Inr _ \<Rightarrow> None
   | Inl e \<Rightarrow> Some (if e = CancelledError then ''Bot stopped by user or system. Cleaning up...'' else ''Unhandled exception''))"

section \<open>The sniper bot\<close>

text \<open>
  \<open>bootstrap\<close> and \<open>run\<close>. No service of this bot changes an attribute it could wait for, so that
  waiting is waiting for ever. The file system is the one at the time of the call, \<open>ms\<close> the messages
  of the subscription, after which the loop is left by a cancellation.
\<close>

definition sniper_run ::
  "('p, 'm, 'v registry_scheme) pool_ops \<Rightarrow> ('p, 'm, 'v registry_scheme) degen \<Rightarrow> (json \<Rightarrow> string res) \<Rightarrow>
     (exchange_deployment \<Rightarrow> ('v registry_scheme, unit) act) \<Rightarrow> json_codec \<Rightarrow> path \<Rightarrow> string \<Rightarrow> file_system \<Rightarrow> json list \<Rightarrow>
     ('p, 'm, 'v registry_scheme) bot_state \<Rightarrow> (unit res \<times> ('p, 'm, 'v registry_scheme) bot_state) option" where
  "sniper_run ops dg to_checksum register c root name fs ms st =
     (case with_world (add_deployments to_checksum register (chain_data st)) st of
        (Inl e, t) \<Rightarrow> Some (Inl e, t)
      | (Inr _, t) \<Rightarrow>
          (case create_pool_managers ops t of
             None \<Rightarrow> None
           | Some (Inl e, u) \<Rightarrow> Some (Inl e, u)
           | Some (Inr _, u) \<Rightarrow>
               Some (case load_blacklists c root name fs new_blacklist_service of
                   (Inl e, _) \<Rightarrow> (Inl e, u)
                 | (Inr _, svc) \<Rightarrow> (Inr (), process_uniswap_events dg ms (u\<lparr>blacklists := bot_view svc\<rparr>)))))"

section \<open>The arb bot\<close>

text \<open>The services of the bot, as far as they are the same for its whole life.\<close>

record ('p, 'm, 'v) arb_env =
  dgen :: "('p, 'm, 'v registry_scheme) degen"
  pool_calls :: "('p, 'm, 'v registry_scheme) pool_ops"
  address_of_pool :: "'p \<Rightarrow> string"
  checksum_address :: "json \<Rightarrow> string res"
  register_exchange :: "exchange_deployment \<Rightarrow> ('v registry_scheme, unit) act"
  parse_state :: "json \<Rightarrow> json res"
  ujson :: json_codec
  package :: path
  chain_name_of :: string

text \<open>
  Where \<open>run\<close> is: before and in the waiting of \<open>initialize\<close>, in the loop that waits for \<open>live\<close>, in
  the final \<open>gather\<close>, or ended by an exception.
\<close>

datatype phase = Deploying | Waiting | Awaiting_Live | Started | Failed py_exn

record ('p, 'm, 'w) arb_bot =
  looped :: "('p, 'm, 'w) loop_state"
  blacklist_svc :: blacklist_service
  phase :: phase
  listening :: bool

definition bot_core :: "('p, 'm, 'w) arb_bot \<Rightarrow> ('p, 'm, 'w) bot_state" where
  "bot_core b = core (looped b)"

definition set_core :: "('p, 'm, 'w) bot_state \<Rightarrow> ('p, 'm, 'w) arb_bot \<Rightarrow> ('p, 'm, 'w) arb_bot" where
  "set_core st b = b\<lparr>looped := (looped b)\<lparr>core := st\<rparr>\<rparr>"

definition arb_bot_of :: "('p, 'm, 'w) bot_state \<Rightarrow> ('p, 'm, 'w) arb_bot" where
  "arb_bot_of st = \<lparr>looped = \<lparr>core = st, evals = []\<rparr>, blacklist_svc = new_blacklist_service,
     phase = Deploying, listening = True\<rparr>"

text \<open>The rest of \<open>initialize\<close> once the wait for the first event is over; no await in it waits.\<close>

definition finish_initialize ::
  "('p, 'm, 'v) arb_env \<Rightarrow> file_system \<Rightarrow> ('p, 'm, 'v registry_scheme) arb_bot \<Rightarrow>
     ('p, 'm, 'v registry_scheme) arb_bot option" where
  "finish_initialize env fs b =
     (case create_pool_managers (pool_calls env) (bot_core b) of
        None \<Rightarrow> None
      | Some (Inl e, st) \<Rightarrow> Some ((set_core st b)\<lparr>phase := Failed e\<rparr>)
      | Some (Inr _, st) \<Rightarrow>
          Some (case load_blacklists (ujson env) (package env) (chain_name_of env) fs (blacklist_svc b) of
              (Inl e, svc) \<Rightarrow> (set_core st b)\<lparr>blacklist_svc := svc, phase := Failed e\<rparr>
            | (Inr _, svc) \<Rightarrow>
                (case load_chain_pools (pool_calls env) (ujson env) (package env) fs
                        (st\<lparr>blacklists := bot_view svc\<rparr>) of
                   (Inl e, st') \<Rightarrow> (set_core st' b)\<lparr>blacklist_svc := svc, phase := Failed e\<rparr>
                 | (Inr _, st') \<Rightarrow> (set_core st' b)\<lparr>blacklist_svc := svc, phase := Awaiting_Live\<rparr>)))"

text \<open>One undisturbed part of \<open>run\<close>; \<open>None\<close> while it waits.\<close>

definition main_step ::
  "('p, 'm, 'v) arb_env \<Rightarrow> file_system \<Rightarrow> ('p, 'm, 'v registry_scheme) arb_bot \<Rightarrow>
     ('p, 'm, 'v registry_scheme) arb_bot option" where
  "main_step env fs b =
     (case phase b of
        Deploying \<Rightarrow>
          Some (case with_world (add_deployments (checksum_address env) (register_exchange env)
                   (chain_data (bot_core b))) (bot_core b) of
              (Inl e, st) \<Rightarrow> (set_core st b)\<lparr>phase := Failed e\<rparr>
            | (Inr _, st) \<Rightarrow> (set_core st b)\<lparr>phase := Waiting\<rparr>)
      | Waiting \<Rightarrow> finish_initialize env fs b
      | Awaiting_Live \<Rightarrow>
          (case get_attr ''live'' (bot_core b) of
             Inl e \<Rightarrow> Some (b\<lparr>phase := Failed e\<rparr>)
           | Inr v \<Rightarrow> if truthy v then Some (b\<lparr>phase := Started\<rparr>) else None)
      | Started \<Rightarrow> None
      | Failed _ \<Rightarrow> None)"

text \<open>
  The states an arb bot can reach: \<open>run\<close>, the bootstrap service, the event service, put tasks
  and the arbitrage service take turns in any order. The event task exists after \<open>initialize\<close>, the
  arbitrage task after the wait for \<open>live\<close>; when \<open>run\<close> raises, the other tasks end with it. The
  files may be changed by others between two steps.
\<close>

inductive arb_reach ::
  "('p, 'm, 'v) arb_env \<Rightarrow> ('p, 'm, 'v registry_scheme) arb_bot \<Rightarrow> ('p, 'm, 'v registry_scheme) arb_bot \<Rightarrow> bool"
  for env b0 where
  created: "arb_reach env b0 b0"
| run_part: "arb_reach env b0 b \<Longrightarrow> main_step env fs b = Some b' \<Longrightarrow> arb_reach env b0 b'"
| app_state: "arb_reach env b0 b \<Longrightarrow> listening b \<Longrightarrow> (\<forall>e. phase b \<noteq> Failed e) \<Longrightarrow>
     state_message (parse_state env) m (bot_core b) = (r, st) \<Longrightarrow>
     arb_reach env b0 ((set_core st b)\<lparr>listening := (r = Inr ())\<rparr>)"
| chain_event: "arb_reach env b0 b \<Longrightarrow> phase b \<in> {Awaiting_Live, Started} \<Longrightarrow>
     handle_message (dgen env) m (bot_core b) = (r, st) \<Longrightarrow> arb_reach env b0 (set_core st b)"
| put_task: "arb_reach env b0 b \<Longrightarrow> phase b \<in> {Awaiting_Live, Started} \<Longrightarrow> run_put (bot_core b) = Some st \<Longrightarrow>
     arb_reach env b0 (set_core st b)"
| evaluate: "arb_reach env b0 b \<Longrightarrow> phase b = Started \<Longrightarrow>
     find_onchain_step (address_of_pool env) (looped b) = Some (a, Inr (), ls) \<Longrightarrow>
     arb_reach env b0 (b\<lparr>looped := ls\<rparr>)"


section \<open>The callback bot\<close>

text \<open>
  \<open>run\<close> gathers the bootstrap service and \<open>process_pending_transactions\<close>, whose wait for \<open>live\<close> comes
  before its subscription.
\<close>

record ('p, 'm, 'w) callback_bot =
  cb_state :: "('p, 'm, 'w) bot_state"
  cb_listening :: bool
  cb_live :: bool
  cb_printed :: "(string \<times> json) list list"

definition callback_bot_of :: "('p, 'm, 'w) bot_state \<Rightarrow> ('p, 'm, 'w) callback_bot" where
  "callback_bot_of st = \<lparr>cb_state = st, cb_listening = True, cb_live = False, cb_printed = []\<rparr>"

text \<open>
  \<open>callback_run ops b0 news txs b\<close>: some interleaving leads from \<open>b0\<close> to \<open>b\<close>, in which the
  bootstrap service received \<open>news\<close> and the transaction service received \<open>txs\<close>.
\<close>

inductive callback_run ::
  "chain_ops \<Rightarrow> ('p, 'm, 'w) callback_bot \<Rightarrow> json list \<Rightarrow> json list \<Rightarrow> ('p, 'm, 'w) callback_bot \<Rightarrow> bool"
  for ops b0 where
  cb_start: "callback_run ops b0 [] [] b0"
| cb_news: "callback_run ops b0 news txs b \<Longrightarrow> cb_listening b \<Longrightarrow> state_message (parse ops) m (cb_state b) = (r, st) \<Longrightarrow>
     callback_run ops b0 (news @ [m]) txs (b\<lparr>cb_state := st, cb_listening := (r = Inr ())\<rparr>)"
| cb_goes_live: "callback_run ops b0 news txs b \<Longrightarrow> get_attr ''live'' (cb_state b) = Inr v \<Longrightarrow> truthy v \<Longrightarrow>
     callback_run ops b0 news txs (b\<lparr>cb_live := True\<rparr>)"
| cb_message: "callback_run ops b0 news txs b \<Longrightarrow> cb_live b \<Longrightarrow> pending_message ops m (cb_state b) = (r, st) \<Longrightarrow>
     r \<noteq> Inl CancelledError \<Longrightarrow>
     callback_run ops b0 news (txs @ [m])
       (b\<lparr>cb_state := st, cb_printed := cb_printed b @ [case r of Inl _ \<Rightarrow> [] | Inr out \<Rightarrow> out]\<rparr>)"

end
