(* ===== verification/Pool_Registry.thy ===== *)
theory Pool_Registry
  imports Pool_Correct
begin

text \<open>
  Loading and degenbot's registry of pools: under the documented behaviour of \<open>get_pool\<close>, every pool
  a helper was created for is registered from then on, so that the arbs are built from the
  pools of their own paths.
\<close>

section \<open>The registry\<close>

definition registers_more :: "('p, 'm, 'w) pool_ops \<Rightarrow> 'w \<Rightarrow> 'w \<Rightarrow> bool" where
  "registers_more ops v w \<longleftrightarrow> (\<forall>a p. known_pool ops a v = Some p \<longrightarrow> known_pool ops a w = Some p)"

text \<open>
  \<open>get_pool\<close> registers the helper it returns under its address, and no operation that loading
  uses removes or replaces a registered helper.
\<close>

definition registry_lawful :: "('p, 'm, 'w) pool_ops \<Rightarrow> bool" where
  "registry_lawful ops \<longleftrightarrow>
     (\<forall>m a b w p w'. v2_pool ops m a b w = (Inr p, w') \<longrightarrow> known_pool ops a w' = Some p) \<and>
     (\<forall>m a b f w p w'. v3_pool ops m a b f w = (Inr p, w') \<longrightarrow> known_pool ops a w' = Some p) \<and>
     (\<forall>m a b w. registers_more ops w (snd (v2_pool ops m a b w))) \<and>
     (\<forall>m a b f w. registers_more ops w (snd (v3_pool ops m a b f w))) \<and>
     (\<forall>a w. registers_more ops w (snd (erc20 ops a w))) \<and>
     (\<forall>c w. registers_more ops w (snd (check_cycle ops c w)))"

text \<open>The pool is of a known type and the managers of that type do not refuse it.\<close>

definition manageable :: "('p, 'm, 'w) pool_ops \<Rightarrow> json \<Rightarrow> json \<Rightarrow> bool" where
  "manageable ops a pool \<longleftrightarrow>
     json_key pool ''type'' = Inr (JStr ''UniswapV2'') \<and> (\<forall>m b w. fst (v2_pool ops m a b w) \<noteq> Inl ManagerError) \<or>
     json_key pool ''type'' = Inr (JStr ''UniswapV3'') \<and> (\<forall>m b f w. fst (v3_pool ops m a b f w) \<noteq> Inl ManagerError)"

definition keeps_registered ::
  "('p, 'm, 'w) pool_ops \<Rightarrow> ('p, 'm, 'w) bot_state \<Rightarrow> ('p, 'm, 'w) bot_state \<Rightarrow> bool" where
  "keeps_registered ops s t \<longleftrightarrow> registers_more ops (world s) (world t)"

lemma keeps_registered_refl: "reflp (keeps_registered ops)"
  by (simp add: reflp_def keeps_registered_def registers_more_def)

lemma keeps_registered_trans: "transp (keeps_registered ops)"
  by (auto simp: transp_def keeps_registered_def registers_more_def)

lemma with_world_registered:
  "(\<And>w. registers_more ops w (snd (f w))) \<Longrightarrow> act_keeps (keeps_registered ops) (with_world f)"
  by (auto simp: act_keeps_def with_world_def keeps_registered_def split: prod.split) (metis snd_conv)

lemmas registered_frames =
  act_keeps_basic [OF keeps_registered_refl] act_keeps_bind [OF keeps_registered_trans]
  act_keeps_try [OF keeps_registered_trans] act_keeps_if act_keeps_pure [OF keeps_registered_refl]
  with_world_registered

lemma helper_keeps_registered:
  "registry_lawful ops \<Longrightarrow> act_keeps (keeps_registered ops) (create_pool_helper ops a x v2 v3 fe)"
  unfolding create_pool_helper_def registry_lawful_def by (intro registered_frames) blast+

lemma helpers_keep_registered:
  "registry_lawful ops \<Longrightarrow> act_keeps (keeps_registered ops) (create_pool_helpers ops data addresses)"
  unfolding create_pool_helpers_def
  by (intro act_keeps_each [OF keeps_registered_refl keeps_registered_trans] registered_frames helper_keeps_registered)

lemma json_sub_error: "json_sub v k \<noteq> Inl ManagerError"
  by (cases "(v, k)" rule: json_sub.cases) (auto simp: dict_index_def Let_def split: option.split json.split)

lemma json_nth_error: "json_nth v i \<noteq> Inl ManagerError"
  by (cases "(v, i)" rule: json_nth.cases) auto

lemma manager_for_error: "pool_manager_for fs x st \<noteq> Inl ManagerError"
proof -
  have "json_key f k \<noteq> Inl ManagerError" for f k by (cases f) (auto simp: dict_index_def split: option.split)
  then show ?thesis
    using json_sub_error [of fs x]
    by (cases "json_sub fs x")
      (auto simp: pool_manager_for_def res_bind_def dict_index_def split: sum.split option.split)
qed

lemma json_pred_error: "json_pred v \<noteq> Inl ManagerError"
  by (cases v) auto

lemma managed_call:
  assumes "act_try (act_bind (\<lambda>st. (g st, st)) (\<lambda>m. act_bind (act_lift b) (f m)))
     (\<lambda>e. if e = ManagerError then act_return None else act_raise e) (\<lambda>p. act_return (Some p)) s = (Inr y, t)"
    and "g s \<noteq> Inl ManagerError" and "b \<noteq> Inl ManagerError" and "\<And>m b'. fst (f m b' s) \<noteq> Inl ManagerError"
  obtains m b' p where "f m b' s = (Inr p, t)"
proof (cases "g s")
  case (Inl e)
  with assms(1,2) show thesis by (auto simp: act_try_def act_bind_pure act_raise_def)
next
  case m: (Inr m)
  show thesis
  proof (cases b)
    case (Inl e)
    with m assms(1,3) show thesis by (auto simp: act_try_def act_bind_pure act_raise_def)
  next
    case (Inr b')
    obtain r u where r: "f m b' s = (r, u)" by fastforce
    with m Inr assms(1) assms(4) [of m b'] that show thesis
      by (cases r) (auto simp: act_try_def act_bind_pure act_raise_def act_return_def)
  qed
qed

lemma json_key_error: "json_key v k \<noteq> Inl ManagerError"
  by (cases v) (auto simp: dict_index_def split: option.split)

lemma helper_registers:
  assumes "create_pool_helper ops a x v2 v3 fe s = (Inr y, t)" and "registry_lawful ops" and "manageable ops a x"
  shows "known_pool ops a (world t) \<noteq> None"
proof -
  have laws: "v2_pool ops m a b w = (Inr p, w') \<Longrightarrow> known_pool ops a w' = Some p"
    "v3_pool ops m a b f w = (Inr p, w') \<Longrightarrow> known_pool ops a w' = Some p" for m b f w p w'
    using assms(2) by (simp_all add: registry_lawful_def)
  from assms(1) obtain ty ex where ty: "json_key x ''type'' = Inr ty" and ex: "json_key x ''exchange'' = Inr ex"
    unfolding create_pool_helper_def by (elim lift_InrE)
  from assms(3) ty consider "ty = JStr ''UniswapV2''" "\<forall>m b w. fst (v2_pool ops m a b w) \<noteq> Inl ManagerError"
    | "ty = JStr ''UniswapV3''" "\<forall>m b f w. fst (v3_pool ops m a b f w) \<noteq> Inl ManagerError"
    by (auto simp: manageable_def)
  then show ?thesis
  proof cases
    case 1
    have run: "act_try (act_bind (\<lambda>st. (pool_manager_for v2 ex st, st)) (\<lambda>m.
                act_bind (act_lift (json_pred fe)) (\<lambda>b. with_world (v2_pool ops m a b))))
         (\<lambda>e. if e = ManagerError then act_return None else act_raise e) (\<lambda>p. act_return (Some p)) s = (Inr y, t)"
      using assms(1) 1(1) ty ex by (simp add: create_pool_helper_def)
    obtain m b p where "with_world (v2_pool ops m a b) s = (Inr p, t)"
      by (rule managed_call [OF run manager_for_error json_pred_error])
        (use 1(2) in \<open>auto simp: with_world_def split: prod.split dest: arg_cong [of _ _ fst]\<close>)
    then show ?thesis using laws(1) by (auto simp: with_world_def split: prod.splits)
  next
    case 2
    let ?call = "\<lambda>m b. act_bind (act_lift (json_key x ''fee'')) (\<lambda>fee. with_world (v3_pool ops m a b fee))"
    have run: "act_try (act_bind (\<lambda>st. (pool_manager_for v3 ex st, st)) (\<lambda>m.
                act_bind (act_lift (json_pred fe)) (?call m)))
         (\<lambda>e. if e = ManagerError then act_return None else act_raise e) (\<lambda>p. act_return (Some p)) s = (Inr y, t)"
      using assms(1) 2(1) ty ex by (simp add: create_pool_helper_def)
    have "fst (?call m b s) \<noteq> Inl ManagerError" for m b
    proof (cases "json_key x ''fee''")
      case (Inl e)
      then show ?thesis using json_key_error [of x "''fee''"] by (simp add: act_raise_def)
    next
      case (Inr fee)
      have "fst (v3_pool ops m a b fee (world s)) \<noteq> Inl ManagerError" using 2(2) by blast
      with Inr show ?thesis by (auto simp: with_world_def split: prod.split)
    qed
    then obtain m b p where "?call m b s = (Inr p, t)"
      using managed_call [OF run manager_for_error json_pred_error] by blast
    then show ?thesis using laws(2) by (elim lift_InrE) (auto simp: with_world_def split: prod.splits)
  qed
qed

lemma helpers_register:
  assumes "create_pool_helpers ops data addresses s = (Inr (), t)" and "registry_lawful ops"
    and "a \<in> set addresses" and "map_of data a = Some x" and "manageable ops a x"
  shows "known_pool ops a (world t) \<noteq> None"
proof -
  let ?turn = "\<lambda>a. act_bind (act_lift (dict_index data a)) (\<lambda>pool_data.
       act_bind (\<lambda>st. (json_path (chain_data st) [''factories'', ''v2''], st)) (\<lambda>v2.
       act_bind (\<lambda>st. (json_path (chain_data st) [''factories'', ''v3''], st)) (\<lambda>v3.
       act_bind (\<lambda>st. (get_attr ''first_event'' st, st)) (\<lambda>first_event.
       act_bind (create_pool_helper ops a pool_data v2 v3 first_event) (\<lambda>_. act_return ())))))"
  have "act_keeps (keeps_registered ops) (?turn b)" for b
    by (intro registered_frames helper_keeps_registered assms(2))
  from act_each_InrD [OF assms(1) [unfolded create_pool_helpers_def] assms(3) keeps_registered_refl keeps_registered_trans this]
  obtain u v where turn: "?turn a u = (Inr (), v)" and later: "keeps_registered ops v t" by blast
  from turn assms(4) obtain v2 v3 fe u' y where "create_pool_helper ops a x v2 v3 fe u' = (Inr y, v)"
    by (auto simp: act_return_def act_lift_def elim!: pure_InrE act_bind_InrD simp del: json_path.simps)
  from helper_registers [OF this assms(2,5)] later show ?thesis
    by (auto simp: keeps_registered_def registers_more_def)
qed

section \<open>Building the arbs of one entry\<close>

text \<open>The arb of an id with a given path, over the pools now registered for the path.\<close>

definition arb_on_path ::
  "('p, 'm, 'w) pool_ops \<Rightarrow> string \<Rightarrow> json \<Rightarrow> json list \<Rightarrow> 'w \<Rightarrow> 'p arb_details \<Rightarrow> bool" where
  "arb_on_path ops weth k path w d \<longleftrightarrow>
     (\<exists>ps. d = \<lparr>lp_cycle = new_cycle k weth ps, status = ''load''\<rparr> \<and> list_all2 (\<lambda>a p. known_pool ops a w = Some p) path ps)"

lemma arb_on_path_later: "arb_on_path ops weth k path v d \<Longrightarrow> registers_more ops v w \<Longrightarrow> arb_on_path ops weth k path w d"
  unfolding arb_on_path_def registers_more_def by (blast intro: list_all2_mono)

lemma build_arb_outcome:
  assumes "build_arb ops B weth arb s = (r, t)" and "registry_lawful ops"
  shows "keeps_registered ops s t \<and> (all_arbs t = all_arbs s \<or>
     (\<exists>k path d. json_get arb ''id'' = Inr k \<and> res_bind (json_key arb ''path'') json_iter = Inr path \<and>
        arb_on_path ops weth k path (world t) d \<and> all_arbs t = AList.update k d (all_arbs s)))"
proof -
  have refl: "keeps_registered ops s s" using keeps_registered_refl by (auto dest: reflpD)
  from assms(1) consider "t = s" | k path ps r' u where "json_get arb ''id'' = Inr k"
    "res_bind (json_key arb ''path'') json_iter = Inr path" "ps = available_pools (\<lambda>w a. known_pool ops a w) (world s) path"
    "length ps = length path" "with_world (check_cycle ops (new_cycle k weth ps)) s = (r', u)"
    "t = u \<or> t = u\<lparr>all_arbs := AList.update k \<lparr>lp_cycle = new_cycle k weth ps, status = ''load''\<rparr> (all_arbs u)\<rparr>"
    unfolding build_arb_def
    by (fastforce simp: act_bind_def act_lift_def act_read_def act_update_def act_return_def split: sum.splits if_splits prod.splits)
  then show ?thesis
  proof cases
    case 1
    with refl show ?thesis by simp
  next
    case (2 k path ps r' u)
    have "registers_more ops (world s) (world u)" and same: "all_arbs u = all_arbs s"
      using 2(5) assms(2) by (auto simp: with_world_def registry_lawful_def split: prod.splits) (metis snd_conv)
    moreover have "list_all2 (\<lambda>a p. known_pool ops a (world s) = Some p) path ps"
      using available_full [of "\<lambda>w a. known_pool ops a w" "world s" path] 2(3,4) by simp
    then have "arb_on_path ops weth k path (world s) \<lparr>lp_cycle = new_cycle k weth ps, status = ''load''\<rparr>"
      by (auto simp: arb_on_path_def)
    ultimately have "arb_on_path ops weth k path (world u) \<lparr>lp_cycle = new_cycle k weth ps, status = ''load''\<rparr>"
      by (blast intro: arb_on_path_later)
    with 2(1,2,6) same \<open>registers_more ops (world s) (world u)\<close> show ?thesis
      by (auto simp: keeps_registered_def)
  qed
qed

text \<open>
  Over the building of several arbs, all entries of an id having one path: an arb stored under the id stays, and is
  either the old one or one on that path.
\<close>

definition builds_on_path ::
  "('p, 'm, 'w) pool_ops \<Rightarrow> string \<Rightarrow> json \<Rightarrow> json list \<Rightarrow> ('p, 'm, 'w) bot_state \<Rightarrow> ('p, 'm, 'w) bot_state \<Rightarrow> bool" where
  "builds_on_path ops weth k path s t \<longleftrightarrow> keeps_registered ops s t \<and>
     (map_of (all_arbs s) k \<noteq> None \<longrightarrow> map_of (all_arbs t) k \<noteq> None) \<and>
     (\<forall>d. map_of (all_arbs t) k = Some d \<longrightarrow> map_of (all_arbs s) k = Some d \<or> arb_on_path ops weth k path (world t) d)"

lemma builds_on_path_refl: "reflp (builds_on_path ops weth k path)"
  using keeps_registered_refl by (auto simp: reflp_def builds_on_path_def)

lemma builds_on_path_trans: "transp (builds_on_path ops weth k path)"
proof (rule transpI)
  fix x y z
  assume 1: "builds_on_path ops weth k path x y" and 2: "builds_on_path ops weth k path y z"
  have later: "registers_more ops (world y) (world z)"
    using 2 by (simp add: builds_on_path_def keeps_registered_def)
  have "map_of (all_arbs x) k = Some d \<or> arb_on_path ops weth k path (world z) d" if z: "map_of (all_arbs z) k = Some d" for d
  proof (cases "map_of (all_arbs y) k = Some d")
    case True
    then have "map_of (all_arbs x) k = Some d \<or> arb_on_path ops weth k path (world y) d"
      using 1 by (simp add: builds_on_path_def)
    then show ?thesis using arb_on_path_later [OF _ later] by blast
  next
    case False
    with 2 z show ?thesis by (simp add: builds_on_path_def)
  qed
  moreover have "keeps_registered ops x z"
    using 1 2 keeps_registered_trans unfolding builds_on_path_def by (meson transpE)
  ultimately show "builds_on_path ops weth k path x z" using 1 2 unfolding builds_on_path_def by blast
qed

lemma build_arb_on_path:
  assumes "registry_lawful ops"
    and "json_get arb ''id'' = Inr k \<longrightarrow> (\<forall>path'. res_bind (json_key arb ''path'') json_iter = Inr path' \<longrightarrow> path' = path)"
  shows "act_keeps (builds_on_path ops weth k path) (build_arb ops B weth arb)"
  unfolding act_keeps_def
proof
  fix s
  obtain r t where t: "build_arb ops B weth arb s = (r, t)" by fastforce
  from build_arb_outcome [OF t assms(1)] have reg: "keeps_registered ops s t" and "all_arbs t = all_arbs s \<or>
     (\<exists>i path' d. json_get arb ''id'' = Inr i \<and> res_bind (json_key arb ''path'') json_iter = Inr path' \<and>
        arb_on_path ops weth i path' (world t) d \<and> all_arbs t = AList.update i d (all_arbs s))" by blast+
  from this(2) have "builds_on_path ops weth k path s t"
  proof (elim disjE exE conjE)
    fix i path' d
    assume a: "json_get arb ''id'' = Inr i" "res_bind (json_key arb ''path'') json_iter = Inr path'"
      "arb_on_path ops weth i path' (world t) d" "all_arbs t = AList.update i d (all_arbs s)"
    show ?thesis
    proof (cases "i = k")
      case True
      with a assms(2) have "path' = path" by blast
      with True a(3) reg show ?thesis by (auto simp: builds_on_path_def a(4) update_conv)
    next
      case False
      with reg show ?thesis by (auto simp: builds_on_path_def a(4) update_conv)
    qed
  qed (use reg in \<open>simp add: builds_on_path_def\<close>)
  with t show "builds_on_path ops weth k path s (snd (build_arb ops B weth arb s))" by simp
qed

text \<open>When the pools of the path are registered, the turn of the entry stores its arb.\<close>

lemma build_arb_stores:
  assumes "build_arb ops B weth arb s = (Inr (), t)" and "registry_lawful ops"
    and "json_get arb ''id'' = Inr k" and "k \<notin> B"
    and "res_bind (json_key arb ''path'') json_iter = Inr path" and "\<forall>a\<in>set path. known_pool ops a (world s) \<noteq> None"
  shows "\<exists>d. map_of (all_arbs t) k = Some d \<and> arb_on_path ops weth k path (world t) d"
proof -
  let ?ps = "available_pools (\<lambda>w a. known_pool ops a w) (world s) path"
  have len: "length ?ps = length path" using assms(6) by (induction path) (auto split: option.split)
  from assms(1,3-5) len have up: "all_arbs t = AList.update k \<lparr>lp_cycle = new_cycle k weth ?ps, status = ''load''\<rparr> (all_arbs s)"
    and w: "world t = snd (check_cycle ops (new_cycle k weth ?ps) (world s))"
    by (auto simp: build_arb_def act_bind_def act_lift_def act_read_def act_update_def with_world_def
        act_raise_def in_set_def split: prod.splits sum.splits if_splits)
  have "arb_on_path ops weth k path (world s) \<lparr>lp_cycle = new_cycle k weth ?ps, status = ''load''\<rparr>"
    using available_full [OF len] by (auto simp: arb_on_path_def)
  moreover have "registers_more ops (world s) (world t)" using assms(2) w by (simp add: registry_lawful_def)
  ultimately show ?thesis using up by (auto simp: update_conv intro: arb_on_path_later)
qed

lemma build_arbs_stores:
  assumes "act_each (build_arb ops B weth) arbs s = (Inr (), t)" and "registry_lawful ops" and "arb \<in> set arbs"
    and "json_get arb ''id'' = Inr k" and "k \<notin> B"
    and "res_bind (json_key arb ''path'') json_iter = Inr path" and "\<forall>a\<in>set path. known_pool ops a (world s) \<noteq> None"
    and "\<forall>arb'\<in>set arbs. json_get arb' ''id'' = Inr k \<longrightarrow> arb' = arb"
  shows "\<exists>d. map_of (all_arbs t) k = Some d \<and> arb_on_path ops weth k path (world t) d"
proof -
  have keeps: "act_keeps (builds_on_path ops weth k path) (build_arb ops B weth arb')" if "arb' \<in> set arbs" for arb'
    using assms(6,8) that by (intro build_arb_on_path [OF assms(2)]) auto
  from act_each_InrD [OF assms(1,3) builds_on_path_refl builds_on_path_trans keeps] obtain u v where
    before: "builds_on_path ops weth k path s u" and turn: "build_arb ops B weth arb u = (Inr (), v)"
    and later: "builds_on_path ops weth k path v t" by blast
  have "\<forall>a\<in>set path. known_pool ops a (world u) \<noteq> None"
    using before assms(7) by (fastforce simp: builds_on_path_def keeps_registered_def registers_more_def)
  from build_arb_stores [OF turn assms(2,4-6) this] obtain d where
    d: "map_of (all_arbs v) k = Some d" "arb_on_path ops weth k path (world v) d" by blast
  from later have reg: "registers_more ops (world v) (world t)"
    and some: "map_of (all_arbs t) k \<noteq> None"
    and which: "map_of (all_arbs t) k = Some e \<Longrightarrow> map_of (all_arbs v) k = Some e \<or> arb_on_path ops weth k path (world t) e" for e
    using d(1) by (simp_all add: builds_on_path_def keeps_registered_def)
  from some obtain e where e: "map_of (all_arbs t) k = Some e" by blast
  from which [OF this] d arb_on_path_later [OF d(2) reg] have "arb_on_path ops weth k path (world t) e" by auto
  with e show ?thesis by blast
qed

section \<open>The course of building\<close>

lemma build_arbs_InrE:
  assumes "build_arbs ops data arbs addresses s = (Inr (), t)"
  obtains u wrapped weth v B where "create_pool_helpers ops data (enum ops addresses) s = (Inr (), u)"
    and "world_only s v" and "json_get (chain_data s) ''wrapped_token'' = Inr wrapped"
    and "with_world (erc20 ops wrapped) u = (Inr weth, v)" and "blacklist ''arbs'' s = Inr B"
    and "act_each (build_arb ops B weth) arbs v = (Inr (), t)"
proof -
  from assms obtain u wrapped weth v B where 1: "create_pool_helpers ops data (enum ops addresses) s = (Inr (), u)"
    and 2: "json_get (chain_data u) ''wrapped_token'' = Inr wrapped" and 3: "with_world (erc20 ops wrapped) u = (Inr weth, v)"
    and 4: "blacklist ''arbs'' v = Inr B" and 5: "act_each (build_arb ops B weth) arbs v = (Inr (), t)"
    unfolding build_arbs_def by (elim pure_InrE act_bind_InrD) auto
  have u: "world_only s u" by (rule act_keepsD [OF only_world.keeps_helpers 1])
  have "world_only u v" by (rule act_keepsD [OF world_only_world 3])
  with u have v: "world_only s v" using world_only_trans by (meson transpE)
  from 2 4 world_only_simps [OF u] world_only_simps [OF v] have "json_get (chain_data s) ''wrapped_token'' = Inr wrapped"
    and "blacklist ''arbs'' s = Inr B" by simp_all
  with 1 3 5 v that show thesis by blast
qed

lemma path_pools_mem:
  assumes "path_pools data arb = Inr X" and "res_bind (json_key arb ''path'') json_iter = Inr path"
    and "a \<in> set path" and "map_of data a = Some x" and "truthy x"
  shows "a \<in> X"
proof -
  from assms(1,2) obtain sets where sets: "res_map (\<lambda>a. res_bind (has_data data a) (\<lambda>b. Inr (if b then {a} else {}))) path = Inr sets"
    and X: "X = \<Union> (set sets)" by (auto simp: path_pools_def res_bind_Inr_iff)
  from res_map_okD [OF sets assms(3)] assms(4,5) have "has_data data a = Inr True"
    by (auto simp: has_data_def dict_get_def res_bind_Inr_iff split: if_splits)
  from assms(3) obtain i where i: "i < length path" "path ! i = a" by (auto simp: in_set_conv_nth)
  with res_map_InrD [OF sets] have "i < length sets"
    "res_bind (has_data data a) (\<lambda>b. Inr (if b then {a} else {})) = Inr (sets ! i)"
    by (auto simp: list_all2_conv_all_nth)
  with \<open>has_data data a = Inr True\<close> have "sets ! i = {a}" "i < length sets" by simp_all
  with X show ?thesis by (metis UnionI insertI1 nth_mem)
qed

lemma unique_addresses_mem:
  assumes "unique_pool_addresses data arbs = Inr addresses" and "arb \<in> set arbs"
    and "res_bind (json_key arb ''path'') json_iter = Inr path"
    and "a \<in> set path" and "map_of data a = Some x" and "truthy x"
  shows "a \<in> addresses"
proof -
  from assms(1) obtain sets where sets: "res_map (path_pools data) arbs = Inr sets" and A: "addresses = \<Union> (set sets)"
    by (auto simp: unique_pool_addresses_def res_bind_Inr_iff)
  from assms(2) obtain i where i: "i < length arbs" "arbs ! i = arb" by (auto simp: in_set_conv_nth)
  with res_map_InrD [OF sets] have "path_pools data arb = Inr (sets ! i)" "i < length sets"
    by (auto simp: list_all2_conv_all_nth)
  from path_pools_mem [OF this(1) assms(3-6)] this(2) A show ?thesis by (metis UnionI nth_mem)
qed

end
