(* ===== verification/Pool_Properties.thy ===== *)
theory Pool_Properties
  imports Pool_Registry
begin

text \<open>
  What loading the pools and arbs guarantees, and what creating the managers leaves; each
  property is applied to a small installation with two V2 pools and one arb.
\<close>

section \<open>A small installation\<close>

definition demo_pools_json :: json where
  "demo_pools_json = JList
     [JObj [(''pool_address'', JStr ''0xp1''), (''token0'', JStr ''0xw''), (''token1'', JStr ''0xt''),
            (''type'', JStr ''UniswapV2''), (''exchange'', JStr ''uni'')],
      JObj [(''pool_address'', JStr ''0xp2''), (''token0'', JStr ''0xt''), (''token1'', JStr ''0xw''),
            (''type'', JStr ''UniswapV2''), (''exchange'', JStr ''uni'')]]"

definition demo_arb_json :: json where
  "demo_arb_json = JObj [(''id'', JStr ''arb1''),
     (''pools'', JObj [(''0xp1'', JObj [(''token0'', JStr ''0xw''), (''token1'', JStr ''0xt'')])]),
     (''path'', JList [JStr ''0xp1'', JStr ''0xp2''])]"

definition file_codec :: json_codec where
  "file_codec = \<lparr>u_loads = (\<lambda>t. if t = ''P'' then Inr demo_pools_json
       else if t = ''A'' then Inr (JObj [(''arb1'', demo_arb_json)])
       else if t = ''E'' then Inr (JObj []) else Inl ValueError),
     u_dumps = (\<lambda>v. Inl TypeError)\<rparr>"

definition install_fs :: file_system where
  "install_fs = [([''cb'', ''data'', ''base'', ''base_uni_v2.json''], File ''P''),
     ([''cb'', ''data'', ''base'', ''base_arb_paths_2.json''], File ''A''),
     ([''cb'', ''data'', ''base'', ''base_arb_paths_3.json''], File ''E'')]"

definition install_chain :: json where
  "install_chain = JObj [(''wrapped_token'', JStr ''0xw''),
     (''factories'', JObj [(''v2'', JObj [(''uni'', JObj [(''factory_address'', JStr ''0xf'')])]), (''v3'', JObj [])])]"

definition install_state :: "json \<Rightarrow> (string, string, nat) bot_state" where
  "install_state first_event = \<lparr>attrs = [(''first_event'', first_event), (''live'', JBool False)],
     aggregators = JNull, all_arbs = [],
     blacklists = Some [(''arbs'', {}), (''deployers'', {}), (''pools'', {}), (''tokens'', {JStr ''0xt''})],
     chain_data = install_chain, factories = JNull, failed_transactions = {},
     pool_managers = [(JStr ''0xf'', ''m'')], pools_to_process = q_empty, routers = JNull, spawned = [],
     world = 0\<rparr>"

definition install_ops :: "(string, string, nat) pool_ops" where
  "install_ops = \<lparr>fetch_events = (\<lambda>n w. (Inr (), w)), v2_manager = (\<lambda>a w. (Inr ''m2'', w)),
     v3_manager = (\<lambda>a w. (Inr ''m3'', w)), v2_pool = (\<lambda>m a b w. (Inr ''pool'', Suc w)),
     v3_pool = (\<lambda>m a b f w. (Inl ManagerError, w)), erc20 = (\<lambda>a w. (Inr ''WETH'', w)),
     known_pool = (\<lambda>a w. case a of JStr x \<Rightarrow> Some x | _ \<Rightarrow> None), check_cycle = (\<lambda>c w. (Inr (), w)),
     enum = (\<lambda>s. (if JStr ''0xp1'' \<in> s then [JStr ''0xp1''] else []) @ (if JStr ''0xp2'' \<in> s then [JStr ''0xp2''] else []))\<rparr>"

definition install_root :: path where
  "install_root = [''cb'']"

definition install_arb :: "string arb_details" where
  "install_arb = \<lparr>lp_cycle = new_cycle (JStr ''arb1'') ''WETH'' [''0xp1'', ''0xp2''], status = ''load''\<rparr>"

definition installed :: "(string, string, nat) bot_state" where
  "installed = (install_state (JInt 5))\<lparr>attrs := [(''first_event'', JInt 5), (''live'', JBool True), (''pools_loaded'', JBool True)],
     all_arbs := [(JStr ''arb1'', install_arb)], world := 2\<rparr>"

lemmas install_defs = demo_pools_json_def demo_arb_json_def file_codec_def install_fs_def install_chain_def
  install_state_def install_ops_def install_root_def install_arb_def installed_def

lemma install_data: "read_data file_codec install_root ''base'' install_fs (install_state (JInt 5)) =
    Inr ([(JStr ''0xp1'', JObj [(''pool_address'', JStr ''0xp1''), (''token0'', JStr ''0xw''), (''token1'', JStr ''0xt''),
            (''type'', JStr ''UniswapV2''), (''exchange'', JStr ''uni'')]),
          (JStr ''0xp2'', JObj [(''pool_address'', JStr ''0xp2''), (''token0'', JStr ''0xt''), (''token1'', JStr ''0xw''),
            (''type'', JStr ''UniswapV2''), (''exchange'', JStr ''uni'')])],
         [demo_arb_json], {JStr ''0xp1'', JStr ''0xp2''})"
  by code_simp

lemma install_load:
  "load_pools install_ops file_codec install_root ''base'' install_fs (install_state (JInt 5)) = (Inr (), installed)"
  by code_simp

section \<open>Loading\<close>

text \<open>
  Loading keeps every arb stored under its own id, however it ends.
\<close>

theorem load_pools_keeps_arbs_keyed:
  assumes "arbs_keyed (all_arbs s)" and "load_pools ops c root chain fs s = (r, t)"
  shows "arbs_keyed (all_arbs t)"
  using assms by (rule load_pools_keyed)

theorem load_pools_keeps_arbs_keyed_witness: "arbs_keyed (all_arbs installed)"
  by (rule load_pools_keeps_arbs_keyed [OF _ install_load]) (simp add: arbs_keyed_def install_state_def)

text \<open>
  C17: Every arb that loading added comes from an entry of one of the two path files whose key
  and whose id are not blacklisted; its cycle lists, in the order of the path, the pools
  registered for the addresses of the path, and for each of these addresses one of the pool
  files of the chain's factories holds an entry with this address whose address and whose
  token fields are all absent from the list of blacklisted pools.
\<close>

theorem loaded_arbs_sound:
  assumes "load_pools ops c root chain fs s = (r, t)" and "map_of (all_arbs t) k = Some d"
    and "map_of (all_arbs s) k \<noteq> Some d"
  shows "\<exists>arb key p v kvs A S v2 v3 files path ps weth.
     p \<in> set (arb_filepaths root chain) \<and> read_json c fs p = Inr v \<and> json_items v = Inr kvs \<and>
     (key, arb) \<in> set kvs \<and> blacklist ''arbs'' s = Inr A \<and> JStr key \<notin> A \<and> k \<notin> A \<and>
     json_get arb ''id'' = Inr k \<and> res_bind (json_key arb ''path'') json_iter = Inr path \<and>
     d = \<lparr>lp_cycle = new_cycle k weth ps, status = ''load''\<rparr> \<and>
     list_all2 (\<lambda>a p. \<exists>w. known_pool ops a w = Some p) path ps \<and>
     (path \<noteq> [] \<longrightarrow> blacklist ''pools'' s = Inr S) \<and>
     res_bind (json_get (chain_data s) ''factories'') (\<lambda>f. json_get f ''v2'') = Inr v2 \<and> res_bind (json_get (chain_data s) ''factories'') (\<lambda>f. json_get f ''v3'') = Inr v3 \<and>
     lp_filepaths root chain v2 v3 = Inr files \<and>
     (\<forall>a\<in>set path. \<exists>f\<in>set files. \<exists>fv xs x t0 t1. read_json c fs f = Inr fv \<and> json_iter fv = Inr xs \<and> x \<in> set xs \<and>
        json_key x ''pool_address'' = Inr a \<and> json_key x ''token0'' = Inr t0 \<and> json_key x ''token1'' = Inr t1 \<and>
        {a, t0, t1} \<inter> S = {})"
proof -
  obtain data arbs addresses r' u where rd: "read_data c root chain fs s = Inr (data, arbs, addresses)"
    and b: "build_arbs ops data arbs addresses s = (r', u)" and tu: "all_arbs t = all_arbs u"
    using assms(1) by (cases rule: load_pools_cases) (use assms(2,3) in auto)
  obtain v2 v3 files where versions: "res_bind (json_get (chain_data s) ''factories'') (\<lambda>f. json_get f ''v2'') = Inr v2"
      "res_bind (json_get (chain_data s) ''factories'') (\<lambda>f. json_get f ''v3'') = Inr v3" "lp_filepaths root chain v2 v3 = Inr files"
    and pools: "read_pools c fs (blacklist ''pools'' s) files [] = Inr data"
    and ra: "read_arbs c fs (blacklist ''arbs'' s) data (arb_filepaths root chain) = Inr arbs"
    by (rule read_data_files [OF rd])
  from b show ?thesis
  proof (cases rule: build_arbs_cases)
    case 1
    with assms(2,3) tu show ?thesis by (simp add: world_only_simps)
  next
    case (2 v B weth)
    let ?P = "\<lambda>k d. \<exists>arb\<in>set arbs. built ops B weth arb k d"
    have "act_keeps (adds_arbs ?P) (act_each (build_arb ops B weth) arbs)"
      by (rule adds.keeps_builds) auto
    from act_keepsD [OF this 2(3)] have "adds_arbs ?P v u" .
    with assms(2,3) tu world_only_simps(1) [OF 2(1)] obtain arb where arb: "arb \<in> set arbs" "built ops B weth arb k d"
      unfolding adds_arbs_def by force
    from arb(2) obtain pv path ps where p: "json_get arb ''id'' = Inr k" "k \<notin> B" "json_key arb ''path'' = Inr pv"
      "json_iter pv = Inr path" "list_all2 (\<lambda>a p. \<exists>w. known_pool ops a w = Some p) path ps"
      "d = \<lparr>lp_cycle = new_cycle k weth ps, status = ''load''\<rparr>"
      unfolding built_def by blast
    from read_arbs_set [OF ra [unfolded 2(2)]] arb(1) obtain p' v' kvs key where
      e: "p' \<in> set (arb_filepaths root chain)" "read_json c fs p' = Inr v'" "json_items v' = Inr kvs"
        "(key, arb) \<in> set kvs" "passes B data key arb" by auto
    have known: "\<exists>x. map_of data a = Some x" if "a \<in> set path" for a
      using e(5) p(3,4) that by (cases arb) (auto simp: passes_def)
    obtain S where S: "path \<noteq> [] \<Longrightarrow> blacklist ''pools'' s = Inr S"
    proof (cases "path = []")
      case False
      then obtain a x where "map_of data a = Some x" using known by (meson list.set_sel(1))
      with read_pools_needs_list [OF pools] that show thesis by auto
    qed (use that in blast)
    have "\<exists>f\<in>set files. \<exists>fv xs x t0 t1. read_json c fs f = Inr fv \<and> json_iter fv = Inr xs \<and> x \<in> set xs \<and>
        json_key x ''pool_address'' = Inr a \<and> json_key x ''token0'' = Inr t0 \<and> json_key x ''token1'' = Inr t1 \<and>
        {a, t0, t1} \<inter> S = {}" if a: "a \<in> set path" for a
    proof -
      obtain x where x: "map_of data a = Some x" using known [OF a] by blast
      from a have "path \<noteq> []" by auto
      then have "blacklist ''pools'' s = Inr S" by (rule S)
      from read_pools_sound [OF pools [unfolded this] x] x show ?thesis by (fastforce simp: admitted_def)
    qed
    with e p S 2(2) versions show ?thesis
      by (intro exI [of _ arb] exI [of _ key] exI [of _ p'] exI [of _ v'] exI [of _ kvs] exI [of _ B]
          exI [of _ S] exI [of _ v2] exI [of _ v3] exI [of _ files] exI [of _ path] exI [of _ ps] exI [of _ weth])
        (simp add: passes_def)
  qed
qed

theorem loaded_arbs_sound_witness:
  "\<exists>path. list_all2 (\<lambda>a p. \<exists>w. known_pool install_ops a w = Some p) path [''0xp1'', ''0xp2'']"
proof -
  have "map_of (all_arbs installed) (JStr ''arb1'') = Some install_arb" by (simp add: installed_def)
  from loaded_arbs_sound [OF install_load this] show ?thesis
    by (auto simp: install_state_def install_arb_def new_cycle_def)
qed











text \<open>
  C35: The list of blacklisted tokens has no effect: whatever tokens it holds, the same pools, the
  same arb paths and the same pool addresses are read.
\<close>

theorem token_blacklist_has_no_effect:
  assumes "read_data c root chain fs s = Inr (data, arbs, addresses)" and "blacklists s = Some d"
  shows "read_data c root chain fs (s\<lparr>blacklists := Some (AList.update ''tokens'' T d)\<rparr>) =
           Inr (data, arbs, addresses)"
proof -
  let ?s = "s\<lparr>blacklists := Some (AList.update ''tokens'' T d)\<rparr>"
  have same: "blacklist ''pools'' ?s = blacklist ''pools'' s" "blacklist ''arbs'' ?s = blacklist ''arbs'' s"
    and new: "blacklist ''tokens'' ?s = Inr T"
    using assms(2) by (simp_all add: blacklist_def dict_index_def update_conv)
  obtain S where "unique_pool_addresses data arbs = Inr addresses"
    and "unique_tokens (blacklist ''tokens'' s) data arbs = Inr S"
    by (rule read_data_Inr [OF assms(1)])
  then obtain Z where "unique_tokens (Inr T) data arbs = Inr Z"
    using unique_tokens_ok by blast
  with assms(1) show ?thesis
    by (simp add: read_data_def same new res_bind_Inr_iff del: blacklist_def) blast
qed

theorem token_blacklist_has_no_effect_witness:
  "\<exists>data arbs. read_data file_codec install_root ''base'' install_fs ((install_state (JInt 5))\<lparr>blacklists :=
       Some [(''arbs'', {}), (''deployers'', {}), (''pools'', {}), (''tokens'', {JStr ''0xw'', JStr ''0xt''})]\<rparr>) =
     Inr (data, arbs, {JStr ''0xp1'', JStr ''0xp2''})"
  using token_blacklist_has_no_effect [OF install_data, of _ "{JStr ''0xw'', JStr ''0xt''}"]
  by (auto simp: install_state_def)

section \<open>Pool managers\<close>

text \<open>
  C30: When creating the managers succeeds, exactly the factories of the versions v2 and v3 have
  been added to the factories that had a manager, the ready flag is set, and nothing else
  of the bot changed. While the first event is missing it does nothing but wait.
\<close>

theorem create_pool_managers_spec:
  assumes "create_pool_managers ops s = Some (Inr (), t)" and "truthy (chain_data s)"
    and "json_path (chain_data s) [''factories''] = Inr (JObj versions)"
  shows "set (map fst (pool_managers t)) = set (map fst (pool_managers s)) \<union> {a. managed versions a} \<and>
         get_attr ''pool_managers_ready'' t = Inr (JBool True) \<and>
         t = s\<lparr>attrs := attrs (set_attr ''pool_managers_ready'' (JBool True) s),
               pool_managers := pool_managers t, world := world t\<rparr> \<and>
         (\<exists>v. get_attr ''first_event'' s = Inr v \<and> truthy v)"
proof -
  from assms(1) obtain fe where fe: "get_attr ''first_event'' s = Inr fe" "truthy fe"
    by (auto simp: create_pool_managers_def split: sum.splits if_splits)
  obtain kvs where cd: "chain_data s = JObj kvs"
    using assms(3) by (cases "chain_data s") auto
  then have factories: "json_get (chain_data s) ''factories'' = Inr (JObj versions)"
    using assms(3) by (simp add: res_bind_Inr_iff)
  obtain b where b: "json_pred fe = Inr b"
    using assms(1,2) fe factories by (cases "json_pred fe") (auto simp: create_pool_managers_def act_raise_def)
  obtain r1 u where 1: "with_world (fetch_events ops b) s = (r1, u)" by (cases "with_world (fetch_events ops b) s")
  obtain r2 v where 2: "create_managers ops versions u = (r2, v)" by (cases "create_managers ops versions u")
  have ok: "r1 = Inr ()" "r2 = Inr ()" and t: "t = set_attr ''pool_managers_ready'' (JBool True) v"
    using assms(1,2) fe factories b 1 2
    by (auto simp: create_pool_managers_def act_bind_def act_lift_def act_update_def split: sum.splits)
  have "only_managers {} s u" by (rule act_keepsD [OF only_managers_world 1])
  moreover have "only_managers {a. managed versions a} u v" by (rule act_keepsD [OF create_managers_keeps 2])
  moreover have "a \<in> set (map fst (pool_managers v))" if "managed versions a" for a
    by (rule create_managers_Inr [OF 2 [unfolded ok] that])
  ultimately have keys: "set (map fst (pool_managers v)) = set (map fst (pool_managers s)) \<union> {a. managed versions a}"
    and u: "u = s\<lparr>pool_managers := pool_managers u, world := world u\<rparr>"
    and v: "v = u\<lparr>pool_managers := pool_managers v, world := world v\<rparr>"
    unfolding only_managers_def by blast+
  have veq: "v = s\<lparr>pool_managers := pool_managers v, world := world v\<rparr>" by (subst v, subst u) simp
  then have attrs: "attrs v = attrs s" by (metis bot_state.select_convs(1) bot_state.surjective bot_state.update_convs(8,12))
  have ready: "get_attr ''pool_managers_ready'' t = Inr (JBool True)" by (simp add: t)
  have "t = s\<lparr>attrs := attrs (set_attr ''pool_managers_ready'' (JBool True) s),
               pool_managers := pool_managers t, world := world t\<rparr>"
    using arg_cong [OF veq, of "\<lambda>x. x\<lparr>attrs := AList.update ''pool_managers_ready'' (JBool True) (attrs s)\<rparr>"]
    by (simp add: t set_attr_def attrs)
  moreover have "set (map fst (pool_managers t)) = set (map fst (pool_managers s)) \<union> {a. managed versions a}"
    using keys by (simp add: t)
  ultimately show ?thesis using fe ready by blast
qed

theorem create_pool_managers_spec_witness:
  "\<exists>t. create_pool_managers install_ops (install_state (JInt 5)) = Some (Inr (), t) \<and>
       JStr ''0xf'' \<in> set (map fst (pool_managers t))"
proof -
  obtain x where x: "create_pool_managers install_ops (install_state (JInt 5)) = Some x" and "fst x = Inr ()"
    by (cases "create_pool_managers install_ops (install_state (JInt 5))")
      (simp_all add: create_pool_managers_def install_state_def get_attr_def install_chain_def create_managers_def
        create_manager_def store_manager_def install_ops_def with_world_def act_bind_def act_lift_def act_update_def
        act_return_def)
  then obtain t where t: "create_pool_managers install_ops (install_state (JInt 5)) = Some (Inr (), t)"
    by (cases x) auto
  have "json_path (chain_data (install_state (JInt 5))) [''factories''] =
      Inr (JObj [(''v2'', JObj [(''uni'', JObj [(''factory_address'', JStr ''0xf'')])]), (''v3'', JObj [])])"
    by code_simp
  from create_pool_managers_spec [OF t _ this] t show ?thesis
    by (auto simp: install_state_def install_chain_def)
qed

end
