(* ===== verification/Arb_Bot_Run.thy ===== *)
theory Arb_Bot_Run
  imports Bots Pool_Properties Arbitrage_Report
begin

text \<open>
  The life of an arb bot: what every state it can reach from its construction satisfies. Nothing is
  enqueued or evaluated before loading has succeeded, and from then on the arbs stay what they
  were loaded as, so that every evaluation is of stored arbs.
\<close>

section \<open>Frames\<close>

text \<open>What the parts of \<open>initialize\<close> leave alone.\<close>

definition calm :: "('p, 'm, 'w) bot_state \<Rightarrow> ('p, 'm, 'w) bot_state \<Rightarrow> bool" where
  "calm s t \<longleftrightarrow> pools_to_process t = pools_to_process s \<and> spawned t = spawned s \<and> blacklists t = blacklists s"

definition quiet :: "('p, 'm, 'w) bot_state \<Rightarrow> ('p, 'm, 'w) bot_state \<Rightarrow> bool" where
  "quiet s t \<longleftrightarrow> calm s t \<and> all_arbs t = all_arbs s"

lemma calm_refl: "reflp calm" and calm_trans: "transp calm"
  by (auto simp: reflp_def transp_def calm_def)

lemma quiet_refl: "reflp quiet" and quiet_trans: "transp quiet"
  by (auto simp: reflp_def transp_def quiet_def calm_def)

interpretation calm: load_frame calm ops "\<lambda>k d. True" for ops
  by unfold_locales (auto simp: calm_refl calm_trans, auto simp: calm_def)

lemma quiet_with_world: "act_keeps quiet (with_world f)"
  by (auto simp: act_keeps_def with_world_def quiet_def calm_def split: prod.split)

lemma world_only_quiet: "world_only s t \<Longrightarrow> quiet s t"
  unfolding world_only_def quiet_def calm_def by (cases s; cases t) auto

lemma only_relevant_quiet: "only_relevant s t \<Longrightarrow> quiet s t"
  unfolding only_relevant_def quiet_def calm_def by (cases s; cases t) auto

lemma only_managers_quiet: "only_managers F s t \<Longrightarrow> quiet s t"
  unfolding only_managers_def quiet_def calm_def by (cases s; cases t) auto

lemma act_keeps_mono: "act_keeps R m \<Longrightarrow> (\<And>s t. R s t \<Longrightarrow> S s t) \<Longrightarrow> act_keeps S m"
  by (auto simp: act_keeps_def)

lemma create_pool_managers_quiet: "create_pool_managers ops s = Some (r, t) \<Longrightarrow> quiet s t"
proof -
  have act: "act_keeps quiet (act_bind (act_lift f) (\<lambda>factories.
                 act_bind (act_lift p) (\<lambda>b.
                 act_bind (with_world (fetch_events ops b)) (\<lambda>_.
                 act_bind (act_lift (json_items factories)) (\<lambda>versions.
                 act_bind (create_managers ops versions) (\<lambda>_.
                 act_update (set_attr ''pool_managers_ready'' (JBool True))))))))" for f p
  proof (intro act_keeps_bind_lift [OF quiet_refl] act_keeps_bind [OF quiet_trans] quiet_with_world)
    show "act_keeps quiet (act_update (set_attr ''pool_managers_ready'' (JBool True)))"
      by (simp add: act_keeps_def act_update_def quiet_def calm_def set_attr_def)
    show "act_keeps quiet (create_managers ops versions)" for versions
      using create_managers_keeps by (rule act_keeps_mono) (rule only_managers_quiet)
  qed
  assume "create_pool_managers ops s = Some (r, t)"
  then show "quiet s t"
    using act_keepsD [OF act] quiet_refl
    by (auto simp: create_pool_managers_def reflp_def split: sum.splits if_splits)
qed

lemma load_pools_calm:
  assumes "load_pools ops c root chain fs s = (r, t)" and "all_arbs s = []"
  shows "calm s t \<and> (r = Inr () \<longrightarrow> get_attr ''pools_loaded'' t = Inr (JBool True) \<and>
    (\<exists>A. blacklist ''arbs'' t = Inr A \<and> (\<forall>k. map_of (all_arbs t) k \<noteq> None \<longrightarrow> k \<notin> A)))"
proof -
  have built: "calm s u \<and> (\<exists>A. r' = Inr () \<longrightarrow> blacklist ''arbs'' u = Inr A \<and> (\<forall>k. map_of (all_arbs u) k \<noteq> None \<longrightarrow> k \<notin> A))"
    if "build_arbs ops data arbs addresses s = (r', u)" for data arbs addresses r' u
    using that
  proof (cases rule: build_arbs_cases)
    case 1
    then show ?thesis using world_only_quiet [of s u] by (simp add: quiet_def)
  next
    case (2 v B weth)
    have "calm v u" by (rule act_keepsD [OF calm.keeps_builds 2(3)]) simp
    moreover have "calm s v" using world_only_quiet [OF 2(1)] by (simp add: quiet_def)
    ultimately have su: "calm s u" using calm_trans by (blast elim: transpE)
    have "act_keeps (adds_arbs (\<lambda>k d. k \<notin> B)) (act_each (build_arb ops B weth) arbs)"
      by (rule adds.keeps_builds) (simp add: built_def)
    from act_keepsD [OF this 2(3)] have "\<forall>k. map_of (all_arbs u) k \<noteq> None \<longrightarrow> k \<notin> B"
      using assms(2) world_only_simps(1) [OF 2(1)] by (auto simp: adds_arbs_def)
    moreover have "blacklist ''arbs'' u = Inr B" using 2(2) su by (simp add: blacklist_def calm_def)
    ultimately show ?thesis using su by blast
  qed
  from assms(1) show ?thesis
  proof (cases rule: load_pools_cases)
    case 1
    then show ?thesis by (simp add: calm_def)
  next
    case (2 e data arbs addresses)
    with built show ?thesis by blast
  next
    case (3 data arbs addresses u)
    from built [OF 3(3)] obtain A where "calm s u" "blacklist ''arbs'' u = Inr A"
      "\<forall>k. map_of (all_arbs u) k \<noteq> None \<longrightarrow> k \<notin> A" by auto
    moreover have "calm u t" by (simp add: 3(4) calm_def set_attr_def)
    ultimately show ?thesis using calm_trans by (auto simp: 3(4) blacklist_def elim: transpE)
  qed
qed

section \<open>The invariant\<close>

definition loaded :: "('p, 'm, 'w) bot_state \<Rightarrow> bool" where
  "loaded st \<longleftrightarrow> get_attr ''pools_loaded'' st = Inr (JBool True) \<and>
     (\<exists>A. blacklist ''arbs'' st = Inr A \<and> (\<forall>k. map_of (all_arbs st) k \<noteq> None \<longrightarrow> k \<notin> A))"

definition idle :: "('p, 'm, 'w) arb_bot \<Rightarrow> bool" where
  "idle b \<longleftrightarrow> pools_to_process (bot_core b) = q_empty \<and> spawned (bot_core b) = []"

definition arb_inv :: "('p, 'm, 'v) arb_env \<Rightarrow> ('p, 'm, 'v registry_scheme) arb_bot \<Rightarrow> bool" where
  "arb_inv env b \<longleftrightarrow> arbs_keyed (all_arbs (bot_core b)) \<and>
     (\<forall>cs\<in>set (evals (looped b)). cs \<noteq> [] \<and> (\<exists>a. cs = find_affected_arbs (address_of_pool env) (all_arbs (bot_core b)) a)) \<and>
     (phase b \<noteq> Started \<longrightarrow> evals (looped b) = []) \<and>
     (phase b \<in> {Deploying, Waiting} \<longrightarrow> idle b \<and> all_arbs (bot_core b) = []) \<and>
     (phase b \<in> {Awaiting_Live, Started} \<longrightarrow> loaded (bot_core b))"

lemma bot_simps [simp]:
  "bot_core (set_core st b) = st" "evals (looped (set_core st b)) = evals (looped b)" "phase (set_core st b) = phase b"
  "bot_core (b\<lparr>phase := p\<rparr>) = bot_core b" "bot_core (b\<lparr>blacklist_svc := v\<rparr>) = bot_core b"
  "bot_core (b\<lparr>listening := l\<rparr>) = bot_core b" "bot_core (b\<lparr>looped := ls\<rparr>) = core ls"
  by (simp_all add: bot_core_def set_core_def)

lemma arb_inv_start: "all_arbs st = [] \<Longrightarrow> pools_to_process st = q_empty \<Longrightarrow> spawned st = [] \<Longrightarrow> arb_inv env (arb_bot_of st)"
  by (simp add: arb_inv_def arb_bot_of_def idle_def bot_core_def arbs_keyed_def)

text \<open>A step that leaves the arbs and the list of them alone, in a phase where it may enqueue or not.\<close>

lemma arb_inv_same_arbs:
  assumes "arb_inv env b" and "all_arbs st = all_arbs (bot_core b)" and "blacklists st = blacklists (bot_core b)"
    and "get_attr ''pools_loaded'' st = get_attr ''pools_loaded'' (bot_core b)"
    and "phase b \<in> {Awaiting_Live, Started} \<or> calm (bot_core b) st"
  shows "arb_inv env (set_core st b)"
  using assms unfolding arb_inv_def loaded_def idle_def calm_def blacklist_def bot_simps
  by (cases "phase b"; simp)

lemma finish_initialize_inv:
  assumes "arb_inv env b" and "phase b = Waiting" and "finish_initialize env fs b = Some b'"
  shows "arb_inv env b'"
proof -
  have b: "evals (looped b) = []" "all_arbs (bot_core b) = []" using assms(1,2) by (simp_all add: arb_inv_def)
  from assms(3) obtain r st where m: "create_pool_managers (pool_calls env) (bot_core b) = Some (r, st)"
    by (auto simp: finish_initialize_def split: option.splits)
  from create_pool_managers_quiet [OF m] have st: "all_arbs st = []" using b by (simp add: quiet_def)
  show ?thesis
  proof (cases r)
    case (Inl e)
    with m assms(3) have "b' = (set_core st b)\<lparr>phase := Failed e\<rparr>" by (simp add: finish_initialize_def)
    with st b show ?thesis by (simp add: arb_inv_def arbs_keyed_def)
  next
    case (Inr x)
    obtain r1 svc where l: "load_blacklists (ujson env) (package env) (chain_name_of env) fs (blacklist_svc b) = (r1, svc)"
      by fastforce
    show ?thesis
    proof (cases r1)
      case e: (Inl e)
      with m l Inr assms(3) have "b' = (set_core st b)\<lparr>blacklist_svc := svc, phase := Failed e\<rparr>"
        by (simp add: finish_initialize_def)
      with st b show ?thesis by (simp add: arb_inv_def arbs_keyed_def)
    next
      case ok: (Inr y)
      let ?st = "st\<lparr>blacklists := bot_view svc\<rparr>"
      obtain r2 st' where p: "load_chain_pools (pool_calls env) (ujson env) (package env) fs ?st = (r2, st')"
        by fastforce
      have b': "b' = (set_core st' b)\<lparr>blacklist_svc := svc, phase := (case r2 of Inl e \<Rightarrow> Failed e | Inr _ \<Rightarrow> Awaiting_Live)\<rparr>"
        using m l p Inr ok assms(3) by (simp add: finish_initialize_def split: sum.splits)
      from p have "arbs_keyed (all_arbs st') \<and> (r2 = Inr () \<longrightarrow> loaded st')"
      proof (cases rule: load_chain_pools_cases)
        case (2 chain)
        have "arbs_keyed (all_arbs st')" by (rule load_pools_keyed [OF _ 2]) (simp add: st arbs_keyed_def)
        with load_pools_calm [OF 2] st show ?thesis by (simp add: loaded_def)
      qed (simp add: st arbs_keyed_def)
      with b(1) show ?thesis by (cases r2) (simp_all add: b' arb_inv_def)
    qed
  qed
qed

lemma main_step_inv:
  assumes "arb_inv env b" and "main_step env fs b = Some b'"
  shows "arb_inv env b'"
proof (cases "phase b")
  case Deploying
  let ?deploy = "with_world (add_deployments (checksum_address env) (register_exchange env) (chain_data (bot_core b)))"
  obtain r st where w: "?deploy (bot_core b) = (r, st)" by fastforce
  have "quiet (bot_core b) st" by (rule act_keepsD [OF quiet_with_world w])
  then have "idle b \<and> all_arbs st = [] \<and> calm (bot_core b) st \<and> evals (looped b) = []"
    using assms(1) Deploying by (simp add: arb_inv_def quiet_def)
  moreover have "b' = (set_core st b)\<lparr>phase := (case r of Inl e \<Rightarrow> Failed e | Inr _ \<Rightarrow> Waiting)\<rparr>"
    using assms(2) unfolding main_step_def Deploying phase.case w prod.case by (cases r; simp)
  ultimately show ?thesis unfolding arb_inv_def idle_def calm_def by (cases r; simp add: arbs_keyed_def)
next
  case Waiting
  with assms(2) have "finish_initialize env fs b = Some b'" by (simp add: main_step_def)
  then show ?thesis by (rule finish_initialize_inv [OF assms(1) Waiting])
next
  case Awaiting_Live
  then have "b' = b\<lparr>phase := Started\<rparr> \<or> (\<exists>e. b' = b\<lparr>phase := Failed e\<rparr>)"
    using assms(2) by (auto simp: main_step_def split: sum.splits if_splits)
  with assms(1) Awaiting_Live show ?thesis unfolding arb_inv_def by (elim disjE exE; simp)
qed (use assms(2) in \<open>simp_all add: main_step_def\<close>)

lemma arb_reach_inv:
  assumes "arb_reach env b0 b" and "arb_inv env b0"
  shows "arb_inv env b"
  using assms
proof (induction rule: arb_reach.induct)
  case created
  then show ?case .
next
  case (run_part b fs b')
  then show ?case using main_step_inv by blast
next
  case (app_state b m r st)
  have rel: "only_relevant (bot_core b) st" by (rule act_keepsD [OF state_message_only_relevant app_state.hyps(4)])
  have "quiet (bot_core b) st" by (rule only_relevant_quiet [OF rel])
  moreover have "get_attr ''pools_loaded'' st = get_attr ''pools_loaded'' (bot_core b)"
    using rel by (simp add: only_relevant_def relevant_keys_def)
  ultimately have "arb_inv env (set_core st b)"
    using app_state by (intro arb_inv_same_arbs) (simp_all add: quiet_def calm_def)
  then show ?case by (simp add: arb_inv_def idle_def)
next
  case (chain_event b m r st)
  have "message_frame (bot_core b) st" using handle_message_frame [OF chain_event.hyps(3)] by blast
  then show ?case using chain_event
    by (intro arb_inv_same_arbs) (simp_all add: message_frame_def)
next
  case (put_task b st)
  then show ?case
    by (intro arb_inv_same_arbs) (auto simp: run_put_def get_attr_def split: list.splits)
next
  case (evaluate b a ls)
  note step = find_onchain_step_Some [OF evaluate.hyps(3)]
  have same: "all_arbs (core ls) = all_arbs (bot_core b)" "blacklists (core ls) = blacklists (bot_core b)"
    "attrs (core ls) = attrs (bot_core b)"
    using evaluate.hyps(3) by (auto simp: find_onchain_step_def Let_def bot_core_def split: option.splits sum.splits)
  show ?case
    using evaluate step(4) by (auto simp: arb_inv_def same loaded_def blacklist_def get_attr_def bot_core_def)
qed


section \<open>Construction\<close>

lemma host_InrE:
  assumes "on_host f h = (Inr x, h')"
  obtains w where "f (host_world h) = (Inr x, w)" and "h' = h\<lparr>host_world := w\<rparr>"
  using assms by (auto simp: on_host_def split: prod.splits)

lemma open_resource_bind [simp]: "act_bind (open_resource x) k h = k () (h\<lparr>opened := opened h @ [x]\<rparr>)"
  by (simp add: open_resource_def)

text \<open>What a fresh state of the arb bot is like.\<close>

definition fresh_arb_state :: "json \<Rightarrow> ('p, 'm, 'w) bot_state \<Rightarrow> bool" where
  "fresh_arb_state chain st \<longleftrightarrow> chain_data st = chain \<and> get_attr ''live'' st = Inr (JBool False) \<and>
     get_attr ''first_event'' st = Inr JNull \<and> all_arbs st = [] \<and> pools_to_process st = q_empty \<and> spawned st = []"

lemma ArbBotState_Inr:
  assumes "ArbBotState ops name chain h = (Inr st, h1)"
  shows "fresh_arb_state chain st \<and> opened h1 = opened h @ [Executor, Http_Session, Redis_Client]"
  using assms unfolding ArbBotState_def
  apply (elim lift_InrE act_bind_InrD host_InrE)
  apply (simp only: act_read_def open_resource_def act_update_def prod.inject sum.inject)
  apply (elim conjE)
  apply hypsubst
  apply (simp add: fresh_arb_state_def get_attr_def chain_attrs_def app_state_attrs_def)
  done

lemma new_arb_bot_Inr:
  assumes "new_arb_bot ops chain_table root name h = (Inr st, h1)"
  shows "truthy (chain_entry chain_table name) \<and> fresh_arb_state (chain_entry chain_table name) st \<and>
    world st = host_world h1 \<and> opened h1 = opened h @ [Executor, Http_Session, Redis_Client]"
proof -
  have t: "truthy (chain_entry chain_table name)"
    using assms by (cases "truthy (chain_entry chain_table name)") (simp_all add: new_arb_bot_def act_raise_def)
  obtain st0 h0 where s: "ArbBotState ops name (chain_entry chain_table name) h = (Inr st0, h0)"
    and st: "st = st0\<lparr>world := host_world h1\<rparr>" and h1: "opened h1 = opened h0"
    using assms t unfolding new_arb_bot_def Let_def
    apply (simp only: not_True_eq_False if_False)
    apply (elim act_bind_InrD host_InrE)
    apply (simp add: act_read_def)
    apply (elim conjE)
    apply hypsubst
    apply simp
    done
  from ArbBotState_Inr [OF s] t st h1 show ?thesis by (simp add: fresh_arb_state_def get_attr_def)
qed

end
