(* ===== verification/Exchange_Properties.thy ===== *)
theory Exchange_Properties
  imports Exchange_Service
begin

text \<open>
  What \<open>add_deployments\<close> leaves in degenbot's table: the old entries, and for every other address
  the first supported factory of the chain data with it. A V3 factory of an unsupported exchange
  reaches the registration with the deployment of an earlier turn, which the table refuses.
\<close>

section \<open>The law of registration\<close>

abbreviation ed_address :: "exchange_deployment \<Rightarrow> string" where
  "ed_address d \<equiv> fd_address (ed_factory d)"

text \<open>
  \<open>register_exchange\<close> raises when the address is known for the chain and changes nothing then;
  otherwise it enters the factory.
\<close>

definition registers :: "(exchange_deployment \<Rightarrow> ('v registry_scheme, unit) act) \<Rightarrow> bool" where
  "registers register \<longleftrightarrow>
     (\<forall>d r m. map_of (FACTORY_DEPLOYMENTS r) (ed_chain_id d) = Some m \<longrightarrow>
        (if map_of m (ed_address d) \<noteq> None then \<exists>e. register d r = (Inl e, r) \<and> is_Exception e
         else \<exists>t. register d r = (Inr (), t) \<and>
           FACTORY_DEPLOYMENTS t =
             AList.update (ed_chain_id d) (AList.update (ed_address d) (ed_factory d) m) (FACTORY_DEPLOYMENTS r)))"

lemma registers_known:
  assumes "registers register" and "map_of (FACTORY_DEPLOYMENTS r) (ed_chain_id d) = Some m"
    and "map_of m (ed_address d) \<noteq> None"
  shows "\<exists>e. register d r = (Inl e, r) \<and> is_Exception e"
  using assms unfolding registers_def by presburger

lemma registers_new:
  assumes "registers register" and "map_of (FACTORY_DEPLOYMENTS r) (ed_chain_id d) = Some m"
    and "map_of m (ed_address d) = None"
  shows "\<exists>t. register d r = (Inr (), t) \<and> FACTORY_DEPLOYMENTS t =
           AList.update (ed_chain_id d) (AList.update (ed_address d) (ed_factory d) m) (FACTORY_DEPLOYMENTS r)"
  using assms unfolding registers_def by (metis (no_types, lifting))

section \<open>What the chain data offer\<close>

text \<open>The factory a turn of the loop would enter, and all of them in the order of the loops.\<close>

definition offer :: "(json \<Rightarrow> string res) \<Rightarrow> string \<Rightarrow> string \<times> json \<Rightarrow> (string \<times> factory_deployment) option" where
  "offer checksum version = (\<lambda>(exchange_name, factory_info).
     case (res_bind (json_get factory_info ''factory_address'') checksum, json_get factory_info ''pool_init_hash'') of
       (Inr a, Inr h) \<Rightarrow>
         (let entry = (\<lambda>abi. (a, \<lparr>fd_address = a, fd_pool_init_hash = h, fd_pool_abi = abi\<rparr>)) in
          if version = ''v2'' then Some (entry UNISWAP_V2_POOL_ABI)
          else if version = ''v3'' then map_option entry (map_of [(''uniswap'', UNISWAP_V3_POOL_ABI), (''pancakeswap'', PANCAKESWAP_V3_POOL_ABI)] exchange_name)
          else None)
     | _ \<Rightarrow> None)"

lemma v3_abi_table: "v3_abi x = map_of [(''uniswap'', UNISWAP_V3_POOL_ABI), (''pancakeswap'', PANCAKESWAP_V3_POOL_ABI)] x"
  by (simp add: v3_abi_def)

lemmas offer_unfold = offer_def [folded v3_abi_table]

definition offered :: "(json \<Rightarrow> string res) \<Rightarrow> (string \<times> json) list \<Rightarrow> (string \<times> factory_deployment) list" where
  "offered checksum versions = concat (map (\<lambda>(version, factories).
     case json_items factories of Inr kvs \<Rightarrow> List.map_filter (offer checksum version) kvs | Inl _ \<Rightarrow> []) versions)"

section \<open>Progress of the loops\<close>

definition deploys ::
  "json \<Rightarrow> (string \<times> factory_deployment) list \<Rightarrow> 'v registry_scheme \<Rightarrow> 'v registry_scheme \<Rightarrow> bool" where
  "deploys c os r t \<longleftrightarrow>
     (\<exists>m m'. map_of (FACTORY_DEPLOYMENTS r) c = Some m \<and> map_of (FACTORY_DEPLOYMENTS t) c = Some m' \<and>
        map_of m' = map_of os ++ map_of m) \<and>
     (\<forall>c'. c' \<noteq> c \<longrightarrow> map_of (FACTORY_DEPLOYMENTS t) c' = map_of (FACTORY_DEPLOYMENTS r) c')"

definition bound_ok :: "json \<Rightarrow> exchange_deployment option \<Rightarrow> 'v registry_scheme \<Rightarrow> bool" where
  "bound_ok c b r \<longleftrightarrow> (\<forall>d. b = Some d \<longrightarrow> ed_chain_id d = c \<and>
     (\<exists>m. map_of (FACTORY_DEPLOYMENTS r) c = Some m \<and> map_of m (ed_address d) \<noteq> None))"

lemma deploys_refl: "map_of (FACTORY_DEPLOYMENTS r) c = Some m \<Longrightarrow> deploys c [] r r"
  by (simp add: deploys_def)

lemma deploys_trans: "deploys c os r t \<Longrightarrow> deploys c ps t u \<Longrightarrow> deploys c (os @ ps) r u"
  by (fastforce simp: deploys_def)

lemma deploysD: "deploys c os r t \<Longrightarrow> \<exists>m. map_of (FACTORY_DEPLOYMENTS t) c = Some m"
  by (auto simp: deploys_def)

lemma bound_ok_None [simp]: "bound_ok c None r"
  by (simp add: bound_ok_def)

lemma register_bound_known:
  assumes "registers register" and "bound_ok c b r"
  shows "register_bound register b r = (Inr (), r)"
proof (cases b)
  case None
  then show ?thesis
    by (simp add: register_bound_def act_logged_def act_try_def act_raise_def is_Exception_def act_return_def)
next
  case (Some d)
  with assms(2) obtain m where m: "map_of (FACTORY_DEPLOYMENTS r) (ed_chain_id d) = Some m" "map_of m (ed_address d) \<noteq> None"
    by (auto simp: bound_ok_def)
  from registers_known [OF assms(1) m] obtain e where "register d r = (Inl e, r)" "is_Exception e" by blast
  with Some show ?thesis by (simp add: register_bound_def act_logged_def act_try_def act_return_def)
qed

lemma register_bound_new:
  assumes "registers register" and "map_of (FACTORY_DEPLOYMENTS r) c = Some m" and "ed_chain_id d = c"
    and "map_of m (ed_address d) = None"
  shows "\<exists>t. register_bound register (Some d) r = (Inr (), t) \<and>
           deploys c [(ed_address d, ed_factory d)] r t \<and> bound_ok c (Some d) t"
proof -
  from registers_new [OF assms(1), of r d m] assms(2-4) obtain t where
    "register d r = (Inr (), t)" "FACTORY_DEPLOYMENTS t = AList.update c (AList.update (ed_address d) (ed_factory d) m) (FACTORY_DEPLOYMENTS r)"
    by auto
  with assms show ?thesis
    by (intro exI [of _ t]) (auto simp: register_bound_def act_logged_def act_try_def act_return_def deploys_def
        bound_ok_def update_conv map_add_def fun_eq_iff split: option.split)
qed

text \<open>One turn.\<close>

lemma add_factory_progress:
  assumes reg: "registers register" and m: "map_of (FACTORY_DEPLOYMENTS r) c = Some m" and ok: "bound_ok c b r"
    and run: "add_factory checksum register c name version e b r = (Inr b', t)"
  shows "deploys c (List.map_filter (offer checksum version) [e]) r t \<and> bound_ok c b' t"
proof -
  obtain x info where e: "e = (x, info)" by (cases e)
  from run [unfolded add_factory_def e prod.case] obtain a h where
    a: "res_bind (json_get info ''factory_address'') checksum = Inr a" and h: "json_get info ''pool_init_hash'' = Inr h"
    by (auto elim!: act_bind_InrD simp: act_lift_def)
  have index: "dict_index (FACTORY_DEPLOYMENTS r) c = Inr m" using m by simp
  have unfolded: "add_factory checksum register c name version e b r =
     (if map_of m a \<noteq> None then act_return b
     else if version = ''v2'' then
       let d = \<lparr>ed_name = (name, x, version), ed_chain_id = c,
             ed_factory = \<lparr>fd_address = a, fd_pool_init_hash = h,
               fd_pool_abi = UNISWAP_V2_POOL_ABI\<rparr>, ed_tick_lens = None\<rparr>
       in act_bind (register_bound register (Some d)) (\<lambda>_. act_return (Some d))
     else if version = ''v3'' then
       act_bind (act_lift (res_bind (json_get info ''tick_lens'') checksum)) (\<lambda>tick_lens.
       let bound' = (case v3_abi x of
             Some abi \<Rightarrow> Some \<lparr>ed_name = (name, x, version), ed_chain_id = c,
               ed_factory = \<lparr>fd_address = a, fd_pool_init_hash = h,
                 fd_pool_abi = abi\<rparr>, ed_tick_lens = Some tick_lens\<rparr>
           | None \<Rightarrow> b)
       in act_bind (register_bound register bound') (\<lambda>_. act_return bound'))
     else act_return b) r"
    unfolding add_factory_def e prod.case a h act_bind_simps act_bind_pure index sum.case by (rule refl)
  note run = run [unfolded unfolded]
  have stay: ?thesis if "(b', t) = (b, r)" "\<And>f. offer checksum version e = Some f \<Longrightarrow> map_of m (fst f) \<noteq> None"
  proof (cases "offer checksum version e")
    case None
    with that(1) ok m show ?thesis by (simp add: List.map_filter_simps deploys_refl)
  next
    case (Some f)
    with that(2) have "map_of m (fst f) \<noteq> None" by simp
    then have "map_of [f] ++ map_of m = map_of m"
      by (cases f) (auto simp: map_add_def fun_eq_iff split: option.split)
    with Some that(1) ok m show ?thesis by (simp add: List.map_filter_simps deploys_def)
  qed
  show ?thesis
  proof (cases "map_of m a = None")
    case False
    with run have "(b', t) = (b, r)" by (simp add: act_return_def)
    moreover have "fst f = a" if "offer checksum version e = Some f" for f
      using that a h by (auto simp: offer_unfold e Let_def split: if_splits)
    ultimately show ?thesis using stay False by simp
  next
    case new: True
    consider "version = ''v2''" | "version = ''v3''" | "version \<noteq> ''v2''" "version \<noteq> ''v3''" by blast
    then show ?thesis
    proof cases
      case 1
      let ?d = "\<lparr>ed_name = (name, x, version), ed_chain_id = c,
             ed_factory = \<lparr>fd_address = a, fd_pool_init_hash = h,
               fd_pool_abi = UNISWAP_V2_POOL_ABI\<rparr>, ed_tick_lens = None\<rparr>"
      from register_bound_new [OF reg m, of ?d] new obtain u where
        u: "register_bound register (Some ?d) r = (Inr (), u)" "deploys c [(a, ed_factory ?d)] r u" "bound_ok c (Some ?d) u"
        by auto
      with run 1 new have "t = u" "b' = Some ?d" by (simp_all add: act_bind_def act_return_def act_lift_def Let_def)
      moreover have "offer checksum version e = Some (a, ed_factory ?d)" using a h 1 by (simp add: offer_unfold e)
      ultimately show ?thesis using u by (simp add: List.map_filter_simps)
    next
      case 2
      then have v: "version \<noteq> ''v2''" by simp
      from run new 2 v obtain l where l: "res_bind (json_get info ''tick_lens'') checksum = Inr l"
        by (auto elim!: act_bind_InrD simp: act_lift_def)
      show ?thesis
      proof (cases "v3_abi x")
        case None
        with run new 2 v l register_bound_known [OF reg ok] have "(b', t) = (b, r)"
          by (simp add: act_bind_def act_return_def act_lift_def Let_def)
        moreover have "offer checksum version e = None" using a h 2 None by (simp add: offer_unfold e)
        ultimately show ?thesis using stay by simp
      next
        case (Some abi)
        let ?d = "\<lparr>ed_name = (name, x, version), ed_chain_id = c,
               ed_factory = \<lparr>fd_address = a, fd_pool_init_hash = h,
                 fd_pool_abi = abi\<rparr>, ed_tick_lens = Some l\<rparr>"
        from register_bound_new [OF reg m, of ?d] new obtain u where
          u: "register_bound register (Some ?d) r = (Inr (), u)" "deploys c [(a, ed_factory ?d)] r u" "bound_ok c (Some ?d) u"
          by auto
        with run 2 v new l Some have "t = u" "b' = Some ?d" by (simp_all add: act_bind_def act_return_def act_lift_def Let_def)
        moreover have "offer checksum version e = Some (a, ed_factory ?d)" using a h 2 Some by (simp add: offer_unfold e)
        ultimately show ?thesis using u by (simp add: List.map_filter_simps)
      qed
    next
      case 3
      with run new have "(b', t) = (b, r)" by (simp add: act_return_def)
      moreover have "offer checksum version e = None" using a h 3 by (simp add: offer_unfold e)
      ultimately show ?thesis using stay by simp
    qed
  qed
qed

text \<open>The inner loop and the two loops.\<close>

lemma add_factories_progress:
  assumes "registers register" and "map_of (FACTORY_DEPLOYMENTS r) c = Some m" and "bound_ok c b r"
    and "act_carry (add_factory checksum register c name version) kvs b r = (Inr b', t)"
  shows "deploys c (List.map_filter (offer checksum version) kvs) r t \<and> bound_ok c b' t"
  using assms(2-)
proof (induction kvs arbitrary: b r m)
  case Nil
  then show ?case by (auto simp: act_return_def List.map_filter_simps intro: deploys_refl)
next
  case (Cons e kvs)
  from Cons.prems(3) obtain b1 r1 where 1: "add_factory checksum register c name version e b r = (Inr b1, r1)"
    and 2: "act_carry (add_factory checksum register c name version) kvs b1 r1 = (Inr b', t)"
    by (auto elim: act_bind_InrD)
  note p = add_factory_progress [OF assms(1) Cons.prems(1,2) 1]
  from p obtain m1 where "map_of (FACTORY_DEPLOYMENTS r1) c = Some m1" using deploysD by blast
  from Cons.IH [OF this _ 2] p have "deploys c (List.map_filter (offer checksum version) kvs) r1 t" "bound_ok c b' t"
    by blast+
  with deploys_trans [OF conjunct1 [OF p]] show ?case
    by (fastforce simp: List.map_filter_simps split: option.splits)
qed

lemma add_versions_progress:
  assumes "registers register" and "map_of (FACTORY_DEPLOYMENTS r) c = Some m" and "bound_ok c b r"
    and "add_versions checksum register c name versions b r = (Inr b', t)"
  shows "deploys c (offered checksum versions) r t \<and> bound_ok c b' t"
  using assms(2-)
proof (induction versions arbitrary: b r m)
  case Nil
  then show ?case by (auto simp: add_versions_def act_return_def offered_def intro: deploys_refl)
next
  case (Cons e versions)
  obtain version fs where e: "e = (version, fs)" by (cases e)
  from Cons.prems(3) obtain kvs b1 r1 where k: "json_items fs = Inr kvs"
    and 1: "act_carry (add_factory checksum register c name version) kvs b r = (Inr b1, r1)"
    and 2: "add_versions checksum register c name versions b1 r1 = (Inr b', t)"
    by (auto simp: add_versions_def e act_lift_def elim!: act_bind_InrD)
  note p = add_factories_progress [OF assms(1) Cons.prems(1,2) 1]
  from p obtain m1 where "map_of (FACTORY_DEPLOYMENTS r1) c = Some m1" using deploysD by blast
  from Cons.IH [OF this _ 2] p have "deploys c (offered checksum versions) r1 t" "bound_ok c b' t" by blast+
  with deploys_trans [OF conjunct1 [OF p]] show ?case by (fastforce simp: offered_def e k)
qed

lemma setdefault_get: "map_of (setdefault k d) k' = (if k' = k \<and> map_of d k = None then Some [] else map_of d k')"
  by (auto simp: setdefault_def update_conv)

section \<open>Properties\<close>

definition lookup_factory :: "'v registry_scheme \<Rightarrow> json \<Rightarrow> string \<Rightarrow> factory_deployment option" where
  "lookup_factory r c a = Option.bind (map_of (FACTORY_DEPLOYMENTS r) c) (\<lambda>m. map_of m a)"

text \<open>The chain data of a small installation: a V2 factory, a V3 one and an unsupported V3 one.\<close>

definition dex_entry :: "string \<Rightarrow> json" where
  "dex_entry a = JObj [(''factory_address'', JStr a), (''pool_init_hash'', JStr ''0x''), (''tick_lens'', JStr ''0xle'')]"

definition dex_versions :: "(string \<times> json) list" where
  "dex_versions = [(''v2'', JObj [(''sushi'', dex_entry ''0xf2'')]),
     (''v3'', JObj [(''uniswap'', dex_entry ''0xf3''), (''sushi'', dex_entry ''0xf4'')])]"

definition dex_chain :: json where
  "dex_chain = JObj [(''chain_id'', JInt 1), (''name'', JStr ''ethereum''), (''factories'', JObj dex_versions)]"

definition dex_registry :: registry where
  "dex_registry = \<lparr>FACTORY_DEPLOYMENTS = [], TICKLENS_DEPLOYMENTS = [], ROUTER_DEPLOYMENTS = [], router_contracts = []\<rparr>"

definition dex_checksum :: "json \<Rightarrow> string res" where
  "dex_checksum v = (case v of JStr s \<Rightarrow> Inr s | _ \<Rightarrow> Inl TypeError)"

definition dex_register :: "exchange_deployment \<Rightarrow> (registry, unit) act" where
  "dex_register d r = (case map_of (FACTORY_DEPLOYMENTS r) (ed_chain_id d) of
       None \<Rightarrow> (Inl KeyError, r)
     | Some m \<Rightarrow> if map_of m (ed_address d) \<noteq> None then (Inl ValueError, r)
         else (Inr (), r\<lparr>FACTORY_DEPLOYMENTS :=
           AList.update (ed_chain_id d) (AList.update (ed_address d) (ed_factory d) m) (FACTORY_DEPLOYMENTS r)\<rparr>))"

lemma dex_registers: "registers dex_register"
  by (auto simp: registers_def dex_register_def is_Exception_def)

definition dex_after :: "unit res \<times> registry" where
  "dex_after = add_deployments dex_checksum dex_register dex_chain dex_registry"

lemma dex_after: "fst dex_after = Inr ()"
  by code_simp

text \<open>
  C11: After \<open>add_deployments\<close> the table of the chain holds exactly its old entries and, for every
  other address, the first factory of the chain data with that address that is a V2 factory or
  a V3 factory of uniswap or pancakeswap, with its own init hash and the pool ABI of its
  exchange; the tables of other chains are as before.
\<close>

theorem add_deployments_exact:
  assumes "add_deployments checksum register chain r = (Inr (), t)" and "registers register"
  shows "\<exists>c versions. json_key chain ''chain_id'' = Inr c \<and>
     res_bind (json_get_obj chain ''factories'') json_items = Inr versions \<and>
     lookup_factory t c = map_of (offered checksum versions) ++ lookup_factory r c \<and>
     (\<forall>c'. c' \<noteq> c \<longrightarrow> lookup_factory t c' = lookup_factory r c')"
proof -
  from assms(1) obtain c name f versions b where c: "json_key chain ''chain_id'' = Inr c"
    and f: "json_get_obj chain ''factories'' = Inr f" "json_items f = Inr versions"
    and run: "add_versions checksum register c name versions None
      (r\<lparr>FACTORY_DEPLOYMENTS := setdefault c (FACTORY_DEPLOYMENTS r),
         TICKLENS_DEPLOYMENTS := setdefault c (TICKLENS_DEPLOYMENTS r)\<rparr>) = (Inr b, t)"
    by (auto simp: add_deployments_def act_lift_def act_raise_def act_return_def elim!: act_bind_InrD split: if_splits)
  let ?r = "r\<lparr>FACTORY_DEPLOYMENTS := setdefault c (FACTORY_DEPLOYMENTS r),
         TICKLENS_DEPLOYMENTS := setdefault c (TICKLENS_DEPLOYMENTS r)\<rparr>"
  obtain m where m: "map_of (FACTORY_DEPLOYMENTS ?r) c = Some m"
    by (cases "map_of (FACTORY_DEPLOYMENTS r) c") (auto simp: setdefault_get)
  have old: "map_of m = lookup_factory r c"
    using m by (auto simp: lookup_factory_def setdefault_get split: if_splits)
  have "deploys c (offered checksum versions) ?r t"
    using add_versions_progress [OF assms(2) m bound_ok_None run] by blast
  with m have t: "lookup_factory t c = map_of (offered checksum versions) ++ map_of m"
    "\<forall>c'. c' \<noteq> c \<longrightarrow> lookup_factory t c' = lookup_factory r c'"
    by (auto simp: deploys_def lookup_factory_def setdefault_get)
  with c f old show ?thesis by auto
qed

theorem add_deployments_exact_witness:
  "lookup_factory (snd dex_after) (JInt 1) ''0xf3'' = Some \<lparr>fd_address = ''0xf3'', fd_pool_init_hash = JStr ''0x'',
     fd_pool_abi = UNISWAP_V3_POOL_ABI\<rparr> \<and> lookup_factory (snd dex_after) (JInt 1) ''0xf4'' = None"
proof -
  have run: "add_deployments dex_checksum dex_register dex_chain dex_registry = (Inr (), snd dex_after)"
    using dex_after by (metis dex_after_def prod.collapse)
  have "offered dex_checksum dex_versions = [(''0xf2'', \<lparr>fd_address = ''0xf2'', fd_pool_init_hash = JStr ''0x'', fd_pool_abi = UNISWAP_V2_POOL_ABI\<rparr>),
      (''0xf3'', \<lparr>fd_address = ''0xf3'', fd_pool_init_hash = JStr ''0x'', fd_pool_abi = UNISWAP_V3_POOL_ABI\<rparr>)]"
    by code_simp
  moreover have "lookup_factory dex_registry = (\<lambda>c a. None)"
    by (simp add: lookup_factory_def dex_registry_def fun_eq_iff)
  ultimately show ?thesis
    using add_deployments_exact [OF run dex_registers] by (auto simp: dex_chain_def map_add_def)
qed

text \<open>
  The methods for routers and aggregators never do their work: on a bot without the list
  attribute, which is every bot of the program, or in a class without \<open>get_chain_data\<close>, which is
  \<open>ExchangeService\<close>, both raise \<open>AttributeError\<close> before anything is registered or appended.
\<close>

theorem routers_and_aggregators_raise:
  assumes "get_chain = None \<or> (get_attr ''router_addresses'' st = Inl AttributeError \<and>
      get_attr ''aggregator_addresses'' st = Inl AttributeError)"
  shows "add_routers checksum register contract c get_chain st = (Inl AttributeError, st)"
    and "add_aggregators checksum c get_chain st = (Inl AttributeError, st)"
proof -
  have attr: "get_attr a st = Inl AttributeError \<or> (\<exists>v. get_attr a st = Inr v)" for a
    by (simp add: get_attr_def split: option.split)
  show "add_routers checksum register contract c get_chain st = (Inl AttributeError, st)"
    using assms attr [of "''router_addresses''"]
    by (auto simp: add_routers_def act_bind_pure chain_of_def act_raise_def)
  show "add_aggregators checksum c get_chain st = (Inl AttributeError, st)"
    using assms attr [of "''aggregator_addresses''"]
    by (auto simp: add_aggregators_def act_bind_pure chain_of_def act_raise_def)
qed

end
