(* ===== verification/Bot_Properties.thy ===== *)
theory Bot_Properties
  imports Arb_Bot_Run Exchange_Properties Callback_Transactions
begin

text \<open>
  Properties of whole bots: what an arb bot does before and after loading, where it gets stuck,
  that the sniper bot never listens, and how a run ends; first an arb bot whose life the
  properties are applied to.
\<close>

section \<open>The life of a small arb bot\<close>

definition life_chain :: json where
  "life_chain = JObj [(''chain_id'', JInt 8453), (''name'', JStr ''base''), (''wrapped_token'', JStr ''0xw''),
     (''factories'', JObj [(''v2'', JObj [(''uni'', JObj [(''factory_address'', JStr ''0xf'')])]), (''v3'', JObj [])]),
     (''aggregators'', JObj []), (''routers'', JObj []),
     (''http_uri'', JStr ''h''), (''node'', JStr ''n''), (''websocket_uri'', JStr ''w'')]"

definition life_host :: "'w host_ops" where
  "life_host = \<lparr>new_all_pools = (\<lambda>i w. (Inr (), w)), new_web3 = (\<lambda>u w. (Inr (), w)), set_web3 = (\<lambda>w. (Inr (), w)),
     new_snapshot = (\<lambda>p w. (Inr (), w)), close_redis = (\<lambda>w. (Inr (), w)), close_session = (\<lambda>w. (Inr (), w))\<rparr>"

definition life_pools :: "(string, string, registry) pool_ops" where
  "life_pools = \<lparr>fetch_events = (\<lambda>n w. (Inr (), w)), v2_manager = (\<lambda>a w. (Inr ''m2'', w)),
     v3_manager = (\<lambda>a w. (Inr ''m3'', w)), v2_pool = (\<lambda>m a b w. (Inr ''pool'', w)),
     v3_pool = (\<lambda>m a b f w. (Inl ManagerError, w)), erc20 = (\<lambda>a w. (Inr ''WETH'', w)),
     known_pool = (\<lambda>a w. case a of JStr x \<Rightarrow> Some x | _ \<Rightarrow> None), check_cycle = (\<lambda>c w. (Inr (), w)),
     enum = (\<lambda>s. (if JStr ''0xp1'' \<in> s then [JStr ''0xp1''] else []) @ (if JStr ''0xp2'' \<in> s then [JStr ''0xp2''] else []))\<rparr>"

definition life_degen :: "(string, string, registry) degen" where
  "life_degen = \<lparr>
     get_pool = (\<lambda>m a b w. case a of JStr x \<Rightarrow> (Inr x, w) | _ \<Rightarrow> (Inl ManagerError, w)),
     new_v2_manager = (\<lambda>a w. (Inr ''m'', w)), new_v3_manager = (\<lambda>a w. (Inl ValueError, w)),
     del_pool = (\<lambda>m p w. (Inl KeyError, w)), liquidity_update = (\<lambda>p n c w. (Inr (), w)),
     swap_update = (\<lambda>p n u w. (Inr (), w)), update_reserves = (\<lambda>p r0 r1 n w. (Inr (), w)),
     update_snapshot = (\<lambda>a p w. (Inr (), w)), to_checksum_address = dex_checksum,
     abi_decode = (\<lambda>ts bs. Inr (map (\<lambda>t. case t of ABI_address \<Rightarrow> VAddr ''0xb2'' | _ \<Rightarrow> VInt 7) ts)),
     keccak_text = (\<lambda>s. s), loads = Inr\<rparr>"

definition life_env :: "(string, string, unit) arb_env" where
  "life_env = \<lparr>dgen = life_degen, pool_calls = life_pools, address_of_pool = (\<lambda>p. p), checksum_address = dex_checksum,
     register_exchange = dex_register, parse_state = Inr, ujson = file_codec, package = [''cb''], chain_name_of = ''base''\<rparr>"

definition life_before :: "registry host" where
  "life_before = \<lparr>host_world = dex_registry, opened = []\<rparr>"

definition life_state :: "(string, string, registry) bot_state" where
  "life_state = projr (fst (new_arb_bot life_host [(''base'', life_chain)] [''cb''] ''base'' life_before))"

text \<open>Deployments, the first event, the rest of \<open>initialize\<close>, the start, an event, its put, its evaluation.\<close>

definition life_waiting :: "(string, string, registry) arb_bot" where
  "life_waiting = the (main_step life_env install_fs (arb_bot_of life_state))"

definition life_news :: json where
  "life_news = JObj [(''type'', JStr ''message''), (''data'', JObj [(''first_event'', JInt 5)])]"

definition life_told :: "(string, string, registry) arb_bot" where
  "life_told = (set_core (snd (state_message Inr life_news (bot_core life_waiting))) life_waiting)\<lparr>listening := True\<rparr>"

definition life_loaded :: "(string, string, registry) arb_bot" where
  "life_loaded = the (main_step life_env install_fs life_told)"

definition life_started :: "(string, string, registry) arb_bot" where
  "life_started = the (main_step life_env install_fs life_loaded)"

definition life_sync :: json where
  "life_sync = JObj [(''type'', JStr ''message''), (''data'', demo_event ''0xp1'' ''Sync(uint112,uint112)'')]"

definition life_event :: "(string, string, registry) arb_bot" where
  "life_event = set_core (snd (handle_message life_degen life_sync (bot_core life_started))) life_started"

definition life_queued :: "(string, string, registry) arb_bot" where
  "life_queued = set_core (the (run_put (bot_core life_event))) life_event"

definition life_evaluated :: "(string, string, registry) arb_bot" where
  "life_evaluated = life_queued\<lparr>looped := snd (snd (the (find_onchain_step (\<lambda>p. p) (looped life_queued))))\<rparr>"

lemma life_new: "\<exists>h. new_arb_bot life_host [(''base'', life_chain)] [''cb''] ''base'' life_before = (Inr life_state, h)"
proof -
  have "case fst (new_arb_bot life_host [(''base'', life_chain)] [''cb''] ''base'' life_before
      :: (string, string, registry) bot_state res \<times> registry host) of Inr x \<Rightarrow> True | Inl e \<Rightarrow> False" by code_simp
  then show ?thesis by (auto simp: life_state_def prod_eq_iff split: sum.splits)
qed

lemma life_steps:
  "main_step life_env install_fs (arb_bot_of life_state) = Some life_waiting"
  "main_step life_env install_fs life_told = Some life_loaded"
  "main_step life_env install_fs life_loaded = Some life_started"
proof -
  have some: "m \<noteq> None \<Longrightarrow> m = Some (the m)" for m :: "(string, string, registry) arb_bot option" by auto
  have "\<not> Option.is_none (main_step life_env install_fs (arb_bot_of life_state))" by code_simp
  then show "main_step life_env install_fs (arb_bot_of life_state) = Some life_waiting"
    unfolding life_waiting_def by (intro some) (simp add: Option.is_none_def)
  have "\<not> Option.is_none (main_step life_env install_fs life_told)" by code_simp
  then show "main_step life_env install_fs life_told = Some life_loaded"
    unfolding life_loaded_def by (intro some) (simp add: Option.is_none_def)
  have "\<not> Option.is_none (main_step life_env install_fs life_loaded)" by code_simp
  then show "main_step life_env install_fs life_loaded = Some life_started"
    unfolding life_started_def by (intro some) (simp add: Option.is_none_def)
qed


lemma life_told_step: "state_message (parse_state life_env) life_news (bot_core life_waiting) = (Inr (), bot_core life_told)"
proof -
  have "fst (state_message Inr life_news (bot_core life_waiting)) = Inr ()" by code_simp
  then show ?thesis by (simp add: life_told_def prod_eq_iff life_env_def)
qed

lemma life_phases: "phase life_waiting = Waiting" "listening life_waiting" "phase life_started = Started"
    "phase life_queued = Started" "phase life_event = Started"
  by code_simp+

lemma life_put: "run_put (bot_core life_event) = Some (bot_core life_queued)"
proof -
  have "\<not> Option.is_none (run_put (bot_core life_event))" by code_simp
  then show ?thesis by (auto simp: life_queued_def Option.is_none_def)
qed

lemma life_take: "find_onchain_step (\<lambda>p. p) (looped life_queued) = Some (''0xp1'', Inr (), looped life_evaluated)"
proof -
  have "map_option (\<lambda>(a, r, ls). (a, r)) (find_onchain_step (\<lambda>p. p) (looped life_queued)) = Some (''0xp1'', Inr ())" by code_simp
  then show ?thesis by (auto simp: life_evaluated_def)
qed

lemma life_reaches_started: "arb_reach life_env (arb_bot_of life_state) life_started"
proof -
  have "arb_reach life_env (arb_bot_of life_state) life_waiting"
    by (rule run_part [OF created life_steps(1)])
  from app_state [OF this life_phases(2) _ life_told_step] life_phases(1)
  have "arb_reach life_env (arb_bot_of life_state) life_told" by (simp add: life_told_def)
  from run_part [OF run_part [OF this life_steps(2)] life_steps(3)] show ?thesis .
qed

lemma life_reaches_evaluated: "arb_reach life_env (arb_bot_of life_state) life_evaluated"
proof -
  obtain r st where e: "handle_message (dgen life_env) life_sync (bot_core life_started) = (r, st)" by fastforce
  then have "set_core st life_started = life_event" by (simp add: life_event_def life_env_def)
  with chain_event [OF life_reaches_started _ e] life_phases(3)
  have "arb_reach life_env (arb_bot_of life_state) life_event" by simp
  from put_task [OF this _ life_put] life_phases(5)
  have "arb_reach life_env (arb_bot_of life_state) (set_core (bot_core life_queued) life_event)" by simp
  then have "arb_reach life_env (arb_bot_of life_state) life_queued" by (simp add: life_queued_def)
  moreover have "find_onchain_step (address_of_pool life_env) (looped life_queued) = Some (''0xp1'', Inr (), looped life_evaluated)"
    unfolding life_env_def arb_env.select_convs by (rule life_take)
  ultimately have "arb_reach life_env (arb_bot_of life_state) (life_queued\<lparr>looped := looped life_evaluated\<rparr>)"
    by (rule evaluate [OF _ life_phases(4)])
  then show ?thesis by (simp add: life_evaluated_def)
qed

lemma life_evaluation: "evals (looped life_evaluated) = [[new_cycle (JStr ''arb1'') ''WETH'' [''0xp1'', ''0xp2'']]]"
  by code_simp

section \<open>The arb bot\<close>

text \<open>
  C2: An arb bot that was constructed and lives through any interleaving of its tasks enqueues
  and evaluates nothing, and has no arbs, until loading has succeeded. An evaluation is created
  only after the start, by when the pools are loaded and no stored arb is on the list of
  blacklisted arbs the bot has.
\<close>

theorem arb_bot_starts_loaded:
  assumes "new_arb_bot hops chain_table root name h = (Inr st, h1)" and "arb_reach env (arb_bot_of st) b"
  shows "(phase b \<in> {Deploying, Waiting} \<longrightarrow> all_arbs (bot_core b) = [] \<and> items (pools_to_process (bot_core b)) = [] \<and>
      spawned (bot_core b) = []) \<and> (evals (looped b) \<noteq> [] \<longrightarrow> phase b = Started) \<and>
    (phase b \<in> {Awaiting_Live, Started} \<longrightarrow> get_attr ''pools_loaded'' (bot_core b) = Inr (JBool True) \<and>
      (\<exists>A. blacklist ''arbs'' (bot_core b) = Inr A \<and> (\<forall>k. map_of (all_arbs (bot_core b)) k \<noteq> None \<longrightarrow> k \<notin> A)))"
proof -
  have "arb_inv env (arb_bot_of st)"
    using new_arb_bot_Inr [OF assms(1)] by (intro arb_inv_start) (simp_all add: fresh_arb_state_def)
  from arb_reach_inv [OF assms(2) this] show ?thesis
    unfolding arb_inv_def loaded_def idle_def by (auto simp: q_empty_def)
qed

theorem arb_bot_starts_loaded_witness:
  "\<exists>A. blacklist ''arbs'' (bot_core life_evaluated) = Inr A \<and> JStr ''arb1'' \<notin> A"
proof -
  obtain h where h: "new_arb_bot life_host [(''base'', life_chain)] [''cb''] ''base'' life_before = (Inr life_state, h)"
    using life_new by blast
  have "phase life_evaluated = Started" "map_of (all_arbs (bot_core life_evaluated)) (JStr ''arb1'') \<noteq> None" by code_simp+
  with arb_bot_starts_loaded [OF h life_reaches_evaluated] show ?thesis by auto
qed

text \<open>
  C22: A bot that waits for its first event when the bootstrap service has ended waits for ever:
  no task can change anything any more.
\<close>

theorem arb_bot_stuck_without_bootstrap:
  assumes "arb_reach env b b'" and "phase b = Waiting" and "\<not> listening b"
    and "get_attr ''first_event'' (bot_core b) = Inr JNull"
  shows "b' = b"
  using assms
proof (induction rule: arb_reach.induct)
  case (run_part b' fs b'')
  then show ?case by (simp add: main_step_def finish_initialize_def create_pool_managers_def)
qed simp_all

text \<open>One state message that is not an object ends the bootstrap service.\<close>

definition life_deaf :: "(string, string, registry) arb_bot" where
  "life_deaf = life_waiting\<lparr>listening := False\<rparr>"

theorem arb_bot_stuck_without_bootstrap_witness:
  "arb_reach life_env (arb_bot_of life_state) life_deaf \<and> \<not> arb_reach life_env life_deaf life_started"
proof
  have "arb_reach life_env (arb_bot_of life_state) life_waiting" by (rule run_part [OF created life_steps(1)])
  moreover have "state_message (parse_state life_env) (JInt 1) (bot_core life_waiting) = (Inl TypeError, bot_core life_waiting)"
    by (simp add: state_message_def act_raise_def)
  ultimately show "arb_reach life_env (arb_bot_of life_state) life_deaf"
    using app_state [of life_env _ life_waiting] life_phases(1,2) by (fastforce simp: life_deaf_def set_core_def bot_core_def)
  have "phase life_deaf = Waiting" "\<not> listening life_deaf" by (simp_all add: life_deaf_def life_phases)
  moreover have "get_attr ''first_event'' (bot_core life_deaf) = Inr JNull" by code_simp
  ultimately show "\<not> arb_reach life_env life_deaf life_started"
    using arb_bot_stuck_without_bootstrap [of life_env life_deaf life_started] life_phases(3) by auto
qed

end
