(* ===== verification/Callback_Properties.thy ===== *)
theory Callback_Properties
  imports Callback_Transactions
begin

text \<open>
  Correctness of the callback bot's transaction service: what a cleaned transaction is, the
  set of failed transactions as a memory that only grows and is never simulated again, and
  what reaches the report.
\<close>

section \<open>The set of failed transactions only grows\<close>

definition grows_failed :: "json set \<Rightarrow> ('p, 'm, 'w) bot_state \<Rightarrow> ('p, 'm, 'w) bot_state \<Rightarrow> bool" where
  "grows_failed H s t \<longleftrightarrow>
     t = s\<lparr>failed_transactions := failed_transactions t\<rparr> \<and>
     failed_transactions s \<subseteq> failed_transactions t \<and>
     failed_transactions t \<subseteq> failed_transactions s \<union> H"

lemma grows_failed_refl: "reflp (grows_failed H)"
  by (simp add: reflp_def grows_failed_def)

lemma grows_failed_compose:
  assumes "grows_failed H s t" and "grows_failed K t u"
  shows "grows_failed (H \<union> K) s u"
proof -
  have t: "t = s\<lparr>failed_transactions := failed_transactions t\<rparr>"
    and u: "u = t\<lparr>failed_transactions := failed_transactions u\<rparr>"
    using assms by (auto simp: grows_failed_def)
  have "u = s\<lparr>failed_transactions := failed_transactions u\<rparr>" by (subst u, subst t) simp
  with assms show ?thesis by (auto simp: grows_failed_def)
qed

lemma grows_failed_trans: "transp (grows_failed H)"
  by (rule transpI) (metis grows_failed_compose Un_absorb)

lemmas grows_failed_intros =
  act_keeps_basic [OF grows_failed_refl] act_keeps_bind [OF grows_failed_trans]
  act_keeps_try [OF grows_failed_trans] act_keeps_if act_keeps_option

text \<open>The hash a transaction object carries.\<close>

definition hashes :: "json \<Rightarrow> json set" where
  "hashes transaction = {h. json_key transaction ''hash'' = Inr h}"

lemma add_failed_grows: "act_keeps (grows_failed (hashes transaction)) (add_failed transaction)"
  by (cases "json_key transaction ''hash''")
    (auto simp: add_failed_def hashes_def act_keeps_def act_update_def act_raise_def grows_failed_def)

lemma add_failed_Inr:
  assumes "act_bind (add_failed transaction) (\<lambda>_. act_return y) s = (Inr x, t)"
  shows "x = y \<and> (\<exists>h. json_key transaction ''hash'' = Inr h \<and> h \<in> failed_transactions t \<and> hashable h)"
proof (cases "json_key transaction ''hash''")
  case (Inl e)
  with assms show ?thesis by (simp add: add_failed_def act_bind_def act_lift_def act_raise_def)
next
  case (Inr h)
  with assms show ?thesis
    by (cases "hashable h") (auto simp: add_failed_def act_bind_def act_lift_def act_raise_def act_update_def act_return_def)
qed

lemma clean_body_grows: "act_keeps (grows_failed (hashes transaction)) (clean_body ops transaction)"
  unfolding clean_body_def by (intro grows_failed_intros add_failed_grows)

lemma clean_transaction_grows: "act_keeps (grows_failed (hashes transaction)) (clean_transaction ops transaction)"
  unfolding clean_transaction_def by (intro grows_failed_intros add_failed_grows clean_body_grows)

text \<open>The transaction a message of the channel carries.\<close>

definition message_transaction :: "chain_ops \<Rightarrow> json \<Rightarrow> json res" where
  "message_transaction ops message = res_bind (json_key message ''data'') (parse ops)"

definition message_hashes :: "chain_ops \<Rightarrow> json \<Rightarrow> json set" where
  "message_hashes ops message = (case message_transaction ops message of Inl _ \<Rightarrow> {} | Inr tx \<Rightarrow> hashes tx)"

lemma pending_message_grows: "act_keeps (grows_failed (message_hashes ops message)) (pending_message ops message)"
proof (cases "res_bind (json_key message ''data'') (parse ops)")
  case (Inl e)
  show ?thesis unfolding pending_message_def Inl
    by (simp cong: if_cong, intro grows_failed_intros)
next
  case (Inr tx)
  then have H: "message_hashes ops message = hashes tx"
    by (simp add: message_hashes_def message_transaction_def)
  show ?thesis unfolding pending_message_def Inr H
    by (simp cong: if_cong, intro grows_failed_intros clean_transaction_grows act_keeps_pure [OF grows_failed_refl])
qed

section \<open>What cleaning returns\<close>

text \<open>The keys kept for a transaction of the given type, and the checksummed fields.\<close>

lemma filter_keys_get:
  "map_of (filter (\<lambda>(k, v). P k) d) k = (if P k then map_of d k else None)"
  by (induction d) auto

lemma checksum_fields_get:
  assumes "checksum_fields ops fs d = Inr d'" and "distinct fs"
  shows "map_of d' k = (case map_of d k of
           Some v \<Rightarrow> if k \<in> set fs \<and> truthy v
                     then (case checksum ops v of Inl _ \<Rightarrow> None | Inr a \<Rightarrow> Some (JStr a)) else Some v
         | None \<Rightarrow> None)"
  using assms
proof (induction fs arbitrary: d)
  case Nil
  then show ?case by (simp split: option.split)
next
  case (Cons f fs)
  show ?case
  proof (cases "map_of d f")
    case None
    with Cons show ?thesis by (cases "k = f") (auto split: option.splits)
  next
    case (Some v)
    show ?thesis
    proof (cases "truthy v")
      case False
      with Some Cons show ?thesis by (cases "k = f") (auto split: option.splits)
    next
      case True
      with Some Cons.prems obtain a where a: "checksum ops v = Inr a"
        "checksum_fields ops fs (AList.update f (JStr a) d) = Inr d'"
        by (auto simp: res_bind_Inr_iff)
      from Cons.IH [OF a(2)] Cons.prems(2) Some True a(1) show ?thesis
        by (cases "k = f") (auto simp: update_conv split: option.splits)
    qed
  qed
qed

lemma kept_params_type: "kept_params ty = Some keep \<Longrightarrow> ty \<in> {0, 1, 2, 3}"
  by (auto simp: kept_params_def split: if_splits)

lemma kept_params_mem:
  assumes "kept_params ty = Some keep"
  shows "k \<in> set keep \<longleftrightarrow> k \<in> set params_to_keep \<and>
      \<not> (k \<in> {''maxFeePerGas'', ''maxPriorityFeePerGas''} \<and> ty \<le> 1) \<and> \<not> (k = ''gasPrice'' \<and> 2 \<le> ty)"
proof -
  have d: "distinct params_to_keep" by (simp add: params_to_keep_def)
  then have r: "set (remove1 x params_to_keep) = set params_to_keep - {x}"
    "set (remove1 x (remove1 y params_to_keep)) = set params_to_keep - {x, y}" for x y
    by (auto simp: set_remove1_eq distinct_remove1)
  from assms consider "ty = 0 \<or> ty = 1" "keep = remove1 ''maxPriorityFeePerGas'' (remove1 ''maxFeePerGas'' params_to_keep)"
    | "ty = 2 \<or> ty = 3" "keep = remove1 ''gasPrice'' params_to_keep"
    by (auto simp: kept_params_def simp del: remove1.simps split: if_splits)
  then show ?thesis
  proof cases
    case 1
    then have "ty \<le> 1" and "\<not> 2 \<le> ty" by auto
    then show ?thesis unfolding 1(2) r by blast
  next
    case 2
    then have "\<not> ty \<le> 1" and "2 \<le> ty" by auto
    then show ?thesis unfolding 2(2) r by blast
  qed
qed

lemma clean_body_Some:
  assumes "clean_body ops transaction s = (Inr (Some d), t)"
  obtains ty keep kvs where "t = s" and "res_bind (json_key transaction ''type'') json_int16 = Inr ty"
    and "kept_params ty = Some keep" and "transaction = JObj kvs"
    and "checksum_fields ops [''from'', ''to''] (filter (\<lambda>(k, v). k \<in> set keep) kvs) = Inr d"
    and "simulate ops (JObj d) = Inr ()"
proof -
  obtain ty where ty: "res_bind (json_key transaction ''type'') json_int16 = Inr ty"
    using assms by (cases "res_bind (json_key transaction ''type'') json_int16") (auto simp: clean_body_def act_raise_def)
  obtain keep where keep: "kept_params ty = Some keep"
  proof (cases "kept_params ty")
    case None
    with assms ty have "act_bind (add_failed transaction) (\<lambda>_. act_return None) s = (Inr (Some d), t)"
      by (simp add: clean_body_def)
    from add_failed_Inr [OF this] show thesis by simp
  qed (use that in auto)
  obtain kvs where kvs: "transaction = JObj kvs"
    using assms ty by (cases transaction) auto
  obtain d' where d': "checksum_fields ops [''from'', ''to''] (filter (\<lambda>(k, v). k \<in> set keep) kvs) = Inr d'"
    using assms ty keep kvs
    by (cases "checksum_fields ops [''from'', ''to''] (filter (\<lambda>(k, v). k \<in> set keep) kvs)")
      (auto simp: clean_body_def act_raise_def)
  have "simulate ops (JObj d') = Inr ()" and "d' = d" and "t = s"
    using assms ty keep kvs d'
    by (cases "simulate ops (JObj d')"; auto simp: clean_body_def act_raise_def act_return_def)+
  with that ty keep kvs d' show thesis by simp
qed

lemma clean_transaction_Some:
  assumes "clean_transaction ops transaction s = (Inr (Some d), t)"
  shows "clean_body ops transaction s = (Inr (Some d), t)"
proof -
  obtain r u where b: "clean_body ops transaction s = (r, u)" by (cases "clean_body ops transaction s")
  show ?thesis
  proof (cases r)
    case (Inl e)
    with assms b show ?thesis
      by (auto simp: clean_transaction_def act_try_def act_bind_def act_raise_def act_return_def
          split: if_splits prod.splits sum.splits)
  next
    case (Inr x)
    with assms b show ?thesis by (simp add: clean_transaction_def act_try_def act_return_def)
  qed
qed

lemma clean_transaction_None:
  assumes "clean_transaction ops transaction s = (Inr None, t)"
  shows "\<exists>h. json_key transaction ''hash'' = Inr h \<and> h \<in> failed_transactions t \<and> hashable h"
proof -
  obtain r u where b: "clean_body ops transaction s = (r, u)" by (cases "clean_body ops transaction s")
  show ?thesis
  proof (cases r)
    case (Inl e)
    with assms b have "act_bind (add_failed transaction) (\<lambda>_. act_return (None :: (string, json) dict option)) u = (Inr None, t)"
      by (auto simp: clean_transaction_def act_try_def act_raise_def split: if_splits)
    from add_failed_Inr [OF this] show ?thesis by simp
  next
    case (Inr x)
    with assms b have n: "clean_body ops transaction s = (Inr None, t)"
      by (simp add: clean_transaction_def act_try_def act_return_def)
    then obtain ty where ty: "res_bind (json_key transaction ''type'') json_int16 = Inr ty"
      by (cases "res_bind (json_key transaction ''type'') json_int16") (auto simp: clean_body_def act_raise_def)
    have "kept_params ty = None"
    proof (rule ccontr)
      assume "kept_params ty \<noteq> None"
      then obtain keep where "kept_params ty = Some keep" by auto
      with n ty show False
        by (auto simp: clean_body_def act_bind_def act_lift_def act_return_def split: sum.splits)
    qed
    with n ty have "act_bind (add_failed transaction) (\<lambda>_. act_return None) s = (Inr (None :: (string, json) dict option), t)"
      by (simp add: clean_body_def)
    from add_failed_Inr [OF this] show ?thesis by simp
  qed
qed

text \<open>Looking at one message in the order the loop does.\<close>

lemma pending_message_out:
  assumes "pending_message ops m s = (Inr out, t)" and "out \<noteq> []"
  obtains tx h d where "json_key m ''type'' = Inr (JStr ''message'')" and "message_transaction ops m = Inr tx" and "json_key tx ''hash'' = Inr h"
    and "h \<notin> failed_transactions s" and "clean_transaction ops tx s = (Inr (Some d), t)"
    and "process_transaction ops t (JObj d) = Inr out"
proof -
  from assms obtain ty where ty: "json_key m ''type'' = Inr ty"
    by (cases "json_key m ''type''") (auto simp: pending_message_def act_raise_def)
  with assms have msg: "ty = JStr ''message''"
    by (auto simp: pending_message_def act_return_def split: if_splits)
  from assms ty msg obtain tx where tx: "message_transaction ops m = Inr tx"
    by (cases "res_bind (json_key m ''data'') (parse ops)")
      (auto simp: pending_message_def message_transaction_def act_raise_def)
  from assms ty msg tx obtain h where h: "json_key tx ''hash'' = Inr h"
    by (cases "json_key tx ''hash''") (auto simp: pending_message_def message_transaction_def act_raise_def)
  note start = pending_message_def message_transaction_def act_bind_def act_lift_def act_return_def act_raise_def
  from assms ty msg tx h have new: "h \<notin> failed_transactions s" and "hashable h"
    by (auto simp: start in_set_def split: if_splits)
  obtain r u where c: "clean_transaction ops tx s = (r, u)" by (cases "clean_transaction ops tx s")
  with assms ty msg tx h new \<open>hashable h\<close> obtain d where d: "r = Inr (Some d)"
    by (cases r) (auto simp: start in_set_def split: option.splits)
  with c assms ty msg tx h new \<open>hashable h\<close> have "process_transaction ops t (JObj d) = Inr out" and "u = t"
    by (auto simp: start in_set_def dict_index_def split: option.splits if_splits)
  with that tx h new c d ty msg show thesis by simp
qed

lemma process_transaction_out:
  assumes "process_transaction ops st (JObj d) = Inr out" and "out \<noteq> []"
  obtains to info where "map_of d ''to'' = Some to" and "json_in to (aggregators st) = Inr True"
    and "get_aggregator_info ops (aggregators st) to = Inr info"
    and "json_key info ''aggregator'' = Inr (JStr ''oneinch'')"
    and "print_transaction_details st (JObj d) = Inr out"
  using assms
  by (auto simp: process_transaction_def process_aggregator_transaction_def res_bind_Inr_iff split: if_splits)

lemma process_pending_grows:
  "grows_failed (\<Union>m\<in>set ms. message_hashes ops m) s (snd (process_pending_transactions ops ms s))"
proof (induction ms arbitrary: s)
  case Nil
  then show ?case by (simp add: grows_failed_def)
next
  case (Cons m ms)
  obtain r t where m: "pending_message ops m s = (r, t)" by (cases "pending_message ops m s")
  have st: "grows_failed (message_hashes ops m) s t" by (rule act_keepsD [OF pending_message_grows m])
  from grows_failed_compose [OF this Cons.IH]
  have both: "grows_failed (\<Union>m\<in>set (m # ms). message_hashes ops m) s
      (snd (process_pending_transactions ops ms t))" by simp
  have "grows_failed (\<Union>m\<in>set (m # ms). message_hashes ops m) s t"
    using st by (auto simp: grows_failed_def)
  with both m show ?case by (cases r) (auto split: prod.split)
qed

section \<open>Properties\<close>

text \<open>
  C32: A cleaned transaction has type 0 to 3, was simulated successfully, and consists of exactly
  the kept fields: no fee-market fields for types 0 and 1, no gas price for types 2 and 3,
  \<open>from\<close> and \<open>to\<close> checksummed when they are set, everything else as it was received.
\<close>

theorem cleaned_transaction_spec:
  assumes "clean_transaction ops tx s = (Inr (Some d), t)"
  shows "\<exists>kvs ty. tx = JObj kvs \<and> res_bind (json_key tx ''type'') json_int16 = Inr ty \<and>
     ty \<in> {0, 1, 2, 3} \<and> t = s \<and> simulate ops (JObj d) = Inr () \<and>
     (\<forall>k. map_of d k =
        (if k \<in> set params_to_keep \<and> \<not> (k \<in> {''maxFeePerGas'', ''maxPriorityFeePerGas''} \<and> ty \<le> 1) \<and>
            \<not> (k = ''gasPrice'' \<and> 2 \<le> ty)
         then case map_of kvs k of
             None \<Rightarrow> None
           | Some v \<Rightarrow> if k \<in> {''from'', ''to''} \<and> truthy v
                then (case checksum ops v of Inl _ \<Rightarrow> None | Inr a \<Rightarrow> Some (JStr a)) else Some v
         else None))"
proof -
  from clean_body_Some [OF clean_transaction_Some [OF assms]] obtain ty keep kvs where
    c: "t = s" "res_bind (json_key tx ''type'') json_int16 = Inr ty" "kept_params ty = Some keep" "tx = JObj kvs"
      "checksum_fields ops [''from'', ''to''] (filter (\<lambda>(k, v). k \<in> set keep) kvs) = Inr d"
      "simulate ops (JObj d) = Inr ()" by metis
  have ty: "ty \<in> {0, 1, 2, 3}" using c(3) by (rule kept_params_type)
  have keep: "k \<in> set keep \<longleftrightarrow> k \<in> set params_to_keep \<and>
      \<not> (k \<in> {''maxFeePerGas'', ''maxPriorityFeePerGas''} \<and> ty \<le> 1) \<and> \<not> (k = ''gasPrice'' \<and> 2 \<le> ty)" for k
    by (rule kept_params_mem [OF c(3)])
  have field: "map_of d k = (if k \<in> set keep then case map_of kvs k of
      None \<Rightarrow> None
    | Some v \<Rightarrow> if k \<in> {''from'', ''to''} \<and> truthy v
                then (case checksum ops v of Inl _ \<Rightarrow> None | Inr a \<Rightarrow> Some (JStr a)) else Some v
    else None)" for k
    using checksum_fields_get [OF c(5), of k] by (cases "k \<in> set keep") (simp_all add: filter_keys_get cong: option.case_cong if_cong)
  show ?thesis
    by (rule exI [of _ kvs], rule exI [of _ ty]) (use c(1,2,4,6) ty in \<open>simp add: field keep\<close>)
qed

definition demo_tx :: "string \<Rightarrow> string \<Rightarrow> json" where
  "demo_tx h ty = JObj [(''hash'', JStr h), (''type'', JStr ty), (''from'', JStr ''0xa''), (''to'', JStr ''0xb''),
     (''gasPrice'', JStr ''0x1''), (''maxFeePerGas'', JStr ''0x2''), (''chainId'', JStr ''0x1''),
     (''input'', JStr ''0x''), (''nonce'', JStr ''0x5''), (''value'', JStr ''0x0'')]"

definition demo_chain :: chain_ops where
  "demo_chain = \<lparr>checksum = (\<lambda>v. case v of JStr a \<Rightarrow> Inr (a @ ''!'') | _ \<Rightarrow> Inl TypeError),
     simulate = (\<lambda>v. if json_key v ''hash'' = Inr (JStr ''0xdead'') then Inl ContractLogicError else Inr ()),
     parse = Inr\<rparr>"

definition demo_bot :: "(string, string, nat) bot_state" where
  "demo_bot = \<lparr>attrs = [(''newest_block'', JInt 99)],
     aggregators = JObj [(''0xb!'', JObj [(''aggregator'', JStr ''oneinch'')]),
                         (''0xb!!'', JObj [(''aggregator'', JStr ''oneinch'')])],
     all_arbs = [], blacklists = None, chain_data = JNull, factories = JNull, failed_transactions = {},
     pool_managers = [], pools_to_process = q_empty, routers = JNull, spawned = [], world = 0\<rparr>"

definition demo_pending :: "json \<Rightarrow> json" where
  "demo_pending tx = JObj [(''type'', JStr ''message''), (''data'', tx)]"

lemmas demo_callback_defs = demo_tx_def demo_chain_def demo_bot_def demo_pending_def

lemma demo_cleaned:
  "clean_transaction demo_chain (demo_tx ''0x1'' ''0x2'') demo_bot =
     (Inr (Some [(''hash'', JStr ''0x1''), (''type'', JStr ''0x2''), (''from'', JStr ''0xa!''), (''to'', JStr ''0xb!''),
        (''maxFeePerGas'', JStr ''0x2''), (''input'', JStr ''0x''), (''nonce'', JStr ''0x5''),
        (''value'', JStr ''0x0'')]), demo_bot)"
  by code_simp

lemma demo_failing:
  "fst (clean_transaction demo_chain (demo_tx ''0xdead'' ''0x0'') demo_bot) = Inr None"
  "fst (clean_transaction demo_chain (demo_tx ''0x1'' ''0x4'') demo_bot) = Inr None"
  by code_simp+

theorem cleaned_transaction_spec_witness:
  "simulate demo_chain (JObj (the (case fst (clean_transaction demo_chain (demo_tx ''0x1'' ''0x2'') demo_bot) of
     Inr d \<Rightarrow> d | Inl _ \<Rightarrow> None))) = Inr ()"
  using cleaned_transaction_spec [OF demo_cleaned] by (auto simp: demo_cleaned)

text \<open>
  C16: A transaction that failed cleaning is never looked at again: after any further messages,
  a message with the same hash prints nothing and changes nothing, whatever the node or the
  checksum would now say of it.
\<close>

theorem failed_transaction_not_retried:
  assumes "clean_transaction ops tx s = (Inr None, t)" and "json_key tx ''hash'' = Inr h"
    and "json_key m ''type'' = Inr ty" and "message_transaction ops' m = Inr tx'"
    and "json_key tx' ''hash'' = Inr h"
  shows "pending_message ops' m (snd (process_pending_transactions ops ms t)) =
           (Inr [], snd (process_pending_transactions ops ms t))"
proof -
  let ?u = "snd (process_pending_transactions ops ms t)"
  from clean_transaction_None [OF assms(1)] assms(2) have h: "h \<in> failed_transactions t" "hashable h" by auto
  then have "h \<in> failed_transactions ?u"
    using process_pending_grows [of ops ms t] by (auto simp: grows_failed_def)
  with h(2) assms(3-5) show ?thesis
    by (cases "ty = JStr ''message''")
      (simp_all add: pending_message_def message_transaction_def act_bind_def act_lift_def act_return_def in_set_def)
qed

theorem failed_transaction_not_retried_witness:
  "\<exists>u. pending_message (demo_chain\<lparr>simulate := \<lambda>_. Inr ()\<rparr>) (demo_pending (demo_tx ''0xdead'' ''0x0'')) u = (Inr [], u) \<and>
       u \<noteq> demo_bot"
proof -
  let ?t = "snd (clean_transaction demo_chain (demo_tx ''0xdead'' ''0x0'') demo_bot)"
  have c: "clean_transaction demo_chain (demo_tx ''0xdead'' ''0x0'') demo_bot = (Inr None, ?t)"
    using demo_failing(1) by (simp add: prod_eq_iff)
  have "failed_transactions ?t \<noteq> failed_transactions demo_bot"
    using clean_transaction_None [OF c] by (auto simp: demo_bot_def)
  then have "?t \<noteq> demo_bot" by auto
  moreover have "pending_message (demo_chain\<lparr>simulate := \<lambda>_. Inr ()\<rparr>) (demo_pending (demo_tx ''0xdead'' ''0x0''))
      (snd (process_pending_transactions demo_chain [] ?t)) =
    (Inr [], snd (process_pending_transactions demo_chain [] ?t))"
  proof (rule failed_transaction_not_retried [OF c])
    show "json_key (demo_tx ''0xdead'' ''0x0'') ''hash'' = Inr (JStr ''0xdead'')" by code_simp
    then show "json_key (demo_tx ''0xdead'' ''0x0'') ''hash'' = Inr (JStr ''0xdead'')" .
    show "json_key (demo_pending (demo_tx ''0xdead'' ''0x0'')) ''type'' = Inr (JStr ''message'')" by code_simp
    show "message_transaction (demo_chain\<lparr>simulate := \<lambda>_. Inr ()\<rparr>) (demo_pending (demo_tx ''0xdead'' ''0x0'')) =
        Inr (demo_tx ''0xdead'' ''0x0'')" by code_simp
  qed
  ultimately show ?thesis by auto
qed

text \<open>
  Over any run of the channel nothing of the bot changes but the set of failed
  transactions, which only grows, and only by hashes of received transactions.
\<close>

theorem pending_transactions_frame:
  "t = snd (process_pending_transactions ops ms s) \<Longrightarrow>
     t = s\<lparr>failed_transactions := failed_transactions t\<rparr> \<and> failed_transactions s \<subseteq> failed_transactions t \<and>
     (h \<in> failed_transactions t \<longrightarrow> h \<in> failed_transactions s \<or>
        (\<exists>m\<in>set ms. \<exists>tx. message_transaction ops m = Inr tx \<and> json_key tx ''hash'' = Inr h))"
  using process_pending_grows [of ops ms s]
  by (auto simp: grows_failed_def message_hashes_def hashes_def split: sum.splits)

theorem pending_transactions_frame_witness:
  "aggregators (snd (process_pending_transactions demo_chain [demo_pending (demo_tx ''0xdead'' ''0x0'')] demo_bot)) =
     aggregators demo_bot"
proof -
  let ?t = "snd (process_pending_transactions demo_chain [demo_pending (demo_tx ''0xdead'' ''0x0'')] demo_bot)"
  have "?t = demo_bot\<lparr>failed_transactions := failed_transactions ?t\<rparr>"
    using pending_transactions_frame [OF refl, of demo_chain "[demo_pending (demo_tx ''0xdead'' ''0x0'')]" demo_bot]
    by blast
  then show ?thesis by (metis bot_state.select_convs(2) bot_state.surjective bot_state.update_convs(7))
qed

text \<open>
  C33: When a message prints something, it is of type \<open>message\<close> and carries a transaction whose
  hash had not failed; cleaning kept this transaction and left the state alone. What is printed is the
  report of the cleaned one, headed by the next block: the hash, the input and the recipient are those
  of the message's own transaction, the recipient checksummed when it is set, the simulation of
  exactly what is reported succeeded, and the recipient is a known 1inch aggregator.
\<close>

theorem printed_transactions:
  assumes "pending_message ops m s = (Inr out, t)" and "out \<noteq> []"
  shows "\<exists>kvs h d raw to info n. json_key m ''type'' = Inr (JStr ''message'') \<and> message_transaction ops m = Inr (JObj kvs) \<and>
     map_of kvs ''hash'' = Some h \<and> h \<notin> failed_transactions s \<and>
     clean_transaction ops (JObj kvs) s = (Inr (Some d), s) \<and> simulate ops (JObj d) = Inr () \<and>
     map_of kvs ''to'' = Some raw \<and> Inr to = (if truthy raw then map_sum id JStr (checksum ops raw) else Inr raw) \<and>
     json_in to (aggregators s) = Inr True \<and> get_aggregator_info ops (aggregators s) to = Inr info \<and>
     json_key info ''aggregator'' = Inr (JStr ''oneinch'') \<and>
     res_bind (get_attr ''newest_block'' s) json_succ = Inr n \<and> map_of out ''block'' = Some n \<and>
     map_of out ''hash'' = Some h \<and> map_of out ''to'' = Some to \<and> map_of out ''input'' = map_of kvs ''input'' \<and>
     print_transaction_details s (JObj d) = Inr out \<and> t = s"
proof -
  obtain tx h d where m: "json_key m ''type'' = Inr (JStr ''message'')" "message_transaction ops m = Inr tx" "json_key tx ''hash'' = Inr h"
    "h \<notin> failed_transactions s" "clean_transaction ops tx s = (Inr (Some d), t)"
    "process_transaction ops t (JObj d) = Inr out"
    using pending_message_out [OF assms] by metis
  obtain ty keep kvs where c: "t = s" "kept_params ty = Some keep" "tx = JObj kvs" "simulate ops (JObj d) = Inr ()"
    and ck: "checksum_fields ops [''from'', ''to''] (filter (\<lambda>(k, v). k \<in> set keep) kvs) = Inr d"
    using clean_body_Some [OF clean_transaction_Some [OF m(5)]] by metis
  obtain to info where p: "map_of d ''to'' = Some to" "json_in to (aggregators t) = Inr True"
    "get_aggregator_info ops (aggregators t) to = Inr info"
    "json_key info ''aggregator'' = Inr (JStr ''oneinch'')" "print_transaction_details t (JObj d) = Inr out"
    using process_transaction_out [OF m(6) assms(2)] by metis
  have kept: "''hash'' \<in> set keep" "''to'' \<in> set keep" "''input'' \<in> set keep"
    by (simp_all add: kept_params_mem [OF c(2)] params_to_keep_def)
  have h: "map_of kvs ''hash'' = Some h" using m(3) c(3) by (auto simp: dict_index_def split: option.splits)
  have same: "map_of d ''hash'' = Some h" "map_of d ''input'' = map_of kvs ''input''"
    using checksum_fields_get [OF ck, of "''hash''"] checksum_fields_get [OF ck, of "''input''"] kept h
    by (simp_all add: filter_keys_get split: option.splits)
  obtain raw where raw: "map_of kvs ''to'' = Some raw" "Inr to = (if truthy raw then map_sum id JStr (checksum ops raw) else Inr raw)"
    using checksum_fields_get [OF ck, of "''to''"] kept p(1)
    by (auto simp: filter_keys_get split: option.splits sum.splits if_splits)
  from p(5) same p(1) c(1) obtain n where "res_bind (get_attr ''newest_block'' s) json_succ = Inr n"
    "map_of out ''block'' = Some n" "map_of out ''hash'' = Some h" "map_of out ''to'' = Some to"
    "map_of out ''input'' = map_of kvs ''input''"
    by (auto simp: print_transaction_details_def res_bind_Inr_iff dict_index_def split: option.splits)
  with m h c raw p show ?thesis by blast
qed

theorem printed_transactions_witness:
  "\<exists>out d. pending_message demo_chain (demo_pending (demo_tx ''0x1'' ''0x2'')) demo_bot = (Inr out, demo_bot) \<and>
     simulate demo_chain (JObj d) = Inr () \<and> map_of out ''hash'' = Some (JStr ''0x1'') \<and>
     map_of out ''to'' = Some (JStr ''0xb!'') \<and> map_of out ''block'' = Some (JInt 100)"
proof -
  let ?m = "demo_pending (demo_tx ''0x1'' ''0x2'')"
  have out: "case pending_message demo_chain ?m demo_bot of (Inr out, t) \<Rightarrow> out \<noteq> [] | (Inl _, t) \<Rightarrow> False"
    by code_simp
  obtain r t where r: "pending_message demo_chain ?m demo_bot = (r, t)"
    by (cases "pending_message demo_chain ?m demo_bot")
  with out obtain lines where l: "pending_message demo_chain ?m demo_bot = (Inr lines, t)" "lines \<noteq> []"
    by (cases r) auto
  obtain kvs where kvs: "demo_tx ''0x1'' ''0x2'' = JObj kvs" "map_of kvs ''hash'' = Some (JStr ''0x1'')"
    "map_of kvs ''to'' = Some (JStr ''0xb'')" by (simp add: demo_tx_def)
  have "message_transaction demo_chain ?m = Inr (demo_tx ''0x1'' ''0x2'')"
    and "res_bind (get_attr ''newest_block'' demo_bot) json_succ = Inr (JInt 100)"
    and "checksum demo_chain (JStr ''0xb'') = Inr ''0xb!''" by code_simp+
  with kvs printed_transactions [OF l] l(1) show ?thesis by auto
qed

end
