(* ===== verification/Launch_Properties.thy ===== *)
theory Launch_Properties
  imports Bot_Properties Callback_Properties
begin

text \<open>
  The sniper bot and the callback bot as they are constructed and run, and what launching a bot
  leaves open.
\<close>

section \<open>The sniper bot\<close>

lemma sniper_attrs:
  assumes "new_sniper_bot hops chain_table root name h = (Inr st, h1)"
  shows "get_attr ''first_event'' st = Inl AttributeError"
proof -
  obtain x where "json_key (chain_entry chain_table name) ''chain_id'' = Inr x"
    using assms unfolding new_sniper_bot_def Let_def by (rule lift_InrE)
  then have t: "truthy (chain_entry chain_table name)"
    by (cases "chain_entry chain_table name") auto
  from assms show ?thesis
    unfolding new_sniper_bot_def Let_def
    apply (simp only: t not_True_eq_False if_False)
    apply (elim lift_InrE act_bind_InrD host_InrE)
    apply (simp only: act_read_def open_resource_def act_update_def prod.inject sum.inject)
    apply (elim conjE)
    apply hypsubst
    apply (simp add: get_attr_def chain_attrs_def)
    done
qed

text \<open>
  C20: The sniper bot never comes to listen: its state lacks the attribute its initialisation
  waits for, so that \<open>run\<close> always ends with an exception, with \<open>AttributeError\<close> when the deployments
  were added, and no message is handled: the bot is as it was constructed but for the world.
\<close>

theorem sniper_bot_never_listens:
  assumes "new_sniper_bot hops chain_table root name h = (Inr st, h1)"
  shows "\<exists>e t. sniper_run ops dg to_checksum register c root' name' fs ms st = Some (Inl e, t) \<and> t = st\<lparr>world := world t\<rparr> \<and>
    (fst (add_deployments to_checksum register (chain_data st) (world st)) = Inr () \<longrightarrow> e = AttributeError)"
proof -
  obtain r w where d: "add_deployments to_checksum register (chain_data st) (world st) = (r, w)" by fastforce
  have "get_attr ''first_event'' (st\<lparr>world := w\<rparr>) = Inl AttributeError"
    using sniper_attrs [OF assms] by (simp add: get_attr_def)
  with d show ?thesis
    by (cases r) (simp_all add: sniper_run_def with_world_def create_pool_managers_def)
qed

definition life_sniper :: "(string, string, registry) bot_state" where
  "life_sniper = projr (fst (new_sniper_bot life_host [(''base'', life_chain)] [''cb''] ''base'' life_before))"

theorem sniper_bot_never_listens_witness:
  "\<exists>t. sniper_run life_pools life_degen dex_checksum dex_register file_codec [''cb''] ''base'' install_fs [life_sync] life_sniper =
     Some (Inl AttributeError, t)"
proof -
  have "case fst (new_sniper_bot life_host [(''base'', life_chain)] [''cb''] ''base'' life_before
      :: (string, string, registry) bot_state res \<times> registry host) of Inr x \<Rightarrow> True | Inl e \<Rightarrow> False" by code_simp
  then have "\<exists>h. new_sniper_bot life_host [(''base'', life_chain)] [''cb''] ''base'' life_before = (Inr life_sniper, h)"
    by (auto simp: life_sniper_def prod_eq_iff split: sum.splits)
  then obtain h where "new_sniper_bot life_host [(''base'', life_chain)] [''cb''] ''base'' life_before = (Inr life_sniper, h)" ..
  note never = sniper_bot_never_listens [OF this, of life_pools life_degen dex_checksum dex_register file_codec "[''cb'']"
      "''base''" install_fs "[life_sync]"]
  have "fst (add_deployments dex_checksum dex_register (chain_data life_sniper) (world life_sniper)) = Inr ()" by code_simp
  with never show ?thesis by auto
qed

section \<open>Launching\<close>

text \<open>
  C40: When an arb bot was constructed, its run has ended and both clients can be closed, launching
  it ends the way the run did, with the clients closed and only the process pool still open. When
  the constructor raises, launching raises the same, and what it had opened stays open.
\<close>

theorem run_bot_closes_clients:
  assumes "opened h = []"
    and "\<forall>w. fst (close_redis hops w) = Inr ()" and "\<forall>w. fst (close_session hops w) = Inr ()"
    and "new_arb_bot hops chain_table root name h = (c, h1)" and "\<forall>st. c = Inr st \<longrightarrow> go st = Some (r, t st)"
  shows "\<exists>h2. run_bot hops (new_arb_bot hops chain_table root name) go h =
      Some (case c of Inl e \<Rightarrow> Inl e | Inr _ \<Rightarrow> r, h2) \<and> opened h2 = (case c of Inl _ \<Rightarrow> opened h1 | Inr _ \<Rightarrow> [Executor])"
proof (cases c)
  case (Inl e)
  with assms(4) show ?thesis by (simp add: run_bot_def)
next
  case (Inr st)
  have o: "opened h1 = [Executor, Http_Session, Redis_Client]"
    using new_arb_bot_Inr assms(1,4) Inr by fastforce
  obtain w1 where 1: "close_redis hops (world (t st)) = (Inr (), w1)"
    using assms(2) by (metis prod.collapse)
  obtain w2 where 2: "close_session hops w1 = (Inr (), w2)"
    using assms(3) by (metis prod.collapse)
  have "close_bot hops (h1\<lparr>host_world := world (t st)\<rparr>) = (Inr (), \<lparr>host_world = w2, opened = [Executor]\<rparr>)"
    using o 1 2 by (cases h1) (simp add: close_bot_def close_resource_def on_host_def act_bind_def act_update_def)
  with Inr assms(4,5) show ?thesis by (simp add: run_bot_def)
qed

text \<open>Without the address of the node's socket the constructor raises with everything open.\<close>

theorem run_bot_closes_clients_witness:
  "\<exists>h2. run_bot life_host (new_arb_bot life_host [(''base'', JObj [(''chain_id'', JInt 1), (''http_uri'', JStr ''h''), (''node'', JStr ''n'')])]
       [''cb''] ''base'') (\<lambda>st. Some (Inr (), st :: (string, string, registry) bot_state)) life_before = Some (Inl KeyError, h2) \<and>
     opened h2 = [Executor, Http_Session, Redis_Client]"
proof -
  let ?chains = "[(''base'', JObj [(''chain_id'', JInt 1), (''http_uri'', JStr ''h''), (''node'', JStr ''n'')])]"
  let ?new = "new_arb_bot life_host ?chains [''cb''] ''base'' life_before :: (string, string, registry) bot_state res \<times> registry host"
  have "(case fst ?new of Inl e \<Rightarrow> e = KeyError | Inr _ \<Rightarrow> False)" "opened (snd ?new) = [Executor, Http_Session, Redis_Client]"
    by code_simp+
  then obtain h1 where new: "?new = (Inl KeyError, h1)" and h1: "opened h1 = [Executor, Http_Session, Redis_Client]"
    by (cases ?new) (auto split: sum.splits)
  have o: "opened life_before = []" "\<forall>w. fst (close_redis life_host w) = Inr ()" "\<forall>w. fst (close_session life_host w) = Inr ()"
    by (simp_all add: life_before_def life_host_def)
  from run_bot_closes_clients [OF o new, of "\<lambda>st. Some (Inr (), st)" "Inr ()" "\<lambda>st. st"] h1 show ?thesis by simp
qed


section \<open>The callback bot\<close>

lemma copy_keys_source:
  "copy_keys keys v s = (r, t) \<Longrightarrow> get_attr k t = get_attr k s \<or> (\<exists>x. json_key v k = Inr x \<and> get_attr k t = Inr x)"
proof (induction keys arbitrary: s)
  case (Cons key keys)
  show ?case
  proof (cases "json_contains v key")
    case (Inr present)
    show ?thesis
    proof (cases "present \<and> (\<exists>x. json_key v key = Inr x)")
      case True
      then obtain x where x: "json_key v key = Inr x" by blast
      with Cons.prems Inr True have "copy_keys keys v (set_attr key x s) = (r, t)" by simp
      from Cons.IH [OF this] x show ?thesis by (cases "k = key") auto
    next
      case False
      with Cons.prems Inr consider "copy_keys keys v s = (r, t)" | "t = s"
        by (cases "json_key v key") (auto simp: act_raise_def split: if_splits)
      then show ?thesis using Cons.IH by cases auto
    qed
  qed (use Cons.prems in \<open>simp add: act_raise_def\<close>)
qed (simp add: act_return_def)

text \<open>The value a state message carries for an attribute.\<close>

definition carried :: "chain_ops \<Rightarrow> json \<Rightarrow> string \<Rightarrow> json res" where
  "carried ops m k = res_bind (res_bind (json_key m ''data'') (parse ops)) (\<lambda>v. json_key v k)"

lemma state_message_source:
  assumes "state_message (parse ops) m s = (r, t)"
  shows "get_attr k t = get_attr k s \<or> (\<exists>x. carried ops m k = Inr x \<and> get_attr k t = Inr x)"
proof (cases "json_key m ''type''")
  case (Inl e)
  with assms show ?thesis by (simp add: state_message_def act_raise_def)
next
  case (Inr ty)
  show ?thesis
  proof (cases "ty = JStr ''message''")
    case True
    with assms Inr show ?thesis
      by (cases "res_bind (json_key m ''data'') (parse ops)")
        (auto simp: state_message_def update_bot_state_def carried_def act_raise_def dest: copy_keys_source)
  qed (use assms Inr in \<open>simp add: state_message_def act_return_def\<close>)
qed

definition callback_inv :: "chain_ops \<Rightarrow> json \<Rightarrow> json list \<Rightarrow> json list \<Rightarrow> ('p, 'm, 'w) callback_bot \<Rightarrow> bool" where
  "callback_inv ops aggs news txs b \<longleftrightarrow>
     (\<forall>v. get_attr ''live'' (cb_state b) = Inr v \<longrightarrow> truthy v \<longrightarrow> (\<exists>m\<in>set news. carried ops m ''live'' = Inr v)) \<and>
     (cb_live b \<longrightarrow> (\<exists>m\<in>set news. \<exists>v. carried ops m ''live'' = Inr v \<and> truthy v)) \<and> (\<not> cb_live b \<longrightarrow> txs = []) \<and>
     aggregators (cb_state b) = aggs \<and> length (cb_printed b) = length txs \<and>
     failed_transactions (cb_state b) \<subseteq> (\<Union>m\<in>set txs. message_hashes ops m)"

lemma callback_run_inv:
  assumes "callback_run ops b0 news txs b" and "callback_inv ops aggs [] [] b0"
  shows "callback_inv ops aggs news txs b"
  using assms
proof (induction rule: callback_run.induct)
  case cb_start
  then show ?case .
next
  case (cb_news news txs b m r st)
  have "only_relevant (cb_state b) st" by (rule act_keepsD [OF state_message_only_relevant cb_news.hyps(3)])
  then have "aggregators st = aggregators (cb_state b)" "failed_transactions st = failed_transactions (cb_state b)"
    unfolding only_relevant_def by (cases st; cases "cb_state b"; auto)+
  moreover have "get_attr ''live'' st = get_attr ''live'' (cb_state b) \<or> (\<exists>x. carried ops m ''live'' = Inr x \<and> get_attr ''live'' st = Inr x)"
    by (rule state_message_source [OF cb_news.hyps(3)])
  ultimately show ?case using cb_news unfolding callback_inv_def by auto
next
  case (cb_goes_live news txs b v)
  then show ?case unfolding callback_inv_def by auto
next
  case (cb_message news txs b m r st)
  have "grows_failed (message_hashes ops m) (cb_state b) st" by (rule act_keepsD [OF pending_message_grows cb_message.hyps(3)])
  then have "aggregators st = aggregators (cb_state b)" "attrs st = attrs (cb_state b)"
    "failed_transactions st \<subseteq> failed_transactions (cb_state b) \<union> message_hashes ops m"
    unfolding grows_failed_def by (cases st; cases "cb_state b"; auto)+
  then show ?case using cb_message unfolding callback_inv_def get_attr_def by auto
qed


lemma new_callback_bot_Inr:
  assumes "new_callback_bot hops chain_table name h = (Inr st, h1)"
  shows "get_attr ''live'' st = Inr (JBool False) \<and> failed_transactions st = {} \<and>
    json_get (chain_entry chain_table name) ''aggregators'' = Inr (aggregators st)"
proof -
  have "truthy (chain_entry chain_table name)"
    using assms by (cases "truthy (chain_entry chain_table name)") (simp_all add: new_callback_bot_def act_raise_def)
  with assms have "CallbackBotState hops name (chain_entry chain_table name) h = (Inr st, h1)"
    by (simp add: new_callback_bot_def)
  then show ?thesis
    unfolding CallbackBotState_def
    apply (elim lift_InrE act_bind_InrD host_InrE)
    apply (simp only: act_read_def open_resource_def act_update_def prod.inject sum.inject)
    apply (elim conjE)
    apply hypsubst
    apply (simp add: get_attr_def chain_attrs_def)
    done
qed

text \<open>
  C21: However the two services of a callback bot interleave, it looks at no transaction before a
  state message carried a true \<open>live\<close>; it keeps the aggregators of its chain, and the
  transactions it gave up are among those it received.
\<close>

theorem callback_bot_waits_for_live:
  assumes "new_callback_bot hops chain_table name h = (Inr st, h1)" and "callback_run ops (callback_bot_of st) news txs b"
  shows "(txs \<noteq> [] \<longrightarrow> (\<exists>m\<in>set news. \<exists>v. res_bind (message_transaction ops m) (\<lambda>s. json_key s ''live'') = Inr v \<and> truthy v)) \<and>
    json_get (chain_entry chain_table name) ''aggregators'' = Inr (aggregators (cb_state b)) \<and>
    (\<forall>x\<in>failed_transactions (cb_state b). \<exists>m\<in>set txs. res_bind (message_transaction ops m) (\<lambda>tx. json_key tx ''hash'') = Inr x)"
proof -
  have "callback_inv ops (aggregators st) [] [] (callback_bot_of st)"
    using new_callback_bot_Inr [OF assms(1)] by (simp add: callback_inv_def callback_bot_of_def)
  note inv = callback_run_inv [OF assms(2) this, unfolded callback_inv_def]
  have "res_bind (message_transaction ops m) (\<lambda>tx. json_key tx ''hash'') = Inr x" if "x \<in> message_hashes ops m" for x m
    using that by (auto simp: message_hashes_def hashes_def split: sum.splits)
  moreover have "carried ops m ''live'' = res_bind (message_transaction ops m) (\<lambda>s. json_key s ''live'')" for m
    by (simp add: carried_def message_transaction_def)
  ultimately show ?thesis using inv new_callback_bot_Inr [OF assms(1)] by fastforce
qed

definition life_callback :: "(string, string, registry) bot_state" where
  "life_callback = projr (fst (new_callback_bot life_host [(''base'', life_chain)] ''base'' life_before))"

definition life_live :: json where
  "life_live = JObj [(''type'', JStr ''message''), (''data'', JObj [(''live'', JBool True)])]"

theorem callback_bot_waits_for_live_witness:
  "\<exists>b. callback_run demo_chain (callback_bot_of life_callback) [life_live] [demo_pending (demo_tx ''0xdead'' ''0x0'')] b \<and>
     json_get life_chain ''aggregators'' = Inr (aggregators (cb_state b))"
proof -
  have "case fst (new_callback_bot life_host [(''base'', life_chain)] ''base'' life_before
      :: (string, string, registry) bot_state res \<times> registry host) of Inr x \<Rightarrow> True | Inl e \<Rightarrow> False" by code_simp
  then have "\<exists>h. new_callback_bot life_host [(''base'', life_chain)] ''base'' life_before = (Inr life_callback, h)"
    by (auto simp: life_callback_def prod_eq_iff split: sum.splits)
  then obtain h where new: "new_callback_bot life_host [(''base'', life_chain)] ''base'' life_before = (Inr life_callback, h)" ..
  let ?m = "demo_pending (demo_tx ''0xdead'' ''0x0'')" and ?b = "callback_bot_of life_callback"
  define st where "st = snd (state_message (parse demo_chain) life_live (cb_state ?b))"
  have m: "state_message (parse demo_chain) life_live (cb_state ?b) = (Inr (), st)"
  proof -
    have "fst (state_message (parse demo_chain) life_live (cb_state ?b)) = Inr ()" by code_simp
    then show ?thesis by (simp add: st_def prod_eq_iff)
  qed
  have live: "get_attr ''live'' st = Inr (JBool True)" unfolding st_def by code_simp
  obtain r u where p: "pending_message demo_chain ?m st = (r, u)" by fastforce
  have "fst (pending_message demo_chain ?m (snd (state_message (parse demo_chain) life_live (cb_state ?b)))) = Inr []" by code_simp
  with p have r: "r = Inr []" by (simp add: st_def)
  have "callback_run demo_chain ?b [life_live] [] (?b\<lparr>cb_state := st, cb_listening := True\<rparr>)"
    using cb_news [OF cb_start _ m] by (simp add: callback_bot_of_def)
  from cb_message [OF cb_goes_live [OF this] _ _ , of "JBool True" ?m r u] p r live
  have "\<exists>b. callback_run demo_chain ?b [life_live] [?m] b" by auto
  then obtain b where b: "callback_run demo_chain ?b [life_live] [?m] b" ..
  have "chain_entry [(''base'', life_chain)] ''base'' = life_chain" by (simp add: chain_entry_def)
  with callback_bot_waits_for_live [OF new b] b show ?thesis by auto
qed

end
