(* ===== verification/Spec2Isabelle.thy ===== *)
theory Spec2Isabelle
  imports Event_Loop Blacklist_Properties Lp_Fetcher_Properties Liquidity_Runs
    Arbitrage_Backrun Anvil_Service Build_And_Load Launch_Properties
begin

text \<open>
  \<^bold>\<open>cream-bots\<close> (src/src/cream_bots): arbitrage bots for Uniswap-like exchanges, and the
  scripts that collect their data. Paths below are relative to that directory.

  \<^bold>\<open>The program.\<close> The scripts of builders/ write JSON files to data/\<open>chain\<close>: the pools of every
  factory (lp_fetcher_v2.py, lp_fetcher_v3.py), the liquidity of the V3 pools
  (liquidity_fetcher.py), and the arbitrage paths (arbs_2pool.py, arbs_3pool.py). A bot
  (app/bots) creates one state object and the services of app/core that share it.
  \<open>PoolService\<close> creates the pool managers, loads pools and paths from the files, builds an arb
  for every usable path and sets the bot live. \<open>EventService\<close> receives chain events over
  Redis, updates the pool they concern and creates a task that puts its address into a queue.
  \<open>ArbitrageService\<close> takes addresses from the queue, evaluates the arbs the pool affects and
  reports the profitable ones, no two of which share a pool. \<open>BlacklistService\<close> and
  \<open>BootstrapService\<close> keep parts of the state; the callback bot checks and reports pending
  transactions of aggregators.

  \<^bold>\<open>Vocabulary.\<close> \<open>CB_Prelude\<close>: exceptions as the datatype \<open>py_exn\<close>, results \<open>'a res\<close>, actions
  \<open>('s, 'a) act\<close> that pass a state and may raise (a raise keeps the state changes made before it),
  dictionaries in insertion order (the locale \<open>dict_ops\<close>), JSON values with Python's truth and
  subscripting. \<open>PyText\<close>: \<open>int(s, 16)\<close> and \<open>bytes.fromhex\<close>. \<open>Task_Queue\<close>: the asyncio queue
  (locale \<open>fifo_queue\<close>). \<open>Py_Files\<close>: files as JSON documents (locale \<open>document_store\<close>).
  \<open>Bot_State\<close>: the shared state object. \<open>Degenbot\<close>: the record of the operations the services
  call in degenbot, web3, eth_abi and ujson; they act on an opaque \<open>world\<close>, so a model of the
  services holds for every behaviour of these packages, and a property that needs a law of
  them states it as a hypothesis.

  \<^bold>\<open>Events\<close> (app/core/event_service.py). \<open>Event_Service\<close> has the six handlers
  \<open>process_burn_event\<close> and so on, the table \<open>EVENTS\<close>, \<open>handle_message\<close> for one Redis message and
  \<open>process_uniswap_events\<close> for the subscription. \<open>Event_Contract\<close> states what a handler may
  change as the locale \<open>event_handler\<close>, interpreted for each of them; \<open>Event_Correct\<close> and
  \<open>Event_Properties\<close> show when an address is enqueued, with which update of the pool, how
  topics select handlers, and that nothing is processed while \<open>first_event\<close> is unset.
  \<open>Event_Loop\<close> composes message handling, put tasks and the consumer
  \<open>ArbitrageService.find_onchain_arbs\<close> into the inductive relation \<open>loop_run\<close>: under every
  interleaving the addresses are processed in order, none lost.

  \<^bold>\<open>Arbitrage\<close> (app/core/arbitrage_service.py). \<open>Arbitrage\<close> has \<open>find_affected_arbs\<close> and
  \<open>process_onchain_arbs\<close>: calculation, ranking, the loop that drops overlapping arbs,
  the reports. \<open>Arbitrage_Choice\<close> refines that loop to a greedy choice (locale
  \<open>greedy_choice\<close>), disjoint and maximal; \<open>Arbitrage_Report\<close> shows that the reports are sound, disjoint and dominate
  what they leave out, and when the evaluation raises. \<open>Arbitrage_Backrun\<close> has
  \<open>process_backrun_arbs\<close>, the same evaluation against the state a pending transaction would
  leave; it reads an attribute that no code sets, so in the program it always raises. \<open>Anvil_Service\<close> (app/core/anvil_service.py) simulates a transaction on a local fork.

  \<^bold>\<open>Exchanges\<close> (app/core/exchange_service.py). \<open>Exchange_Service\<close> enters the factories of the chain
  into degenbot's deployment tables, and lists routers and aggregators; \<open>Exchange_Properties\<close>
  shows which deployments the tables hold afterwards.

  \<^bold>\<open>Pools\<close> (app/core/pool_service.py). \<open>Pool_Service\<close> has \<open>create_pool_managers\<close>,
  \<open>create_pool_helpers\<close>, \<open>load_pools\<close> for a chain name and \<open>load_chain_pools\<close>, which takes the
  name from the attribute of the bot. \<open>Pool_Correct\<close> (locale \<open>load_frame\<close>), \<open>Pool_Registry\<close> (under the
  documented behaviour of degenbot's registry, every pool a helper was created for is registered
  from then on) and \<open>Pool_Properties\<close> show which arbs are loaded, from which pools, that each is
  stored under its id, and what a failed loading leaves.

  \<^bold>\<open>Further services.\<close> \<open>Blacklist_Service\<close>, \<open>Blacklist_Properties\<close> (app/core/blacklist_service.py):
  memory and files agree, so the lists survive a restart. \<open>Bootstrap_Service\<close>
  (app/core/bootstrap_service.py, config/helpers.py). \<open>Callback_Transactions\<close>,
  \<open>Callback_Properties\<close> (app/bots/callback_bot, app/core/aggregator_service.py): a failed
  transaction is never tried again, and what is printed is the message's own transaction, simulated
  successfully.

  \<^bold>\<open>Bots\<close> (app/bots, main.py). \<open>Bots\<close> has the constructors \<open>new_arb_bot\<close>, \<open>new_callback_bot\<close> and
  \<open>new_sniper_bot\<close> with the resources they open, \<open>run_bot\<close> with its closing, and the runs: \<open>arb_reach\<close>
  are the states an arb bot can reach, where the parts of \<open>run\<close> (\<open>main_step\<close>), application states,
  chain events, put tasks and the consumer take turns; \<open>callback_run\<close> interleaves the two
  services of the callback bot; \<open>sniper_run\<close> is the run of the sniper bot. \<open>Arb_Bot_Run\<close> has the
  invariant of a reachable arb bot; \<open>Bot_Properties\<close> and \<open>Launch_Properties\<close> show that nothing is
  evaluated before loading, where the bots get stuck or fail, and what launching leaves open.

  \<^bold>\<open>Builders.\<close> \<open>Builder_Files\<close> has what the scripts share. \<open>Arbs_2Pool\<close>, \<open>Arbs_2Pool_Properties\<close>
  (builders/arbs_2pool.py): the loops over the token index write an entry for exactly the pairs
  of pools through which the wrapped token goes out and back. \<open>Arbs_3Pool\<close>,
  \<open>Arbs_3Pool_Properties\<close> (builders/arbs_3pool.py): with a multigraph that behaves as the locale
  \<open>pool_graph\<close> states, an entry for exactly the triangles of pools through the wrapped token.
  \<open>Build_And_Load\<close> composes both scripts with \<open>PoolService\<close>: the type of the entries they write, and
  that the bot reads all of them. \<open>Block_Ranges\<close>: the block windows,
  and scanning the chain through windows as the locales \<open>block_scanner\<close> and \<open>exact_scanner\<close>.
  \<open>Lp_Fetcher\<close>, \<open>Lp_Fetcher_Properties\<close> (builders/lp_fetcher_v2.py, lp_fetcher_v3.py): the pool
  file stays complete up to the block it is resumed from. \<open>Liquidity_Fetcher\<close>,
  \<open>Liquidity_Properties\<close> (builders/liquidity_fetcher.py): the adaptive query loop, and the
  updates of every pool as exactly its events in chain order. \<open>Liquidity_Snapshot\<close> has the rest of
  that script, the merging into the snapshot file; \<open>Liquidity_Runs\<close> shows that the next run reads
  what was merged, and which events consecutive runs hand over.

  \<^bold>\<open>Loops.\<close> All recursion is structural or has a measure, but for \<open>query_loop\<close>: the script repeats a
  refused query for ever, so it is a \<open>partial_function\<close> with the value \<open>None\<close> for a run without
  end. It is shown to return when the node answers small queries, and not to return when
  the node refuses all. The subscriptions, which never end by themselves, run over the list
  of messages received so far. No model uses fuel.

  \<^bold>\<open>This theory\<close> joins the life of an arb bot and the evaluation: every evaluation a bot that was
  constructed and lives on in any interleaving has started ends without an exception.

  \<^bold>\<open>Not modelled.\<close> Logging, printing and timing, which no state depends on; the logger and the
  contract constants of config/; the argument parser of main.py. In the liquidity fetcher the
  float products of the span are integer divisions, equal to them at the sizes that occur. The
  multigraph of networkx, degenbot with its pool objects and tick data, web3, eth_abi, ujson and
  the Redis client are parameters.
\<close>

section \<open>From construction to the reports\<close>

text \<open>
  The life of a bot and the evaluation together. The laws name what the arbitrage objects promise: a result
  carries the id of the arb it was calculated for, and nobody cancels a calculation.
\<close>

definition calc_lawful :: "('p, 'f) calc_ops \<Rightarrow> bool" where
  "calc_lawful ops \<longleftrightarrow>
     (\<forall>h f r. calculate ops h = Inr f \<longrightarrow> await_result ops f = Inr r \<longrightarrow> result_id r = arb_id h) \<and>
     (\<forall>h. calculate ops h \<noteq> Inl CancelledError) \<and> (\<forall>f. await_result ops f \<noteq> Inl CancelledError) \<and>
     (\<forall>fs. set (as_completed ops fs) = set fs) \<and> iter_ok (set_iter ops)"

lemma start_calculations_ok:
  assumes "\<forall>h. calc h \<noteq> Inl CancelledError"
  shows "\<exists>fs. start_calculations calc hs = Inr fs \<and> (\<forall>f\<in>set fs. \<exists>h\<in>set hs. calc h = Inr f)"
proof (induction hs)
  case (Cons h hs)
  then obtain fs where fs: "start_calculations calc hs = Inr fs" "\<forall>f\<in>set fs. \<exists>h\<in>set hs. calc h = Inr f" by blast
  show ?case
    using fs assms by (cases "calc h") (auto simp: is_Exception_def split: sum.split)
qed simp

lemma collect_results_ok:
  assumes "\<forall>f. await f \<noteq> Inl CancelledError"
  shows "\<exists>rs. collect_results await fs = Inr rs \<and> (\<forall>r\<in>set rs. \<exists>f\<in>set fs. await f = Inr r)"
proof (induction fs)
  case (Cons f fs)
  then obtain rs where rs: "collect_results await fs = Inr rs" "\<forall>r\<in>set rs. \<exists>f\<in>set fs. await f = Inr r" by blast
  show ?case
    using rs assms by (cases "await f") (auto simp: is_Exception_def split: sum.split)
qed simp

lemma calculation_results_ok:
  assumes "calc_lawful ops"
  shows "\<exists>rs. calculation_results ops hs = Inr rs \<and> (\<forall>r\<in>set rs. \<exists>h\<in>set hs. result_id r = arb_id h)"
proof -
  have laws: "\<forall>h. calculate ops h \<noteq> Inl CancelledError" "\<forall>f. await_result ops f \<noteq> Inl CancelledError"
    "\<forall>fs. set (as_completed ops fs) = set fs"
    "\<And>h f r. calculate ops h = Inr f \<Longrightarrow> await_result ops f = Inr r \<Longrightarrow> result_id r = arb_id h"
    using assms by (simp_all add: calc_lawful_def)
  obtain fs where fs: "start_calculations (calculate ops) hs = Inr fs" "\<forall>f\<in>set fs. \<exists>h\<in>set hs. calculate ops h = Inr f"
    using start_calculations_ok [OF laws(1)] by blast
  obtain rs where rs: "collect_results (await_result ops) (as_completed ops fs) = Inr rs"
    "\<forall>r\<in>set rs. \<exists>f\<in>set (as_completed ops fs). await_result ops f = Inr r"
    using collect_results_ok [OF laws(2)] by blast
  have "\<exists>h\<in>set hs. result_id r = arb_id h" if "r \<in> set rs" for r
    using that rs(2) laws(3) fs(2) laws(4) by metis
  with fs(1) rs(1) show ?thesis by (simp add: calculation_results_def)
qed

lemma stored_arb_known:
  assumes "arbs_keyed arbs" and "h \<in> set (find_affected_arbs addr arbs a)"
  shows "map_of arbs (arb_id h) \<noteq> None"
proof -
  from assms(2) obtain k d where "(k, d) \<in> set arbs" "h = lp_cycle d"
    by (auto simp: find_affected_arbs_def)
  with assms(1) have "(arb_id h, d) \<in> set arbs" by (auto simp: arbs_keyed_def)
  then show ?thesis by (auto simp: map_of_eq_None_iff intro: rev_image_eqI)
qed

text \<open>What an evaluation of the arbs an address affects yields.\<close>

definition disjoint_reports :: "(json, 'p arb_details) dict \<Rightarrow> 'p report list \<Rightarrow> bool" where
  "disjoint_reports arbs reports \<longleftrightarrow> (\<forall>i<length reports. \<exists>k d. map_of arbs k = Some d \<and> fst (reports ! i) = Some d \<and>
     (\<forall>j<length reports. i \<noteq> j \<longrightarrow> (\<exists>e. fst (reports ! j) = Some e \<and>
        set (swap_pools (lp_cycle d)) \<inter> set (swap_pools (lp_cycle e)) = {})))"

lemma keyed_evaluates:
  assumes "arbs_keyed arbs" and "calc_lawful ops"
  shows "\<exists>reports. process_onchain_arbs ops arbs (find_affected_arbs addr arbs a) = Inr reports \<and> disjoint_reports arbs reports"
  unfolding disjoint_reports_def
proof -
  have iter: "iter_ok (set_iter ops)" using assms(2) by (simp add: calc_lawful_def)
  let ?hs = "find_affected_arbs addr arbs a"
  show "\<exists>reports. process_onchain_arbs ops arbs ?hs = Inr reports \<and>
     (\<forall>i<length reports. \<exists>k d. map_of arbs k = Some d \<and> fst (reports ! i) = Some d \<and>
        (\<forall>j<length reports. i \<noteq> j \<longrightarrow> (\<exists>e. fst (reports ! j) = Some e \<and>
           set (swap_pools (lp_cycle d)) \<inter> set (swap_pools (lp_cycle e)) = {})))"
  proof (cases "?hs = []")
    case True
    then show ?thesis by (simp add: process_onchain_arbs_def)
  next
    case False
    obtain rs where rs: "calculation_results ops ?hs = Inr rs" "\<forall>r\<in>set rs. \<exists>h\<in>set ?hs. result_id r = arb_id h"
      using calculation_results_ok [OF assms(2)] by blast
    have "\<not> unknown_result arbs rs"
      using rs(2) stored_arb_known [OF assms(1), of _ addr a] by (fastforce simp: unknown_result_def)
    with rank_and_report_cases [OF assms(1) iter, of rs] obtain reports where
      "rank_and_report (set_iter ops) arbs rs = Inr reports" by auto
    with rs(1) False have p: "process_onchain_arbs ops arbs ?hs = Inr reports"
      by (simp add: process_onchain_arbs_def)
    obtain hs where hs: "distinct hs"
      "set hs = set (chosen_arbs (map (cycle_of arbs) (profitable_results rs)))"
      "list_all2 (report_for arbs rs) hs reports"
      by (rule process_onchain_reports [OF assms(1) iter rs(1) p False])
    have "\<exists>k d. map_of arbs k = Some d \<and> fst (reports ! i) = Some d \<and>
        (\<forall>j<length reports. i \<noteq> j \<longrightarrow> (\<exists>e. fst (reports ! j) = Some e \<and>
           set (swap_pools (lp_cycle d)) \<inter> set (swap_pools (lp_cycle e)) = {}))" if i: "i < length reports" for i
    proof -
      have "report_for arbs rs (hs ! i) (reports ! i)"
        using hs(3) i by (auto simp: list_all2_conv_all_nth)
      then obtain k d where d: "map_of arbs k = Some d" "fst (reports ! i) = Some d"
        by (auto simp: report_for_def)
      have "\<exists>e. fst (reports ! j) = Some e \<and> set (swap_pools (lp_cycle d)) \<inter> set (swap_pools (lp_cycle e)) = {}"
        if "j < length reports" "i \<noteq> j" for j
        using reports_pairwise [OF hs i that] d(2) by simp
      with d show ?thesis by blast
    qed
    with p show ?thesis by blast
  qed
qed

text \<open>Loading and one evaluation.\<close>

theorem loaded_bot_evaluates:
  assumes "all_arbs s = []" and "load_pools pops c root chain fs s = (r, t)" and "calc_lawful ops"
  shows "\<exists>reports. process_onchain_arbs ops (all_arbs t) (find_affected_arbs addr (all_arbs t) a) = Inr reports \<and>
     disjoint_reports (all_arbs t) reports"
proof -
  have "arbs_keyed (all_arbs t)" using load_pools_keyed [OF _ assms(2)] assms(1) by (simp add: arbs_keyed_def)
  from keyed_evaluates [OF this assms(3)] show ?thesis .
qed

text \<open>
  C1: End to end: whatever state an arb bot reaches from its construction, by any interleaving of its
  initialisation, application states, chain events, put tasks and the consumer, every evaluation
  it has started ends without an exception, now or after any further steps; each of its reports is for
  a loaded arb, and two different reports are for arbs without a common pool.
\<close>

theorem arb_bot_evaluates:
  assumes "new_arb_bot hops chain_table root name h = (Inr st, h1)" and "arb_reach env (arb_bot_of st) b"
    and "cs \<in> set (evals (looped b))" and "calc_lawful ops"
  shows "\<exists>reports. process_onchain_arbs ops (all_arbs (bot_core b)) cs = Inr reports \<and>
     (\<forall>i<length reports. \<exists>k d. map_of (all_arbs (bot_core b)) k = Some d \<and> fst (reports ! i) = Some d \<and>
        (\<forall>j<length reports. i \<noteq> j \<longrightarrow> (\<exists>e. fst (reports ! j) = Some e \<and>
           set (swap_pools (lp_cycle d)) \<inter> set (swap_pools (lp_cycle e)) = {})))"
proof -
  have "arb_inv env (arb_bot_of st)"
    using new_arb_bot_Inr [OF assms(1)] by (intro arb_inv_start) (simp_all add: fresh_arb_state_def)
  from arb_reach_inv [OF assms(2) this] assms(3) obtain a where "arbs_keyed (all_arbs (bot_core b))"
    "cs = find_affected_arbs (address_of_pool env) (all_arbs (bot_core b)) a" unfolding arb_inv_def by blast
  with keyed_evaluates [OF _ assms(4)] show ?thesis unfolding disjoint_reports_def by blast
qed

definition install_calc :: "(string, string lp_cycle) calc_ops" where
  "install_calc = \<lparr>calculate = Inr, await_result = (\<lambda>c. Inr \<lparr>result_id = arb_id c, profit_amount = 3\<rparr>),
     as_completed = rev, set_iter = (\<lambda>cs. cs)\<rparr>"

theorem arb_bot_evaluates_witness:
  "\<exists>reports. process_onchain_arbs install_calc (all_arbs (bot_core life_evaluated))
     [new_cycle (JStr ''arb1'') ''WETH'' [''0xp1'', ''0xp2'']] = Inr reports"
proof -
  obtain h where h: "new_arb_bot life_host [(''base'', life_chain)] [''cb''] ''base'' life_before = (Inr life_state, h)"
    using life_new by blast
  have "calc_lawful install_calc" by (simp add: calc_lawful_def install_calc_def iter_ok_def)
  from arb_bot_evaluates [OF h life_reaches_evaluated _ this] show ?thesis
    by (auto simp: life_evaluation)
qed

end
